(* ===== verification/Prelude.thy ===== *)
theory Prelude
  imports Main "HOL-Library.Word" "HOL-Library.Signed_Division"
begin

text \<open>
  Shared vocabulary of the development: the machine integers of the emulator, the ways an
  iteration of its main loop can end the process, the result type of fallible operations,
  the word memory, and the generic word lemmas the component theories share.
\<close>

unbundle bit_operations_syntax

section \<open>Machine integers\<close>

text \<open>
  \<^verbatim>\<open>uint_t\<close> and \<^verbatim>\<open>data_t\<close> are \<^verbatim>\<open>uint64_t\<close> (\<^verbatim>\<open>emu.h\<close>); the narrower
  types are those of the bit-field structs of \<^verbatim>\<open>csr_file.h\<close>.
\<close>

type_synonym u8 = "8 word"
type_synonym u16 = "16 word"
type_synonym u32 = "32 word"
type_synonym u64 = "64 word"
type_synonym u128 = "128 word"
type_synonym uint_t = u64

named_theorems lane_simps \<open>byte-lane accesses rewritten to bit fields\<close>
named_theorems reg_simps \<open>register images rewritten to disjoint bit fields\<close>
named_theorems field_ext_simps \<open>fields of a written register\<close>
named_theorems result_simps \<open>unfolding of the result type\<close>

section \<open>How the process can stop\<close>

text \<open>
  \<^item> \<open>Exit n\<close>: the code calls \<^verbatim>\<open>exit(n)\<close>;
  \<^item> \<open>Break\<close>: a \<^verbatim>\<open>break\<close> leaves the main loop and \<^verbatim>\<open>main\<close> returns 0;
  \<^item> \<open>OutOfRange\<close>: \<^verbatim>\<open>vector::at\<close> throws \<^verbatim>\<open>std::out_of_range\<close>, which nothing catches;
  \<^item> \<open>NoReturn\<close>: control leaves a value-returning function without a \<^verbatim>\<open>return\<close>
    statement, and the caller uses the (undefined) value;
  \<^item> \<open>Abort\<close>: the code calls \<^verbatim>\<open>abort()\<close> or an \<^verbatim>\<open>assert\<close> fails;
  \<^item> \<open>BadPointer\<close>: an access outside the object a pointer belongs to (undefined behaviour).
\<close>

datatype halt = Exit int | Break | OutOfRange | NoReturn | Abort | BadPointer

type_synonym 'a result = "halt + 'a"

definition andThen :: "'a result \<Rightarrow> ('a \<Rightarrow> 'b result) \<Rightarrow> 'b result" where
  "andThen r f = (case r of Inl h \<Rightarrow> Inl h | Inr x \<Rightarrow> f x)"

lemma andThen_simps [simp, result_simps]:
  "andThen (Inl h) f = Inl h"
  "andThen (Inr x) f = f x"
  by (simp_all add: andThen_def)

lemma andThen_Inr_iff [result_simps]:
  "andThen r f = Inr y \<longleftrightarrow> (\<exists>x. r = Inr x \<and> f x = Inr y)"
  by (cases r) auto

lemma andThen_Inl_iff [result_simps]:
  "andThen r f = Inl h \<longleftrightarrow> r = Inl h \<or> (\<exists>x. r = Inr x \<and> f x = Inl h)"
  by (cases r) auto

lemma andThen_assoc: "andThen (andThen r f) g = andThen r (\<lambda>x. andThen (f x) g)"
  by (cases r) auto

lemma andThen_cong [fundef_cong]:
  "r = r' \<Longrightarrow> (\<And>x. r' = Inr x \<Longrightarrow> f x = g x) \<Longrightarrow> andThen r f = andThen r' g"
  by (cases r') auto

definition of_option :: "halt \<Rightarrow> 'a option \<Rightarrow> 'a result" where
  "of_option h x = (case x of None \<Rightarrow> Inl h | Some v \<Rightarrow> Inr v)"

lemma of_option_simps [simp, result_simps]:
  "of_option h None = Inl h"
  "of_option h (Some v) = Inr v"
  by (simp_all add: of_option_def)

section \<open>The memory vector\<close>

text \<open>
  \<^verbatim>\<open>vector<uint_t> memory(1<<MEM_SIZE)\<close>: \<open>2 ^ 28\<close> words of 64 bits, indexed by a
  64-bit word, every access through the range-checked \<^verbatim>\<open>at\<close>.
\<close>

type_synonym memory = "u64 \<Rightarrow> u64"

definition MEM_WORDS :: u64 where "MEM_WORDS = 0x10000000"

definition mem_at :: "memory \<Rightarrow> u64 \<Rightarrow> u64 result" where
  "mem_at m i = (if i < MEM_WORDS then Inr (m i) else Inl OutOfRange)"

definition mem_put :: "memory \<Rightarrow> u64 \<Rightarrow> u64 \<Rightarrow> memory result" where
  "mem_put m i v = (if i < MEM_WORDS then Inr (m(i := v)) else Inl OutOfRange)"

lemma mem_at_put_same: "mem_put m i v = Inr m' \<Longrightarrow> mem_at m' i = Inr v"
  by (auto simp: mem_put_def mem_at_def split: if_splits)

lemma mem_at_put_other: "mem_put m i v = Inr m' \<Longrightarrow> j \<noteq> i \<Longrightarrow> mem_at m' j = mem_at m j"
  by (auto simp: mem_put_def mem_at_def split: if_splits)

lemma mem_at_Inr_iff: "mem_at m i = Inr v \<longleftrightarrow> i < MEM_WORDS \<and> v = m i"
  by (auto simp: mem_at_def)

lemma mem_put_Inr_iff: "mem_put m i v = Inr m' \<longleftrightarrow> i < MEM_WORDS \<and> m' = m(i := v)"
  by (auto simp: mem_put_def)

section \<open>Words and bit fields\<close>

text \<open>Two words whose set bits do not overlap add up to their disjunction.\<close>

lemma plus_eq_or:
  fixes a b :: "'a::len word"
  assumes "a AND b = 0"
  shows "a + b = a OR b"
  using assms by (simp add: disjunctive_add_eq_or)

lemma plus_eq_orI:
  fixes a b :: "'a::len word"
  assumes "\<And>n. n < LENGTH('a) \<Longrightarrow> bit a n \<Longrightarrow> bit b n \<Longrightarrow> False"
  shows "a + b = a OR b"
  by (rule plus_eq_or, rule bit_word_eqI) (use assms in \<open>auto simp: bit_simps\<close>)

lemma plus_eq_or3I:
  fixes a b c :: "'a::len word"
  assumes "a AND b = 0" "a AND c = 0" "b AND c = 0"
  shows "a + b + c = a OR b OR c"
  using assms by (simp add: plus_eq_or bit.conj_disj_distrib2 or.assoc)

lemma plus_eq_or4I:
  fixes a b c d :: "'a::len word"
  assumes "a AND b = 0" "a AND c = 0" "b AND c = 0" "a AND d = 0" "b AND d = 0" "c AND d = 0"
  shows "a + b + c + d = a OR b OR c OR d"
  using assms by (simp add: plus_eq_or3I plus_eq_or bit.conj_disj_distrib2 or.assoc)

lemma fields_disjoint:
  fixes x y :: "'a::len word"
  shows "i + k \<le> j \<Longrightarrow> push_bit j y AND push_bit i (take_bit k x) = 0"
    and "k \<le> j \<Longrightarrow> push_bit j y AND take_bit k x = 0"
  by (rule bit_word_eqI, auto simp: bit_simps)+

lemma and_mask_num: "n < 64 \<Longrightarrow> (w :: u64) AND mask n = take_bit n w"
  by (simp add: take_bit_eq_mask)

text \<open>Overwriting the \<open>len\<close> bits of \<open>d\<close> that start at bit \<open>lo\<close> with the low bits of \<open>v\<close>.\<close>

definition put_field :: "nat \<Rightarrow> nat \<Rightarrow> u64 \<Rightarrow> u64 \<Rightarrow> u64" where
  "put_field lo len d v = (d AND NOT (push_bit lo (mask len))) OR push_bit lo (take_bit len v)"

definition get_field :: "nat \<Rightarrow> nat \<Rightarrow> u64 \<Rightarrow> u64" where
  "get_field lo len d = take_bit len (drop_bit lo d)"

lemma bit_put_field [bit_simps]:
  "bit (put_field lo len d v) n \<longleftrightarrow>
     n < 64 \<and> (if lo \<le> n \<and> n < lo + len then bit v (n - lo) else bit d n)"
  by (auto simp: put_field_def bit_simps dest: bit_imp_le_length)

lemma bit_get_field [bit_simps]:
  "bit (get_field lo len d) n \<longleftrightarrow> n < len \<and> bit d (lo + n)"
  by (auto simp: get_field_def bit_simps)

lemma get_put_field_same:
  "lo + len \<le> 64 \<Longrightarrow> get_field lo len (put_field lo len d v) = take_bit len v"
  by (rule bit_word_eqI) (auto simp: bit_simps)

lemma get_put_field_disjoint:
  "lo' + len' \<le> lo \<or> lo + len \<le> lo' \<Longrightarrow>
   get_field lo' len' (put_field lo len d v) = get_field lo' len' d"
  by (rule bit_word_eqI) (auto simp: bit_simps dest: bit_imp_le_length)

lemma put_put_field_same: "put_field lo len (put_field lo len d v) v' = put_field lo len d v'"
  by (rule bit_word_eqI) (auto simp: bit_simps)

lemma put_get_field: "put_field lo len d (get_field lo len d) = d"
  by (rule bit_word_eqI) (auto simp: bit_simps)

lemma signed_take_bit_all_bits:
  fixes x :: "'a::len word"
  assumes "LENGTH('a) \<le> Suc m"
  shows "signed_take_bit m x = x"
proof (rule bit_word_eqI)
  fix n assume "n < LENGTH('a)"
  with assms have "min m n = n" by simp
  with \<open>n < LENGTH('a)\<close> show "bit (signed_take_bit m x) n \<longleftrightarrow> bit x n"
    by (simp add: bit_simps)
qed

lemma word_mod_8_cases:
  fixes a :: u64
  obtains "a mod 8 = 0" | "a mod 8 = 1" | "a mod 8 = 2" | "a mod 8 = 3"
    | "a mod 8 = 4" | "a mod 8 = 5" | "a mod 8 = 6" | "a mod 8 = 7"
proof -
  have "unat (a mod 8) < 8" by (simp add: unat_mod)
  then have "unat (a mod 8) \<in> {0, 1, 2, 3, 4, 5, 6, 7}" by auto
  then have "a mod 8 \<in> {0, 1, 2, 3, 4, 5, 6, 7}"
    by (auto simp: word_unat_eq_iff)
  then show thesis by (elim insertE emptyE) (erule that)+
qed

end
