(* ===== verification/CSR_File.thy ===== *)
theory CSR_File
  imports Prelude
begin

text \<open>
  The register structs of \<^verbatim>\<open>csr_file.h\<close> (lines 223 to 502): each C struct is a record, its
  \<^verbatim>\<open>read_reg\<close> and \<^verbatim>\<open>write_reg\<close> members are functions on the record. \<^verbatim>\<open>sstatus\<close> and
  \<^verbatim>\<open>ustatus\<close> are structs of references into \<^verbatim>\<open>mstatus\<close>, hence functions on the same record.
  The interface \<open>csr_reg\<close> states what such a register promises (which bits it keeps, that
  its image can be written back) and is interpreted on every struct that keeps it.
\<close>

section \<open>The structs\<close>

text \<open>
  \<^verbatim>\<open>f << k\<close> for a \<^verbatim>\<open>uint8_t\<close> field: the field is promoted to a 32-bit \<^verbatim>\<open>int\<close>, shifted there,
  and the result is sign-extended when it meets a 64-bit operand.
\<close>

definition c_shl :: "u8 \<Rightarrow> nat \<Rightarrow> u64" where
  "c_shl f k = scast (push_bit k (ucast f :: u32))"


record mstatus_t =
  ms_uie :: u8
  ms_sie :: u8
  ms_mie :: u8
  ms_upie :: u8
  ms_spie :: u8
  ms_mpie :: u8
  ms_spp :: u8
  ms_mpp :: u8
  ms_fs :: u8
  ms_xs :: u8
  ms_mprv :: u8
  ms_sum :: u8
  ms_mxr :: u8
  ms_tvm :: u8
  ms_tw :: u8
  ms_tsr :: u8
  ms_uxl :: u8
  ms_sxl :: u8
  ms_sd :: u8

definition mstatus_init :: mstatus_t where
  "mstatus_init = \<lparr>ms_uie = 0, ms_sie = 1, ms_mie = 1, ms_upie = 0, ms_spie = 0,
     ms_mpie = 0, ms_spp = 0, ms_mpp = 0, ms_fs = 0, ms_xs = 0,
     ms_mprv = 0, ms_sum = 0, ms_mxr = 0, ms_tvm = 0, ms_tw = 0,
     ms_tsr = 0, ms_uxl = 2, ms_sxl = 0, ms_sd = 0\<rparr>"

definition mstatus_read_reg :: "mstatus_t \<Rightarrow> u64" where
  "mstatus_read_reg m =
     push_bit 63 (ucast (ms_sd m)) + push_bit 34 (ucast (ms_sxl m)) + push_bit 32 (ucast (ms_uxl m)) + c_shl (ms_tsr m) 22 +
     c_shl (ms_tw m) 21 + c_shl (ms_tvm m) 20 + c_shl (ms_mxr m) 19 + c_shl (ms_sum m) 18 +
     c_shl (ms_mprv m) 17 + c_shl (ms_xs m) 15 + c_shl (ms_fs m) 13 + c_shl (ms_mpp m) 11 +
     c_shl (ms_spp m) 8 + c_shl (ms_mpie m) 7 + c_shl (ms_spie m) 5 + c_shl (ms_upie m) 4 +
     c_shl (ms_mie m) 3 + c_shl (ms_sie m) 1 + ucast (ms_uie m)"

definition mstatus_write_reg :: "u64 \<Rightarrow> mstatus_t \<Rightarrow> mstatus_t" where
  "mstatus_write_reg val m = m\<lparr>
     ms_uie := ucast (val AND 1), ms_sie := ucast (drop_bit 1 val AND 1),
     ms_mie := ucast (drop_bit 3 val AND 1), ms_upie := ucast (drop_bit 4 val AND 1),
     ms_spie := ucast (drop_bit 5 val AND 1), ms_mpie := ucast (drop_bit 7 val AND 1),
     ms_spp := ucast (drop_bit 8 val AND 1), ms_mpp := ucast (drop_bit 11 val AND 3),
     ms_fs := ucast (drop_bit 13 val AND 3), ms_xs := ucast (drop_bit 15 val AND 3),
     ms_mprv := ucast (drop_bit 17 val AND 1), ms_sum := ucast (drop_bit 18 val AND 1),
     ms_mxr := ucast (drop_bit 19 val AND 1), ms_tvm := ucast (drop_bit 20 val AND 1),
     ms_tw := ucast (drop_bit 21 val AND 1), ms_tsr := ucast (drop_bit 22 val AND 1),
     ms_uxl := ucast (drop_bit 32 val AND 3), ms_sxl := ucast (drop_bit 34 val AND 3),
     ms_sd := ucast (drop_bit 63 val AND 1)\<rparr>"

definition sstatus_read_reg :: "mstatus_t \<Rightarrow> u64" where
  "sstatus_read_reg m =
     push_bit 63 (ucast (ms_sd m)) + push_bit 32 (ucast (ms_uxl m)) + c_shl (ms_mxr m) 19 + c_shl (ms_sum m) 18 +
     c_shl (ms_xs m) 15 + c_shl (ms_fs m) 13 + c_shl (ms_spp m) 8 + c_shl (ms_spie m) 5 +
     c_shl (ms_upie m) 4 + c_shl (ms_sie m) 1 + ucast (ms_uie m)"

definition sstatus_write_reg :: "u64 \<Rightarrow> mstatus_t \<Rightarrow> mstatus_t" where
  "sstatus_write_reg val m = m\<lparr>
     ms_uie := ucast (val AND 1), ms_sie := ucast (drop_bit 1 val AND 1),
     ms_upie := ucast (drop_bit 4 val AND 1), ms_spie := ucast (drop_bit 5 val AND 1),
     ms_spp := ucast (drop_bit 8 val AND 1), ms_fs := ucast (drop_bit 13 val AND 3),
     ms_xs := ucast (drop_bit 15 val AND 3), ms_sum := ucast (drop_bit 18 val AND 1),
     ms_mxr := ucast (drop_bit 19 val AND 1), ms_uxl := ucast (drop_bit 32 val AND 3),
     ms_sd := ucast (drop_bit 63 val AND 1)\<rparr>"

definition ustatus_read_reg :: "mstatus_t \<Rightarrow> u64" where
  "ustatus_read_reg m =
     push_bit 63 (ucast (ms_sd m)) + push_bit 32 (ucast (ms_uxl m)) + c_shl (ms_mxr m) 19 + c_shl (ms_sum m) 18 +
     c_shl (ms_xs m) 15 + c_shl (ms_fs m) 13 + c_shl (ms_upie m) 4 + ucast (ms_uie m)"

definition ustatus_write_reg :: "u64 \<Rightarrow> mstatus_t \<Rightarrow> mstatus_t" where
  "ustatus_write_reg val m = m\<lparr>
     ms_uie := ucast (val AND 1), ms_upie := ucast (drop_bit 5 val AND 1),
     ms_fs := ucast (drop_bit 13 val AND 3), ms_xs := ucast (drop_bit 15 val AND 3),
     ms_sum := ucast (drop_bit 18 val AND 1), ms_mxr := ucast (drop_bit 19 val AND 1),
     ms_uxl := ucast (drop_bit 32 val AND 3), ms_sd := ucast (drop_bit 63 val AND 1)\<rparr>"

text \<open>\<^verbatim>\<open>mtvec_t\<close>, \<^verbatim>\<open>stvec_t\<close> and \<^verbatim>\<open>utvec_t\<close> have the same members.\<close>

record tvec_t =
  tv_mode :: u8
  tv_base :: u64

definition tvec_init :: tvec_t where "tvec_init = \<lparr>tv_mode = 0, tv_base = 0\<rparr>"

definition mtvec_read_reg :: "tvec_t \<Rightarrow> u64" where
  "mtvec_read_reg t = scast (ucast (tv_mode t) AND 3 :: u32) + (tv_base t AND (0xFFFFFFFFFFFFFFFF - 3))"

definition mtvec_write_reg :: "u64 \<Rightarrow> tvec_t \<Rightarrow> tvec_t" where
  "mtvec_write_reg val t =
     t\<lparr>tv_mode := ucast (val AND 3), tv_base := val AND (0xFFFFFFFFFFFFFFFF - 3)\<rparr>"

definition stvec_read_reg :: "tvec_t \<Rightarrow> u64" where
  "stvec_read_reg t = scast (ucast (tv_mode t) AND 3 :: u32) + (tv_base t AND (0xFFFFFFFFFFFFFFFF - 3))"

definition stvec_write_reg :: "u64 \<Rightarrow> tvec_t \<Rightarrow> tvec_t" where
  "stvec_write_reg val t =
     t\<lparr>tv_mode := ucast (val AND 3), tv_base := val AND (0xFFFFFFFFFFFFFFFF - 3)\<rparr>"

definition utvec_read_reg :: "tvec_t \<Rightarrow> u64" where
  "utvec_read_reg t = scast (ucast (tv_mode t) AND 3 :: u32) + (tv_base t AND (0xFFFFFFFFFFFFFFFF - 3))"

definition utvec_write_reg :: "u64 \<Rightarrow> tvec_t \<Rightarrow> tvec_t" where
  "utvec_write_reg val t =
     t\<lparr>tv_mode := ucast (val AND 3), tv_base := val AND (0xFFFFFFFFFFFFFFFF - 3)\<rparr>"

text \<open>\<^verbatim>\<open>mcause_t\<close>, \<^verbatim>\<open>scause_t\<close> and \<^verbatim>\<open>ucause_t\<close> have the same members.\<close>

record cause_t =
  ca_interrupt :: u8
  ca_ecode :: u64

definition cause_init :: cause_t where "cause_init = \<lparr>ca_interrupt = 0, ca_ecode = 0\<rparr>"

definition mcause_read_reg :: "cause_t \<Rightarrow> u64" where
  "mcause_read_reg c = ((push_bit 63 1 - 1) AND ca_ecode c) + push_bit 63 (ucast (ca_interrupt c))"

definition mcause_write_reg :: "u64 \<Rightarrow> cause_t \<Rightarrow> cause_t" where
  "mcause_write_reg val c =
     c\<lparr>ca_ecode := val AND (push_bit 63 1 - 1), ca_interrupt := ucast (drop_bit 63 val AND 1)\<rparr>"

definition scause_read_reg :: "cause_t \<Rightarrow> u64" where
  "scause_read_reg c = ((push_bit 63 1 - 1) AND ca_ecode c) + push_bit 63 (ucast (ca_interrupt c))"

definition scause_write_reg :: "u64 \<Rightarrow> cause_t \<Rightarrow> cause_t" where
  "scause_write_reg val c =
     c\<lparr>ca_ecode := val AND (push_bit 63 1 - 1), ca_interrupt := ucast (drop_bit 63 val AND 1)\<rparr>"

definition ucause_read_reg :: "cause_t \<Rightarrow> u64" where
  "ucause_read_reg c = ((push_bit 63 1 - 1) AND ca_ecode c) + push_bit 63 (ucast (ca_interrupt c))"

definition ucause_write_reg :: "u64 \<Rightarrow> cause_t \<Rightarrow> cause_t" where
  "ucause_write_reg val c =
     c\<lparr>ca_ecode := val AND (push_bit 63 1 - 1), ca_interrupt := ucast (drop_bit 63 val AND 1)\<rparr>"

record satp_t =
  sa_PPN :: u64
  sa_ASID :: u16
  sa_MODE :: u8

definition satp_init :: satp_t where "satp_init = \<lparr>sa_PPN = 0, sa_ASID = 0, sa_MODE = 0\<rparr>"

definition satp_read_reg :: "satp_t \<Rightarrow> u64" where
  "satp_read_reg s =
     push_bit 60 (ucast (sa_MODE s AND 0xF)) + push_bit 44 (ucast (sa_ASID s)) +
     (sa_PPN s AND 0xFFFFFFFFFFF)"

definition satp_write_reg :: "u64 \<Rightarrow> satp_t \<Rightarrow> satp_t" where
  "satp_write_reg val s = s\<lparr>
     sa_PPN := val AND 0xFFFFFFFFFFF,
     sa_ASID := ucast (drop_bit 44 val AND 0xFFFF),
     sa_MODE := ucast (drop_bit 60 val AND 0xF)\<rparr>"

record mip_t =
  ip_MEIP :: u8
  ip_SEIP :: u8
  ip_UEIP :: u8
  ip_MTIP :: u8
  ip_STIP :: u8
  ip_UTIP :: u8
  ip_MSIP :: u8
  ip_SSIP :: u8
  ip_USIP :: u8

definition mip_init :: mip_t where
  "mip_init = \<lparr>ip_MEIP = 0, ip_SEIP = 0, ip_UEIP = 0, ip_MTIP = 0, ip_STIP = 0,
     ip_UTIP = 0, ip_MSIP = 0, ip_SSIP = 0, ip_USIP = 0\<rparr>"

definition mip_read_reg :: "mip_t \<Rightarrow> u64" where
  "mip_read_reg p = scast (
     push_bit 11 (ucast (ip_MEIP p AND 1)) + push_bit 9 (ucast (ip_SEIP p AND 1)) + push_bit 8 (ucast (ip_UEIP p AND 1)) +
     push_bit 7 (ucast (ip_MTIP p AND 1)) + push_bit 5 (ucast (ip_STIP p AND 1)) + push_bit 4 (ucast (ip_UTIP p AND 1)) +
     push_bit 3 (ucast (ip_MSIP p AND 1)) + push_bit 1 (ucast (ip_SSIP p AND 1)) + ucast (ip_USIP p AND 1) :: u32)"

definition mip_write_reg :: "u64 \<Rightarrow> mip_t \<Rightarrow> mip_t" where
  "mip_write_reg val p = p\<lparr>
     ip_MEIP := ucast (drop_bit 11 val AND 1), ip_SEIP := ucast (drop_bit 9 val AND 1),
     ip_UEIP := ucast (drop_bit 8 val AND 1), ip_MTIP := ucast (drop_bit 7 val AND 1),
     ip_STIP := ucast (drop_bit 5 val AND 1), ip_UTIP := ucast (drop_bit 4 val AND 1),
     ip_MSIP := ucast (drop_bit 3 val AND 1), ip_SSIP := ucast (drop_bit 1 val AND 1),
     ip_USIP := ucast (val AND 1)\<rparr>"

record mie_t =
  ie_MEIE :: u8
  ie_SEIE :: u8
  ie_UEIE :: u8
  ie_MTIE :: u8
  ie_STIE :: u8
  ie_UTIE :: u8
  ie_MSIE :: u8
  ie_SSIE :: u8
  ie_USIE :: u8

definition mie_init :: mie_t where
  "mie_init = \<lparr>ie_MEIE = 0, ie_SEIE = 0, ie_UEIE = 0, ie_MTIE = 0, ie_STIE = 0,
     ie_UTIE = 0, ie_MSIE = 0, ie_SSIE = 0, ie_USIE = 0\<rparr>"

definition mie_read_reg :: "mie_t \<Rightarrow> u64" where
  "mie_read_reg p = scast (
     push_bit 11 (ucast (ie_MEIE p AND 1)) + push_bit 9 (ucast (ie_SEIE p AND 1)) + push_bit 8 (ucast (ie_UEIE p AND 1)) +
     push_bit 7 (ucast (ie_MTIE p AND 1)) + push_bit 5 (ucast (ie_STIE p AND 1)) + push_bit 4 (ucast (ie_UTIE p AND 1)) +
     push_bit 3 (ucast (ie_MSIE p AND 1)) + push_bit 1 (ucast (ie_SSIE p AND 1)) + ucast (ie_USIE p AND 1) :: u32)"

definition mie_write_reg :: "u64 \<Rightarrow> mie_t \<Rightarrow> mie_t" where
  "mie_write_reg val p = p\<lparr>
     ie_MEIE := ucast (drop_bit 11 val AND 1), ie_SEIE := ucast (drop_bit 9 val AND 1),
     ie_UEIE := ucast (drop_bit 8 val AND 1), ie_MTIE := ucast (drop_bit 7 val AND 1),
     ie_STIE := ucast (drop_bit 5 val AND 1), ie_UTIE := ucast (drop_bit 4 val AND 1),
     ie_MSIE := ucast (drop_bit 3 val AND 1), ie_SSIE := ucast (drop_bit 1 val AND 1),
     ie_USIE := ucast (val AND 1)\<rparr>"

section \<open>What a register promises\<close>

text \<open>
  \<open>msk\<close> is the set of bits the register implements; \<open>ok\<close> says that every field holds a value
  of its width, which every write keeps.
\<close>

locale csr_reg =
  fixes rd :: "'s \<Rightarrow> u64"
    and wr :: "u64 \<Rightarrow> 's \<Rightarrow> 's"
    and ok :: "'s \<Rightarrow> bool"
    and msk :: u64
  assumes rd_wr: "rd (wr v s) = v AND msk"
    and wr_masked: "wr (v AND msk) s = wr v s"
    and wr_wr: "wr v (wr u s) = wr v s"
    and ok_wr: "ok s \<Longrightarrow> ok (wr v s)"
    and wr_rd: "ok s \<Longrightarrow> wr (rd s) s = s"
begin

lemma rd_masked: "ok s \<Longrightarrow> rd s AND msk = rd s"
  using rd_wr [of "rd s" s] by (simp add: wr_rd)

lemma wr_eq_iff: "wr u s = wr v s \<longleftrightarrow> u AND msk = v AND msk"
  by (metis rd_wr wr_masked)

text \<open>Setting and clearing bits, as \<^verbatim>\<open>CSRRS\<close> and \<^verbatim>\<open>CSRRC\<close> do.\<close>

lemma rd_set_bits: "ok s \<Longrightarrow> rd (wr (rd s OR x) s) = rd s OR (x AND msk)"
  using rd_masked [of s] by (simp add: rd_wr bit.conj_disj_distrib2)

lemma rd_clear_bits: "ok s \<Longrightarrow> rd (wr (rd s AND NOT x) s) = rd s AND NOT x"
  using rd_masked [of s] by (metis rd_wr and.assoc and.commute)

lemma set_no_bits: "ok s \<Longrightarrow> wr (rd s OR 0) s = s"
  by (simp add: wr_rd)

end

section \<open>Registers as disjoint bit fields\<close>

lemma c_shl_field:
  assumes "l \<le> 8" "k + l \<le> 31"
  shows "c_shl (ucast (drop_bit k v AND mask l)) k = v AND push_bit k (mask l)"
proof (rule bit_word_eqI)
  fix n assume "n < LENGTH(64)"
  then show "bit (c_shl (ucast (drop_bit k v AND mask l)) k) n = bit (v AND push_bit k (mask l)) n"
    using assms
    by (cases "n < 31") (auto simp: c_shl_def bit_simps min_def dest: bit_imp_le_length)
qed

lemma push_field:
  fixes v :: u64
  assumes "l \<le> 8" "k + l \<le> 64"
  shows "push_bit k (ucast (ucast (drop_bit k v AND mask l) :: u8)) = v AND push_bit k (mask l)"
  using assms by (auto simp: bit_simps intro!: bit_word_eqI dest: bit_imp_le_length)

lemma fields_1 [reg_simps]:
  "ucast (ucast (v AND 1) :: u8) = v AND 1"
  "c_shl (ucast (drop_bit (Suc 0) v AND 1)) (Suc 0) = v AND 0x2"
  "c_shl (ucast (drop_bit 3 v AND 1)) 3 = v AND 0x8"
  "c_shl (ucast (drop_bit 4 v AND 1)) 4 = v AND 0x10"
  "c_shl (ucast (drop_bit 5 v AND 1)) 5 = v AND 0x20"
  "c_shl (ucast (drop_bit 7 v AND 1)) 7 = v AND 0x80"
  "c_shl (ucast (drop_bit 8 v AND 1)) 8 = v AND 0x100"
  "c_shl (ucast (drop_bit 17 v AND 1)) 17 = v AND 0x20000"
  "c_shl (ucast (drop_bit 18 v AND 1)) 18 = v AND 0x40000"
  "c_shl (ucast (drop_bit 19 v AND 1)) 19 = v AND 0x80000"
  "c_shl (ucast (drop_bit 20 v AND 1)) 20 = v AND 0x100000"
  "c_shl (ucast (drop_bit 21 v AND 1)) 21 = v AND 0x200000"
  "c_shl (ucast (drop_bit 22 v AND 1)) 22 = v AND 0x400000"
  "push_bit 63 (ucast (ucast (drop_bit 63 v AND 1) :: u8)) = v AND 0x8000000000000000"
  for v :: u64
  using push_field [of 1 0 v] c_shl_field [of 1 _ v] push_field [of 1 63 v]
  by (simp_all add: push_bit_eq_mult del: push_bit_and)

lemma field_63 [reg_simps]: "push_bit 63 (drop_bit 63 v AND 1) = v AND 0x8000000000000000"
  for v :: u64
  using fields_1(14) [of v] by (simp only: fields_1(1))

lemma fields_2 [reg_simps]:
  "c_shl (ucast (drop_bit 11 v AND 3)) 11 = v AND 0x1800"
  "c_shl (ucast (drop_bit 13 v AND 3)) 13 = v AND 0x6000"
  "c_shl (ucast (drop_bit 15 v AND 3)) 15 = v AND 0x18000"
  "push_bit 32 (ucast (ucast (drop_bit 32 v AND 3) :: u8)) = v AND 0x300000000"
  "push_bit 34 (ucast (ucast (drop_bit 34 v AND 3) :: u8)) = v AND 0xC00000000"
  for v :: u64
  using c_shl_field [of 2 _ v] push_field [of 2 32 v] push_field [of 2 34 v]
  by (simp_all add: mask_eq_exp_minus_1 push_bit_eq_mult del: push_bit_and)

lemma and_plus_and [reg_simps]:
  "(v AND a) + (v AND b) = v AND (a OR b)" if "a AND b = 0" for v a b :: "'a::len word"
proof -
  have "(v AND a) AND (v AND b) = 0"
    by (metis that and.assoc and.left_commute and_zero_eq)
  then show ?thesis by (simp add: plus_eq_or bit.conj_disj_distrib)
qed


text \<open>Extracting a field again: the bits of the image.\<close>

lemma extract_1 [field_ext_simps]:
  "ucast (drop_bit k v AND 1) = of_bool (bit v k)" "ucast (v AND 1) = of_bool (bit v 0)"
  for v :: u64
  by (simp_all add: and_one_eq bit_iff_odd_drop_bit mod_2_eq_odd)

lemma extract_2 [field_ext_simps]:
  "(ucast (drop_bit k v AND 3) :: u8) =
     of_bool (bit v k) OR push_bit 1 (of_bool (bit v (Suc k)))" for v :: u64
proof -
  have "(3 :: u64) = mask 2" by (simp add: mask_eq_exp_minus_1)
  show ?thesis
    unfolding \<open>3 = mask 2\<close>
    by (rule bit_word_eqI) (auto simp: bit_simps less_2_cases_iff)
qed

lemma bit_of_u8_le_1: "f \<le> 1 \<Longrightarrow> of_bool (bit f 0) = (f :: u8)"
proof -
  assume "f \<le> 1"
  then have "f = 0 \<or> f = 1" by (metis le_less unsigned_word_eqI word_less_1)
  then show ?thesis by auto
qed

lemma bits_of_u8_le_3:
  assumes "f \<le> 3"
  shows "of_bool (bit f 0) OR push_bit 1 (of_bool (bit f 1)) = (f :: u8)"
proof -
  have "unat f \<le> 3" using assms by (simp add: word_le_nat_alt)
  then have "unat f \<in> {0, 1, 2, 3}" by auto
  then have "f \<in> {0, 1, 2, 3}" by (auto simp: word_unat_eq_iff)
  then show ?thesis by (elim insertE emptyE) simp_all
qed

lemma of_bool_le_1 [field_ext_simps]: "(of_bool b :: u8) \<le> 1"
  by simp

lemma of_bools_le_3 [field_ext_simps]: "(of_bool b OR push_bit 1 (of_bool c) :: u8) \<le> 3"
  by (cases b; cases c) simp_all

section \<open>The status registers keep their promise\<close>

definition mstatus_ok :: "mstatus_t \<Rightarrow> bool" where
  "mstatus_ok m \<longleftrightarrow>
     ms_uie m \<le> 1 \<and> ms_sie m \<le> 1 \<and> ms_mie m \<le> 1 \<and> ms_upie m \<le> 1 \<and> ms_spie m \<le> 1 \<and>
     ms_mpie m \<le> 1 \<and> ms_spp m \<le> 1 \<and> ms_mpp m \<le> 3 \<and> ms_fs m \<le> 3 \<and> ms_xs m \<le> 3 \<and>
     ms_mprv m \<le> 1 \<and> ms_sum m \<le> 1 \<and> ms_mxr m \<le> 1 \<and> ms_tvm m \<le> 1 \<and> ms_tw m \<le> 1 \<and>
     ms_tsr m \<le> 1 \<and> ms_uxl m \<le> 3 \<and> ms_sxl m \<le> 3 \<and> ms_sd m \<le> 1"

definition mstatus_image :: "mstatus_t \<Rightarrow> u64" where
  "mstatus_image m =
     (of_bool (bit (ms_uie m) 0) OR push_bit 1 (of_bool (bit (ms_sie m) 0)) OR push_bit 3 (of_bool (bit (ms_mie m) 0)) OR
      push_bit 4 (of_bool (bit (ms_upie m) 0)) OR push_bit 5 (of_bool (bit (ms_spie m) 0)) OR push_bit 7 (of_bool (bit (ms_mpie m) 0)) OR
      push_bit 8 (of_bool (bit (ms_spp m) 0)) OR push_bit 11 (of_bool (bit (ms_mpp m) 0)) OR push_bit 12 (of_bool (bit (ms_mpp m) 1)) OR
      push_bit 13 (of_bool (bit (ms_fs m) 0)) OR push_bit 14 (of_bool (bit (ms_fs m) 1)) OR push_bit 15 (of_bool (bit (ms_xs m) 0)) OR
      push_bit 16 (of_bool (bit (ms_xs m) 1)) OR push_bit 17 (of_bool (bit (ms_mprv m) 0)) OR push_bit 18 (of_bool (bit (ms_sum m) 0)) OR
      push_bit 19 (of_bool (bit (ms_mxr m) 0)) OR push_bit 20 (of_bool (bit (ms_tvm m) 0)) OR push_bit 21 (of_bool (bit (ms_tw m) 0)) OR
      push_bit 22 (of_bool (bit (ms_tsr m) 0)) OR push_bit 32 (of_bool (bit (ms_uxl m) 0)) OR push_bit 33 (of_bool (bit (ms_uxl m) 1)) OR
      push_bit 34 (of_bool (bit (ms_sxl m) 0)) OR push_bit 35 (of_bool (bit (ms_sxl m) 1)) OR push_bit 63 (of_bool (bit (ms_sd m) 0)))"

lemma bit_word_push_bit_iff:
  "bit (push_bit k a) n \<longleftrightarrow> k \<le> n \<and> n < LENGTH('a) \<and> bit a (n - k)" for a :: "'a::len word"
  by (auto simp: bit_simps)

lemma bit_mstatus_image [field_ext_simps]:
  "bit (mstatus_image m) 0 = bit (ms_uie m) 0"
  "bit (mstatus_image m) 1 = bit (ms_sie m) 0"
  "bit (mstatus_image m) 3 = bit (ms_mie m) 0"
  "bit (mstatus_image m) 4 = bit (ms_upie m) 0"
  "bit (mstatus_image m) 5 = bit (ms_spie m) 0"
  "bit (mstatus_image m) 7 = bit (ms_mpie m) 0"
  "bit (mstatus_image m) 8 = bit (ms_spp m) 0"
  "bit (mstatus_image m) 11 = bit (ms_mpp m) 0"
  "bit (mstatus_image m) 12 = bit (ms_mpp m) 1"
  "bit (mstatus_image m) 13 = bit (ms_fs m) 0"
  "bit (mstatus_image m) 14 = bit (ms_fs m) 1"
  "bit (mstatus_image m) 15 = bit (ms_xs m) 0"
  "bit (mstatus_image m) 16 = bit (ms_xs m) 1"
  "bit (mstatus_image m) 17 = bit (ms_mprv m) 0"
  "bit (mstatus_image m) 18 = bit (ms_sum m) 0"
  "bit (mstatus_image m) 19 = bit (ms_mxr m) 0"
  "bit (mstatus_image m) 20 = bit (ms_tvm m) 0"
  "bit (mstatus_image m) 21 = bit (ms_tw m) 0"
  "bit (mstatus_image m) 22 = bit (ms_tsr m) 0"
  "bit (mstatus_image m) 32 = bit (ms_uxl m) 0"
  "bit (mstatus_image m) 33 = bit (ms_uxl m) 1"
  "bit (mstatus_image m) 34 = bit (ms_sxl m) 0"
  "bit (mstatus_image m) 35 = bit (ms_sxl m) 1"
  "bit (mstatus_image m) 63 = bit (ms_sd m) 0"
  by (simp_all add: mstatus_image_def bit_or_iff bit_word_push_bit_iff bit_of_bool_iff del: One_nat_def)

lemma mstatus_write_image: "mstatus_ok m \<Longrightarrow> mstatus_write_reg (mstatus_image m) m = m"
  by (rule mstatus_t.equality)
    (simp_all add: mstatus_write_reg_def mstatus_ok_def field_ext_simps bit_drop_bit_eq bit_of_u8_le_1
      bits_of_u8_le_3 del: One_nat_def)

lemma mstatus_rd_wr: "mstatus_read_reg (mstatus_write_reg v m) = v AND 0x8000000F007FF9BB"
  by (simp add: mstatus_read_reg_def mstatus_write_reg_def reg_simps del: push_bit_and)

lemma sstatus_rd_wr: "sstatus_read_reg (sstatus_write_reg v m) = v AND 0x80000003000DE133"
  by (simp add: sstatus_read_reg_def sstatus_write_reg_def reg_simps del: push_bit_and)

lemma mstatus_wr_masked: "mstatus_write_reg (v AND 0x8000000F007FF9BB) m = mstatus_write_reg v m"
  by (simp add: mstatus_write_reg_def and.assoc)


interpretation mstatus: csr_reg mstatus_read_reg mstatus_write_reg mstatus_ok "0x8000000F007FF9BB"
proof
  show rd: "mstatus_read_reg (mstatus_write_reg v s) = v AND 0x8000000F007FF9BB" for v s
    by (rule mstatus_rd_wr)
  show msk: "mstatus_write_reg (v AND 0x8000000F007FF9BB) s = mstatus_write_reg v s" for v s
    by (rule mstatus_wr_masked)
  show "mstatus_write_reg v (mstatus_write_reg u s) = mstatus_write_reg v s" for u v s
    by (simp add: mstatus_write_reg_def)
  show "mstatus_ok (mstatus_write_reg v s)" for v s
    by (simp add: mstatus_ok_def mstatus_write_reg_def field_ext_simps)
  show "mstatus_write_reg (mstatus_read_reg s) s = s" if "mstatus_ok s" for s
    using rd [of "mstatus_image s" s] msk [of "mstatus_image s" s] mstatus_write_image [OF that]
    by simp
qed

lemma sstatus_wr_masked: "sstatus_write_reg (v AND 0x80000003000DE133) m = sstatus_write_reg v m"
  by (simp add: sstatus_write_reg_def and.assoc)

lemma sstatus_write_image: "mstatus_ok m \<Longrightarrow> sstatus_write_reg (mstatus_image m) m = m"
  by (rule mstatus_t.equality)
    (simp_all add: sstatus_write_reg_def mstatus_ok_def field_ext_simps bit_drop_bit_eq
      bit_of_u8_le_1 bits_of_u8_le_3 del: One_nat_def)

interpretation sstatus: csr_reg sstatus_read_reg sstatus_write_reg mstatus_ok "0x80000003000DE133"
proof
  show rd: "sstatus_read_reg (sstatus_write_reg v s) = v AND 0x80000003000DE133" for v s
    by (rule sstatus_rd_wr)
  show msk: "sstatus_write_reg (v AND 0x80000003000DE133) s = sstatus_write_reg v s" for v s
    by (rule sstatus_wr_masked)
  show "sstatus_write_reg v (sstatus_write_reg u s) = sstatus_write_reg v s" for u v s
    by (simp add: sstatus_write_reg_def)
  show "mstatus_ok (sstatus_write_reg v s)" if "mstatus_ok s" for v s
    using that by (simp add: mstatus_ok_def sstatus_write_reg_def field_ext_simps)
  show "sstatus_write_reg (sstatus_read_reg s) s = s" if "mstatus_ok s" for s
    using rd [of "mstatus_image s" s] msk [of "mstatus_image s" s] sstatus_write_image [OF that]
    by simp
qed

text \<open>The two narrower views read the same bits as \<^verbatim>\<open>mstatus\<close>.\<close>

lemma sstatus_read_write: "sstatus_read_reg (mstatus_write_reg v m) = v AND 0x80000003000DE133"
  by (simp add: sstatus_read_reg_def mstatus_write_reg_def reg_simps del: push_bit_and)

lemma ustatus_read_write: "ustatus_read_reg (mstatus_write_reg v m) = v AND 0x80000003000DE011"
  by (simp add: ustatus_read_reg_def mstatus_write_reg_def reg_simps del: push_bit_and)

lemma status_views:
  assumes "mstatus_ok m"
  shows "sstatus_read_reg m = mstatus_read_reg m AND 0x80000003000DE133"
    and "ustatus_read_reg m = mstatus_read_reg m AND 0x80000003000DE011"
  using sstatus_read_write [of "mstatus_read_reg m" m] ustatus_read_write [of "mstatus_read_reg m" m]
  by (simp_all add: mstatus.wr_rd assms)

text \<open>A write through the supervisor view changes no machine-only field.\<close>

lemma sstatus_write_frame:
  "ms_mie (sstatus_write_reg v m) = ms_mie m" "ms_mpie (sstatus_write_reg v m) = ms_mpie m"
  "ms_mpp (sstatus_write_reg v m) = ms_mpp m" "ms_mprv (sstatus_write_reg v m) = ms_mprv m"
  "ms_tvm (sstatus_write_reg v m) = ms_tvm m" "ms_tw (sstatus_write_reg v m) = ms_tw m"
  "ms_tsr (sstatus_write_reg v m) = ms_tsr m" "ms_sxl (sstatus_write_reg v m) = ms_sxl m"
  by (simp_all add: sstatus_write_reg_def)

text \<open>What it does change: the bits of its mask.\<close>

lemma sstatus_write_as_mstatus:
  assumes "\<And>k. bit x k = (if bit (0x80000003000DE133 :: u64) k then bit v k else bit r k)"
  shows "sstatus_write_reg v (mstatus_write_reg r m) = mstatus_write_reg x m"
  by (rule mstatus_t.equality;
      simp only: sstatus_write_reg_def mstatus_write_reg_def mstatus_t.simps extract_1 extract_2 assms;
      simp add: bit_drop_bit_eq assms)

lemma bits_of_merge: "bit ((r AND NOT S) OR (v AND S)) k = (if bit S k then bit v k else bit r k)"
  for r v S :: u64
  by (auto simp: bit_simps dest: bit_imp_le_length)

lemma mstatus_ok_ustatus_write: "mstatus_ok m \<Longrightarrow> mstatus_ok (ustatus_write_reg v m)"
  by (simp add: mstatus_ok_def ustatus_write_reg_def field_ext_simps)

section \<open>Trap vectors, causes and address translation control\<close>

definition tvec_ok :: "tvec_t \<Rightarrow> bool" where
  "tvec_ok t \<longleftrightarrow> tv_mode t \<le> 3 \<and> tv_base t AND 3 = 0"

definition cause_ok :: "cause_t \<Rightarrow> bool" where
  "cause_ok c \<longleftrightarrow> ca_interrupt c \<le> 1 \<and> \<not> bit (ca_ecode c) 63"

definition satp_ok :: "satp_t \<Rightarrow> bool" where
  "satp_ok s \<longleftrightarrow> sa_PPN s AND NOT 0xFFFFFFFFFFF = 0 \<and> sa_MODE s \<le> 0xF"

lemma three_mask: "(3 :: 'a::len word) = mask 2"
  by (simp add: mask_eq_exp_minus_1)

lemma tvec_word:
  "scast (ucast (ucast (v AND 3) :: u8) AND 3 :: u32) + (v AND NOT 3) = v" for v :: u64
proof -
  have "scast (ucast (ucast (v AND 3) :: u8) AND 3 :: u32) = v AND (3 :: u64)"
    unfolding three_mask by (rule bit_word_eqI) (auto simp: bit_simps)
  moreover have "(v AND 3) + (v AND NOT 3) = v AND (3 OR NOT 3)"
    by (rule and_plus_and) simp
  ultimately show ?thesis by simp
qed

lemma unat_less_bits:
  fixes f :: "'a::len word"
  assumes "unat f < 2 ^ n" "bit f k"
  shows "k < n"
proof -
  have "take_bit n (unat f) = unat f" using assms(1) by (rule take_bit_nat_eq_self)
  moreover have "bit (unat f) k" using assms(2) by (simp add: bit_simps)
  ultimately have "bit (take_bit n (unat f)) k" by simp
  then show ?thesis by (simp add: bit_take_bit_iff)
qed

lemma and_mask_0_bits: "f AND mask n = 0 \<Longrightarrow> bit f k \<Longrightarrow> n \<le> k" for f :: "'a::len word"
  by (metis take_bit_eq_mask bit_take_bit_iff bit_0_eq bot_apply bot_bool_def not_less)

lemma tvec_parts:
  assumes "tvec_ok t"
  shows "scast (ucast (tv_mode t) AND 3 :: u32) + (tv_base t AND NOT 3) =
      (ucast (tv_mode t) OR tv_base t :: u64)"
    and "ucast ((ucast (tv_mode t) OR tv_base t :: u64) AND 3) = tv_mode t"
    and "(ucast (tv_mode t) OR tv_base t) AND NOT 3 = tv_base t"
proof -
  have "unat (tv_mode t) < 2 ^ 2"
    using assms by (simp add: tvec_ok_def word_le_nat_alt)
  then have m: "bit (tv_mode t) k \<Longrightarrow> k < 2" and b: "bit (tv_base t) k \<Longrightarrow> 2 \<le> k" for k
    using assms unat_less_bits [of "tv_mode t" 2] and_mask_0_bits [of "tv_base t" 2]
    by (auto simp: tvec_ok_def three_mask)
  show "scast (ucast (tv_mode t) AND 3 :: u32) + (tv_base t AND NOT 3) =
      (ucast (tv_mode t) OR tv_base t :: u64)"
    unfolding three_mask
    by (subst plus_eq_orI)
      (auto simp: bit_simps dest: m b intro!: bit_word_eqI, (use b m in fastforce)+)
  show "ucast ((ucast (tv_mode t) OR tv_base t :: u64) AND 3) = tv_mode t"
    unfolding three_mask
    by (rule bit_word_eqI) (use m b in \<open>fastforce simp: bit_simps\<close>)
  show "(ucast (tv_mode t) OR tv_base t) AND NOT 3 = tv_base t"
    unfolding three_mask
    by (rule bit_word_eqI) (use m b in \<open>fastforce simp: bit_simps dest: bit_imp_le_length\<close>)
qed

lemma and_all_ones: "v AND 0xFFFFFFFFFFFFFFFF = v" for v :: u64
proof -
  have "(0xFFFFFFFFFFFFFFFF :: u64) = - 1" by simp
  then show ?thesis by (simp only: and.right_neutral)
qed

lemma cause_word:
  "((push_bit 63 1 - 1) AND (v AND (push_bit 63 1 - 1))) +
   push_bit 63 (ucast (ucast (drop_bit 63 v AND 1) :: u8)) = v" for v :: u64
proof -
  have "((push_bit 63 1 - 1) AND (v AND (push_bit 63 1 - 1))) = v AND 0x7FFFFFFFFFFFFFFF"
    by (simp add: and.left_commute)
  then show ?thesis by (simp add: reg_simps and_all_ones del: push_bit_and)
qed

lemma satp_word:
  "push_bit 60 (ucast (ucast (drop_bit 60 v AND 0xF) AND 0xF :: u8)) +
   push_bit 44 (ucast (ucast (drop_bit 44 v AND 0xFFFF) :: u16)) +
   (v AND 0xFFFFFFFFFFF AND 0xFFFFFFFFFFF) = v" for v :: u64
proof -
  have "push_bit 60 (ucast (ucast (drop_bit 60 v AND mask 4) AND mask 4 :: u8)) =
      v AND push_bit 60 (mask 4)"
    by (auto simp: bit_simps intro!: bit_word_eqI)
  moreover have "push_bit 44 (ucast (ucast (drop_bit 44 v AND mask 16) :: u16)) =
      v AND push_bit 44 (mask 16)"
    by (auto simp: bit_simps intro!: bit_word_eqI)
  ultimately show ?thesis
    by (simp add: mask_eq_exp_minus_1 and.assoc reg_simps and_all_ones del: push_bit_and)
qed

lemma minus_3: "(0xFFFFFFFFFFFFFFFF - 3 :: u64) = NOT 3"
  by simp

text \<open>All of these registers implement every bit; the three copies of a struct behave alike.\<close>

interpretation mtvec: csr_reg mtvec_read_reg mtvec_write_reg tvec_ok "- 1"
proof
  show "mtvec_read_reg (mtvec_write_reg v s) = v AND - 1" for v s
    unfolding mtvec_read_reg_def mtvec_write_reg_def minus_3
    using tvec_word [of v] by (simp add: and.assoc)
  show "tvec_ok (mtvec_write_reg v s)" for v s
    unfolding mtvec_write_reg_def minus_3 tvec_ok_def
    by (simp add: field_ext_simps and.assoc) (use extract_2 [of 0 v] of_bools_le_3 in simp)
  show "mtvec_write_reg (mtvec_read_reg s) s = s" if "tvec_ok s" for s
    using tvec_parts [OF that]
    unfolding mtvec_read_reg_def mtvec_write_reg_def minus_3 by simp
qed (simp_all add: mtvec_write_reg_def)

interpretation stvec: csr_reg stvec_read_reg stvec_write_reg tvec_ok "- 1"
proof
  show "stvec_read_reg (stvec_write_reg v s) = v AND - 1" for v s
    unfolding stvec_read_reg_def stvec_write_reg_def minus_3
    using tvec_word [of v] by (simp add: and.assoc)
  show "tvec_ok (stvec_write_reg v s)" for v s
    unfolding stvec_write_reg_def minus_3 tvec_ok_def
    by (simp add: field_ext_simps and.assoc) (use extract_2 [of 0 v] of_bools_le_3 in simp)
  show "stvec_write_reg (stvec_read_reg s) s = s" if "tvec_ok s" for s
    using tvec_parts [OF that]
    unfolding stvec_read_reg_def stvec_write_reg_def minus_3 by simp
qed (simp_all add: stvec_write_reg_def)

interpretation utvec: csr_reg utvec_read_reg utvec_write_reg tvec_ok "- 1"
proof
  show "utvec_read_reg (utvec_write_reg v s) = v AND - 1" for v s
    unfolding utvec_read_reg_def utvec_write_reg_def minus_3
    using tvec_word [of v] by (simp add: and.assoc)
  show "tvec_ok (utvec_write_reg v s)" for v s
    unfolding utvec_write_reg_def minus_3 tvec_ok_def
    by (simp add: field_ext_simps and.assoc) (use extract_2 [of 0 v] of_bools_le_3 in simp)
  show "utvec_write_reg (utvec_read_reg s) s = s" if "tvec_ok s" for s
    using tvec_parts [OF that]
    unfolding utvec_read_reg_def utvec_write_reg_def minus_3 by simp
qed (simp_all add: utvec_write_reg_def)

lemma cause_parts:
  assumes "cause_ok c"
  defines "v \<equiv> ca_ecode c OR push_bit 63 (ucast (ca_interrupt c))"
  shows "((push_bit 63 1 - 1) AND ca_ecode c) + push_bit 63 (ucast (ca_interrupt c)) = v"
    and "v AND (push_bit 63 1 - 1) = ca_ecode c"
    and "(ucast (drop_bit 63 v AND 1) :: u8) = ca_interrupt c"
proof -
  have i: "ca_interrupt c = of_bool (bit (ca_interrupt c) 0)" and e: "\<not> bit (ca_ecode c) 63"
    using assms(1) by (simp_all add: cause_ok_def bit_of_u8_le_1)
  have m: "(push_bit 63 1 - 1 :: u64) = mask 63" by (simp add: mask_eq_exp_minus_1)
  have lt: "n < 63" if "bit (ca_ecode c) n" for n
    using bit_imp_le_length [OF that] e that by (cases "n = 63") simp_all
  show "((push_bit 63 1 - 1) AND ca_ecode c) + push_bit 63 (ucast (ca_interrupt c)) = v"
    unfolding m v_def
    by (subst plus_eq_orI) (auto simp: bit_simps dest: lt intro!: bit_word_eqI)
  show "v AND (push_bit 63 1 - 1) = ca_ecode c"
    unfolding m v_def by (rule bit_word_eqI) (auto simp: bit_simps dest: lt)
  have "bit v 63 = bit (ca_interrupt c) 0"
    using e by (simp add: v_def bit_simps)
  with i show "(ucast (drop_bit 63 v AND 1) :: u8) = ca_interrupt c"
    by (simp add: field_ext_simps bit_drop_bit_eq)
qed

interpretation mcause: csr_reg mcause_read_reg mcause_write_reg cause_ok "- 1"
proof
  show "mcause_read_reg (mcause_write_reg v s) = v AND - 1" for v s
    unfolding mcause_read_reg_def mcause_write_reg_def
    using cause_word [of v] by simp
  show "cause_ok (mcause_write_reg v s)" for v s
    by (simp add: mcause_write_reg_def cause_ok_def field_ext_simps bit_simps)
  show "mcause_write_reg (mcause_read_reg s) s = s" if "cause_ok s" for s
    using cause_parts [OF that]
    unfolding mcause_read_reg_def mcause_write_reg_def by simp
qed (simp_all add: mcause_write_reg_def)

interpretation scause: csr_reg scause_read_reg scause_write_reg cause_ok "- 1"
proof
  show "scause_read_reg (scause_write_reg v s) = v AND - 1" for v s
    unfolding scause_read_reg_def scause_write_reg_def
    using cause_word [of v] by simp
  show "cause_ok (scause_write_reg v s)" for v s
    by (simp add: scause_write_reg_def cause_ok_def field_ext_simps bit_simps)
  show "scause_write_reg (scause_read_reg s) s = s" if "cause_ok s" for s
    using cause_parts [OF that]
    unfolding scause_read_reg_def scause_write_reg_def by simp
qed (simp_all add: scause_write_reg_def)

interpretation ucause: csr_reg ucause_read_reg ucause_write_reg cause_ok "- 1"
proof
  show "ucause_read_reg (ucause_write_reg v s) = v AND - 1" for v s
    unfolding ucause_read_reg_def ucause_write_reg_def
    using cause_word [of v] by simp
  show "cause_ok (ucause_write_reg v s)" for v s
    by (simp add: ucause_write_reg_def cause_ok_def field_ext_simps bit_simps)
  show "ucause_write_reg (ucause_read_reg s) s = s" if "cause_ok s" for s
    using cause_parts [OF that]
    unfolding ucause_read_reg_def ucause_write_reg_def by simp
qed (simp_all add: ucause_write_reg_def)

lemma satp_parts:
  assumes "satp_ok s"
  defines "v \<equiv> push_bit 60 (ucast (sa_MODE s)) OR push_bit 44 (ucast (sa_ASID s)) OR sa_PPN s"
  shows "push_bit 60 (ucast (sa_MODE s AND 0xF)) + push_bit 44 (ucast (sa_ASID s)) +
      (sa_PPN s AND 0xFFFFFFFFFFF) = v"
    and "v AND 0xFFFFFFFFFFF = sa_PPN s"
    and "ucast (drop_bit 44 v AND 0xFFFF) = sa_ASID s"
    and "ucast (drop_bit 60 v AND 0xF) = sa_MODE s"
proof -
  have n: "(0xFFFFFFFFFFF :: u64) = mask 44" "(0xFFFF :: u64) = mask 16" "(0xF :: u64) = mask 4"
    "(0xF :: u8) = mask 4" by (simp_all add: mask_eq_exp_minus_1)
  have "unat (sa_MODE s) < 2 ^ 4" using assms(1) by (simp add: satp_ok_def word_le_nat_alt)
  then have md: "k < 4" if "bit (sa_MODE s) k" for k using that by (rule unat_less_bits)
  have pp: "k < 44" if "bit (sa_PPN s) k" for k
  proof (rule ccontr)
    assume "\<not> k < 44"
    with that have "bit (sa_PPN s AND NOT (mask 44)) k"
      by (auto simp: bit_simps dest: bit_imp_le_length)
    then show False using assms(1) by (simp add: satp_ok_def flip: n)
  qed
  have "push_bit 60 (ucast (sa_MODE s AND mask 4)) + push_bit 44 (ucast (sa_ASID s)) =
      push_bit 60 (ucast (sa_MODE s)) OR (push_bit 44 (ucast (sa_ASID s)) :: u64)"
    by (subst plus_eq_orI)
      (auto simp: bit_simps dest: md bit_imp_le_length intro!: bit_word_eqI)
  moreover have "(push_bit 60 (ucast (sa_MODE s)) OR push_bit 44 (ucast (sa_ASID s))) +
      (sa_PPN s AND mask 44) = v"
    unfolding v_def
    by (subst plus_eq_orI) (auto simp: bit_simps dest: pp intro!: bit_word_eqI)
  ultimately show "push_bit 60 (ucast (sa_MODE s AND 0xF)) + push_bit 44 (ucast (sa_ASID s)) +
      (sa_PPN s AND 0xFFFFFFFFFFF) = v"
    unfolding n by simp
  show "v AND 0xFFFFFFFFFFF = sa_PPN s"
    unfolding n v_def by (rule bit_word_eqI) (auto simp: bit_simps dest: pp)
  show "ucast (drop_bit 44 v AND 0xFFFF) = sa_ASID s"
    unfolding n v_def
    by (rule bit_word_eqI) (auto simp: bit_simps dest: pp)
  show "ucast (drop_bit 60 v AND 0xF) = sa_MODE s"
    unfolding n v_def
    by (rule bit_word_eqI) (auto simp: bit_simps dest: pp md bit_imp_le_length)
qed

interpretation satp: csr_reg satp_read_reg satp_write_reg satp_ok "- 1"
proof
  show "satp_read_reg (satp_write_reg v s) = v AND - 1" for v s
    unfolding satp_read_reg_def satp_write_reg_def
    using satp_word [of v] by simp
  show "satp_ok (satp_write_reg v s)" for v s
  proof -
    have "(ucast (drop_bit 60 v AND 0xF) :: u8) \<le> 0xF"
    proof -
      have "(ucast (drop_bit 60 v AND mask 4) :: u8) = ucast (drop_bit 60 v) AND mask 4"
        by (auto simp: bit_simps intro!: bit_word_eqI)
      then show ?thesis by (simp add: mask_eq_exp_minus_1 word_and_le1)
    qed
    then show ?thesis by (simp add: satp_write_reg_def satp_ok_def and.assoc)
  qed
  show "satp_write_reg (satp_read_reg s) s = s" if "satp_ok s" for s
    using satp_parts [OF that]
    unfolding satp_read_reg_def satp_write_reg_def by simp
qed (simp_all add: satp_write_reg_def)

section \<open>Interrupt pending and enable registers\<close>

lemma mi_field:
  fixes v :: u64
  assumes "k < 31"
  shows "push_bit k (ucast (drop_bit k v) AND 1) = (ucast v AND push_bit k 1 :: u32)"
  using assms by (auto simp: bit_simps intro!: bit_word_eqI)

lemma mi_fields [reg_simps]:
  "push_bit 11 (ucast (drop_bit 11 v) AND 1) = (ucast v AND 0x800 :: u32)"
  "push_bit 9 (ucast (drop_bit 9 v) AND 1) = (ucast v AND 0x200 :: u32)"
  "push_bit 8 (ucast (drop_bit 8 v) AND 1) = (ucast v AND 0x100 :: u32)"
  "push_bit 7 (ucast (drop_bit 7 v) AND 1) = (ucast v AND 0x80 :: u32)"
  "push_bit 5 (ucast (drop_bit 5 v) AND 1) = (ucast v AND 0x20 :: u32)"
  "push_bit 4 (ucast (drop_bit 4 v) AND 1) = (ucast v AND 0x10 :: u32)"
  "push_bit 3 (ucast (drop_bit 3 v) AND 1) = (ucast v AND 0x8 :: u32)"
  "(ucast (drop_bit (Suc 0) v) AND 1) * 2 = (ucast v AND 2 :: u32)"
  for v :: u64
  using mi_field [of 11 v] mi_field [of 9 v] mi_field [of 8 v] mi_field [of 7 v] mi_field [of 5 v] mi_field [of 4 v] mi_field [of 3 v]
    mi_field [of 1 v]
  by (simp_all add: push_bit_eq_mult del: push_bit_and)

lemma mi_low [reg_simps]: "ucast (ucast (v AND 1) AND 1 :: u8) = (ucast v AND 1 :: u32)"
  for v :: u64
  by (auto simp: bit_simps intro!: bit_word_eqI)

lemma mi_word: "scast (ucast v AND 0xBBB :: u32) = v AND 0xBBB" for v :: u64
proof -
  have "ucast v AND 0xBBB = (ucast ((v AND 0xBBB) AND mask 12) :: u32)"
    by (simp add: mask_eq_exp_minus_1 and.assoc unsigned_and_eq)
  moreover have "scast (ucast (w AND mask 12) :: u32) = w AND mask 12" for w :: u64
    by (auto simp: bit_simps min_def split: if_splits intro!: bit_word_eqI)
  ultimately have "scast (ucast v AND 0xBBB :: u32) = (v AND 0xBBB) AND mask 12" by simp
  then show ?thesis by (simp add: mask_eq_exp_minus_1 and.assoc)
qed

definition mip_ok :: "mip_t \<Rightarrow> bool" where
  "mip_ok p \<longleftrightarrow>
     ip_MEIP p \<le> 1 \<and> ip_SEIP p \<le> 1 \<and> ip_UEIP p \<le> 1 \<and> ip_MTIP p \<le> 1 \<and> ip_STIP p \<le> 1 \<and>
     ip_UTIP p \<le> 1 \<and> ip_MSIP p \<le> 1 \<and> ip_SSIP p \<le> 1 \<and> ip_USIP p \<le> 1"

definition mip_image :: "mip_t \<Rightarrow> u64" where
  "mip_image p =
     (push_bit 11 (of_bool (bit (ip_MEIP p) 0)) OR push_bit 9 (of_bool (bit (ip_SEIP p) 0)) OR push_bit 8 (of_bool (bit (ip_UEIP p) 0)) OR
      push_bit 7 (of_bool (bit (ip_MTIP p) 0)) OR push_bit 5 (of_bool (bit (ip_STIP p) 0)) OR push_bit 4 (of_bool (bit (ip_UTIP p) 0)) OR
      push_bit 3 (of_bool (bit (ip_MSIP p) 0)) OR push_bit 1 (of_bool (bit (ip_SSIP p) 0)) OR of_bool (bit (ip_USIP p) 0))"

lemma bit_mip_image [field_ext_simps]:
  "bit (mip_image p) 11 = bit (ip_MEIP p) 0"
  "bit (mip_image p) 9 = bit (ip_SEIP p) 0"
  "bit (mip_image p) 8 = bit (ip_UEIP p) 0"
  "bit (mip_image p) 7 = bit (ip_MTIP p) 0"
  "bit (mip_image p) 5 = bit (ip_STIP p) 0"
  "bit (mip_image p) 4 = bit (ip_UTIP p) 0"
  "bit (mip_image p) 3 = bit (ip_MSIP p) 0"
  "bit (mip_image p) 1 = bit (ip_SSIP p) 0"
  "bit (mip_image p) 0 = bit (ip_USIP p) 0"
  by (simp_all add: mip_image_def bit_or_iff bit_word_push_bit_iff bit_of_bool_iff del: One_nat_def)

interpretation mip: csr_reg mip_read_reg mip_write_reg mip_ok "0xBBB"
proof
  show rd: "mip_read_reg (mip_write_reg v s) = v AND 0xBBB" for v s
    by (simp add: mip_read_reg_def mip_write_reg_def reg_simps mi_word del: push_bit_and)
  show msk: "mip_write_reg (v AND 0xBBB) s = mip_write_reg v s" for v s
    by (simp add: mip_write_reg_def and.assoc)
  show "mip_write_reg v (mip_write_reg u s) = mip_write_reg v s" for u v s
    by (simp add: mip_write_reg_def)
  show "mip_ok (mip_write_reg v s)" for v s
    by (simp add: mip_ok_def mip_write_reg_def field_ext_simps)
  show "mip_write_reg (mip_read_reg s) s = s" if "mip_ok s" for s
  proof -
    have "mip_write_reg (mip_image s) s = s"
      using that
      by (intro mip_t.equality)
        (simp_all add: mip_write_reg_def mip_ok_def field_ext_simps bit_drop_bit_eq
          bit_of_u8_le_1 del: One_nat_def)
    then show ?thesis using rd [of "mip_image s" s] msk [of "mip_image s" s] by simp
  qed
qed

definition mie_ok :: "mie_t \<Rightarrow> bool" where
  "mie_ok p \<longleftrightarrow>
     ie_MEIE p \<le> 1 \<and> ie_SEIE p \<le> 1 \<and> ie_UEIE p \<le> 1 \<and> ie_MTIE p \<le> 1 \<and> ie_STIE p \<le> 1 \<and>
     ie_UTIE p \<le> 1 \<and> ie_MSIE p \<le> 1 \<and> ie_SSIE p \<le> 1 \<and> ie_USIE p \<le> 1"

definition mie_image :: "mie_t \<Rightarrow> u64" where
  "mie_image p =
     (push_bit 11 (of_bool (bit (ie_MEIE p) 0)) OR push_bit 9 (of_bool (bit (ie_SEIE p) 0)) OR push_bit 8 (of_bool (bit (ie_UEIE p) 0)) OR
      push_bit 7 (of_bool (bit (ie_MTIE p) 0)) OR push_bit 5 (of_bool (bit (ie_STIE p) 0)) OR push_bit 4 (of_bool (bit (ie_UTIE p) 0)) OR
      push_bit 3 (of_bool (bit (ie_MSIE p) 0)) OR push_bit 1 (of_bool (bit (ie_SSIE p) 0)) OR of_bool (bit (ie_USIE p) 0))"

lemma bit_mie_image [field_ext_simps]:
  "bit (mie_image p) 11 = bit (ie_MEIE p) 0"
  "bit (mie_image p) 9 = bit (ie_SEIE p) 0"
  "bit (mie_image p) 8 = bit (ie_UEIE p) 0"
  "bit (mie_image p) 7 = bit (ie_MTIE p) 0"
  "bit (mie_image p) 5 = bit (ie_STIE p) 0"
  "bit (mie_image p) 4 = bit (ie_UTIE p) 0"
  "bit (mie_image p) 3 = bit (ie_MSIE p) 0"
  "bit (mie_image p) 1 = bit (ie_SSIE p) 0"
  "bit (mie_image p) 0 = bit (ie_USIE p) 0"
  by (simp_all add: mie_image_def bit_or_iff bit_word_push_bit_iff bit_of_bool_iff del: One_nat_def)

interpretation mie: csr_reg mie_read_reg mie_write_reg mie_ok "0xBBB"
proof
  show rd: "mie_read_reg (mie_write_reg v s) = v AND 0xBBB" for v s
    by (simp add: mie_read_reg_def mie_write_reg_def reg_simps mi_word del: push_bit_and)
  show msk: "mie_write_reg (v AND 0xBBB) s = mie_write_reg v s" for v s
    by (simp add: mie_write_reg_def and.assoc)
  show "mie_write_reg v (mie_write_reg u s) = mie_write_reg v s" for u v s
    by (simp add: mie_write_reg_def)
  show "mie_ok (mie_write_reg v s)" for v s
    by (simp add: mie_ok_def mie_write_reg_def field_ext_simps)
  show "mie_write_reg (mie_read_reg s) s = s" if "mie_ok s" for s
  proof -
    have "mie_write_reg (mie_image s) s = s"
      using that
      by (intro mie_t.equality)
        (simp_all add: mie_write_reg_def mie_ok_def field_ext_simps bit_drop_bit_eq
          bit_of_u8_le_1 del: One_nat_def)
    then show ?thesis using rd [of "mie_image s" s] msk [of "mie_image s" s] by simp
  qed
qed

end
