(* ===== verification/Machine.thy ===== *)
theory Machine
  imports CSR_File
begin

text \<open>
  The global state of the emulator: the privilege levels, the CSR file as one record of the
  globals of \<^verbatim>\<open>csr_file.h\<close>, the fault flags of \<^verbatim>\<open>emu.h\<close>, and the record \<open>emu\<close> of everything that
  lives longer than one iteration of the main loop (globals and the locals of \<^verbatim>\<open>main\<close> that an
  iteration can read before it writes them).
\<close>

section \<open>Privilege levels\<close>

datatype plevel_t = MMODE | HMODE | SMODE | UMODE

primrec plevel_code :: "plevel_t \<Rightarrow> u8" where
  "plevel_code MMODE = 3"
| "plevel_code HMODE = 2"
| "plevel_code SMODE = 1"
| "plevel_code UMODE = 0"

text \<open>
  \<^verbatim>\<open>(plevel_t) v\<close>. The casts of the code are applied to \<^verbatim>\<open>mpp\<close> and \<^verbatim>\<open>spp\<close>, which hold at most two
  bits (\<open>mstatus_ok\<close>), so every value that occurs is an enumerator.
\<close>

definition plevel_of :: "u8 \<Rightarrow> plevel_t" where
  "plevel_of v = (if v = 3 then MMODE else if v = 2 then HMODE else if v = 1 then SMODE else UMODE)"

lemma plevel_of_code [simp]: "plevel_of (plevel_code p) = p"
  by (cases p) (simp_all add: plevel_of_def)

lemma plevel_code_le [simp]: "plevel_code p \<le> 3"
  by (cases p) simp_all

instantiation plevel_t :: linorder
begin

definition less_eq_plevel_t :: "plevel_t \<Rightarrow> plevel_t \<Rightarrow> bool" where
  "less_eq_plevel_t p q \<longleftrightarrow> plevel_code p \<le> plevel_code q"

definition less_plevel_t :: "plevel_t \<Rightarrow> plevel_t \<Rightarrow> bool" where
  "less_plevel_t p q \<longleftrightarrow> plevel_code p < plevel_code q"

instance
proof
  fix p q :: plevel_t
  show "p \<le> q \<Longrightarrow> q \<le> p \<Longrightarrow> p = q"
    by (cases p; cases q) (simp_all add: less_eq_plevel_t_def word_le_nat_alt)
qed (auto simp: less_eq_plevel_t_def less_plevel_t_def)

end

section \<open>CSR addresses\<close>

abbreviation MCAUSE :: u64 where "MCAUSE \<equiv> 0x342"
abbreviation MTVAL :: u64 where "MTVAL \<equiv> 0x343"
abbreviation MSCRATCH :: u64 where "MSCRATCH \<equiv> 0x340"
abbreviation MEPC :: u64 where "MEPC \<equiv> 0x341"
abbreviation MIP :: u64 where "MIP \<equiv> 0x344"
abbreviation SIE :: u64 where "SIE \<equiv> 0x104"
abbreviation UEPC :: u64 where "UEPC \<equiv> 0x041"
abbreviation UTVAL :: u64 where "UTVAL \<equiv> 0x043"
abbreviation UCAUSE :: u64 where "UCAUSE \<equiv> 0x042"
abbreviation SSTATUS :: u64 where "SSTATUS \<equiv> 0x100"
abbreviation SEDELEG :: u64 where "SEDELEG \<equiv> 0x102"
abbreviation SIDELEG :: u64 where "SIDELEG \<equiv> 0x103"
abbreviation PMPCFG1 :: u64 where "PMPCFG1 \<equiv> 0x3A1"
abbreviation PMPCFG0 :: u64 where "PMPCFG0 \<equiv> 0x3A0"
abbreviation PMPCFG3 :: u64 where "PMPCFG3 \<equiv> 0x3A3"
abbreviation PMPCFG2 :: u64 where "PMPCFG2 \<equiv> 0x3A2"
abbreviation SATP :: u64 where "SATP \<equiv> 0x180"
abbreviation STVEC :: u64 where "STVEC \<equiv> 0x105"
abbreviation SCOUNTEREN :: u64 where "SCOUNTEREN \<equiv> 0x106"
abbreviation UTVEC :: u64 where "UTVEC \<equiv> 0x005"
abbreviation USTATUS :: u64 where "USTATUS \<equiv> 0x000"
abbreviation INSTRET :: u64 where "INSTRET \<equiv> 0xC02"
abbreviation CYCLE :: u64 where "CYCLE \<equiv> 0xC00"
abbreviation TIME :: u64 where "TIME \<equiv> 0xC01"
abbreviation MCOUNTEREN :: u64 where "MCOUNTEREN \<equiv> 0x306"
abbreviation MIE :: u64 where "MIE \<equiv> 0x304"
abbreviation MTVEC :: u64 where "MTVEC \<equiv> 0x305"
abbreviation MEDELEG :: u64 where "MEDELEG \<equiv> 0x302"
abbreviation MIDELEG :: u64 where "MIDELEG \<equiv> 0x303"
abbreviation MSTATUS :: u64 where "MSTATUS \<equiv> 0x300"
abbreviation MISA :: u64 where "MISA \<equiv> 0x301"
abbreviation PMPADDR8 :: u64 where "PMPADDR8 \<equiv> 0x3B8"
abbreviation PMPADDR9 :: u64 where "PMPADDR9 \<equiv> 0x3B9"
abbreviation PMPADDR4 :: u64 where "PMPADDR4 \<equiv> 0x3B4"
abbreviation PMPADDR5 :: u64 where "PMPADDR5 \<equiv> 0x3B5"
abbreviation PMPADDR6 :: u64 where "PMPADDR6 \<equiv> 0x3B6"
abbreviation PMPADDR7 :: u64 where "PMPADDR7 \<equiv> 0x3B7"
abbreviation PMPADDR0 :: u64 where "PMPADDR0 \<equiv> 0x3B0"
abbreviation PMPADDR1 :: u64 where "PMPADDR1 \<equiv> 0x3B1"
abbreviation PMPADDR2 :: u64 where "PMPADDR2 \<equiv> 0x3B2"
abbreviation PMPADDR3 :: u64 where "PMPADDR3 \<equiv> 0x3B3"
abbreviation MHARTID :: u64 where "MHARTID \<equiv> 0xF14"
abbreviation MVENDORID :: u64 where "MVENDORID \<equiv> 0xF11"
abbreviation MARCHID :: u64 where "MARCHID \<equiv> 0xF12"
abbreviation MIMPID :: u64 where "MIMPID \<equiv> 0xF13"
abbreviation SSCRATCH :: u64 where "SSCRATCH \<equiv> 0x140"
abbreviation SEPC :: u64 where "SEPC \<equiv> 0x141"
abbreviation SCAUSE :: u64 where "SCAUSE \<equiv> 0x142"
abbreviation STVAL :: u64 where "STVAL \<equiv> 0x143"
abbreviation SIP :: u64 where "SIP \<equiv> 0x144"

section \<open>The CSR file\<close>

record pmp_t =
  pmpaddr8 :: u64
  pmpaddr9 :: u64
  pmpaddr4 :: u64
  pmpaddr5 :: u64
  pmpaddr6 :: u64
  pmpaddr7 :: u64
  pmpaddr0 :: u64
  pmpaddr1 :: u64
  pmpaddr2 :: u64
  pmpaddr3 :: u64
  pmpcfg1 :: u64
  pmpcfg0 :: u64
  pmpcfg3 :: u64
  pmpcfg2 :: u64

record csr_t =
  mstatus :: mstatus_t
  mscratch :: u64
  sscratch :: u64
  medeleg :: u64
  sedeleg :: u64
  mideleg :: u64
  sideleg :: u64
  misa :: u64
  mepc :: u64
  sepc :: u64
  uepc :: u64
  cycle :: u64
  time_csr :: u64
  instret :: u64
  mhartid :: u64
  mvendorid :: u64
  marchid :: u64
  mimpid :: u64
  mtval :: u64
  stval :: u64
  utval :: u64
  mcounteren :: u64
  scounteren :: u64
  mtvec :: tvec_t
  stvec :: tvec_t
  utvec :: tvec_t
  mcause :: cause_t
  scause :: cause_t
  ucause :: cause_t
  satp :: satp_t
  mip :: mip_t
  mie :: mie_t
  pmp :: pmp_t

definition pmp_init :: pmp_t where
  "pmp_init = \<lparr>pmpaddr8 = 0, pmpaddr9 = 0, pmpaddr4 = 0, pmpaddr5 = 0, pmpaddr6 = 0,
     pmpaddr7 = 0, pmpaddr0 = 0, pmpaddr1 = 0, pmpaddr2 = 0, pmpaddr3 = 0,
     pmpcfg1 = 0, pmpcfg0 = 0, pmpcfg3 = 0, pmpcfg2 = 0\<rparr>"

definition csr_init :: csr_t where
  "csr_init = \<lparr>mstatus = mstatus_init,
     mscratch = 0, sscratch = 0, medeleg = 0, sedeleg = 0, mideleg = 0,
     sideleg = 0, misa = 0, mepc = 0, sepc = 0, uepc = 0,
     cycle = 0, time_csr = 0, instret = 0, mhartid = 0, mvendorid = 0,
     marchid = 0, mimpid = 0, mtval = 0, stval = 0, utval = 0,
     mcounteren = 0, scounteren = 0,
     mtvec = tvec_init, stvec = tvec_init, utvec = tvec_init,
     mcause = cause_init, scause = cause_init, ucause = cause_init,
     satp = satp_init, mip = mip_init, mie = mie_init,
     pmp = pmp_init\<rparr>"

text \<open>Every register struct holds fields of their width.\<close>

definition csr_ok :: "csr_t \<Rightarrow> bool" where
  "csr_ok c \<longleftrightarrow>
     mstatus_ok (mstatus c) \<and> tvec_ok (mtvec c) \<and> tvec_ok (stvec c) \<and> tvec_ok (utvec c) \<and>
     cause_ok (mcause c) \<and> cause_ok (scause c) \<and> cause_ok (ucause c) \<and> satp_ok (satp c) \<and>
     mip_ok (mip c) \<and> mie_ok (mie c)"

lemma csr_ok_init: "csr_ok csr_init"
  by (simp add: csr_ok_def csr_init_def mstatus_ok_def mstatus_init_def tvec_ok_def tvec_init_def
      cause_ok_def cause_init_def satp_ok_def satp_init_def mip_ok_def mip_init_def mie_ok_def
      mie_init_def)

section \<open>Fault flags and the emulator state\<close>

record fault_flags =
  INS_ADDR_MISSALIG :: bool
  INS_ACC_FAULT :: bool
  ILL_INS :: bool
  EBREAK :: bool
  LD_ADDR_MISSALIG :: bool
  LD_ACC_FAULT :: bool
  STORE_ADDR_MISSALIG :: bool
  STORE_ACC_FAULT :: bool
  INS_PAGE_FAULT :: bool
  LD_PAGE_FAULT :: bool
  STORE_PAGE_FAULT :: bool
  ECALL :: bool

definition no_faults :: fault_flags where
  "no_faults = \<lparr>INS_ADDR_MISSALIG = False, INS_ACC_FAULT = False, ILL_INS = False,
     EBREAK = False, LD_ADDR_MISSALIG = False, LD_ACC_FAULT = False,
     STORE_ADDR_MISSALIG = False, STORE_ACC_FAULT = False, INS_PAGE_FAULT = False,
     LD_PAGE_FAULT = False, STORE_PAGE_FAULT = False, ECALL = False\<rparr>"

text \<open>
  \<open>reg_file\<close> is the vector of 32 registers; the decoder only produces indices below 32.
  \<open>console\<close> collects what the program prints through \<^verbatim>\<open>FIFO_ADDR_TX\<close>; the diagnostics
  the emulator itself prints are not state. \<open>LR_cp\<close> and \<open>LR_cp64\<close> are written but never read.
\<close>

record emu =
  memory :: memory
  reg_file :: "u64 \<Rightarrow> u64"
  cp :: plevel_t
  csr_read_success :: bool
  faults :: fault_flags
  plic_served_irq :: bool
  plic_pending_irq :: bool
  csrs :: csr_t
  PC :: u64
  branch :: bool
  ret_data :: u64
  ls_success :: bool
  fifo_queue :: "int list"
  write_tval :: bool
  LR_cp :: plevel_t
  LR_cp64 :: plevel_t
  LR_count :: u64
  LR_count64 :: u64
  amo_reserve_valid :: bool
  amo_reserve_valid64 :: bool
  amo_reserve_addr :: u64
  amo_reserve_addr64 :: u64
  cycle_count :: u64
  console :: "u8 list"

text \<open>Addresses of the memory map (\<^verbatim>\<open>emu.h\<close>).\<close>

abbreviation FIFO_ADDR_RX :: u64 where "FIFO_ADDR_RX \<equiv> 0xe000102c"
abbreviation FIFO_ADDR_TX :: u64 where "FIFO_ADDR_TX \<equiv> 0xe0001030"
abbreviation DRAM_BASE :: u64 where "DRAM_BASE \<equiv> 0x80000000"
abbreviation DRAM_SIZE :: u64 where "DRAM_SIZE \<equiv> 0x80000000"
abbreviation CLINT_BASE :: u64 where "CLINT_BASE \<equiv> 0x2000000"
abbreviation CLINT_SIZE :: u64 where "CLINT_SIZE \<equiv> 0x00c0000"
abbreviation PLIC_BASE :: u64 where "PLIC_BASE \<equiv> 0x40100000"
abbreviation PLIC_SIZE :: u64 where "PLIC_SIZE \<equiv> 0x400000"
abbreviation MTIME_ADDR :: u64 where "MTIME_ADDR \<equiv> CLINT_BASE + 0xbff8"
abbreviation MTIMECMP_ADDR :: u64 where "MTIMECMP_ADDR \<equiv> CLINT_BASE + 0x4000"

text \<open>\<^verbatim>\<open>mtime\<close> and \<^verbatim>\<open>mtimecmp\<close> are references to two words of the memory vector.\<close>

abbreviation MTIME_WORD :: u64 where "MTIME_WORD \<equiv> 0x4017FF"
abbreviation MTIMECMP_WORD :: u64 where "MTIMECMP_WORD \<equiv> 0x400800"

lemma time_words: "MTIME_ADDR div 8 = MTIME_WORD" "MTIMECMP_ADDR div 8 = MTIMECMP_WORD"
  by simp_all

definition mtime :: "emu \<Rightarrow> u64" where "mtime s = memory s MTIME_WORD"
definition mtimecmp :: "emu \<Rightarrow> u64" where "mtimecmp s = memory s MTIMECMP_WORD"

abbreviation upd_mstatus :: "(mstatus_t \<Rightarrow> mstatus_t) \<Rightarrow> emu \<Rightarrow> emu" where
  "upd_mstatus f \<equiv> csrs_update (mstatus_update f)"
abbreviation upd_mip :: "(mip_t \<Rightarrow> mip_t) \<Rightarrow> emu \<Rightarrow> emu" where
  "upd_mip f \<equiv> csrs_update (mip_update f)"
abbreviation set_mtval :: "u64 \<Rightarrow> emu \<Rightarrow> emu" where
  "set_mtval v \<equiv> csrs_update (mtval_update (\<lambda>_. v))"
abbreviation set_stval :: "u64 \<Rightarrow> emu \<Rightarrow> emu" where
  "set_stval v \<equiv> csrs_update (stval_update (\<lambda>_. v))"
abbreviation set_utval :: "u64 \<Rightarrow> emu \<Rightarrow> emu" where
  "set_utval v \<equiv> csrs_update (utval_update (\<lambda>_. v))"
abbreviation set_reg :: "u64 \<Rightarrow> u64 \<Rightarrow> emu \<Rightarrow> emu" where
  "set_reg r v \<equiv> reg_file_update (\<lambda>f. f(r := v))"
abbreviation raise_fault :: "(fault_flags \<Rightarrow> fault_flags) \<Rightarrow> emu \<Rightarrow> emu" where
  "raise_fault f \<equiv> faults_update f"

text \<open>
  The state \<^verbatim>\<open>main\<close> starts its loop with, on a memory \<open>m\<close> that the loader has filled: the
  static initialisers, then \<^verbatim>\<open>misa\<close>, \<^verbatim>\<open>mstatus.fs\<close>, the two timer words, and the wall clock
  \<open>now\<close> in \<^verbatim>\<open>time_csr\<close>. The uninitialised \<^verbatim>\<open>LR_cp\<close> and \<^verbatim>\<open>LR_cp64\<close> are never read.
\<close>

definition emu_init :: "memory \<Rightarrow> u64 \<Rightarrow> emu" where
  "emu_init m now = \<lparr>memory = m(MTIME_WORD := 0, MTIMECMP_WORD := - 1), reg_file = (\<lambda>_. 0),
     cp = MMODE, csr_read_success = False, faults = no_faults,
     plic_served_irq = False, plic_pending_irq = False,
     csrs = csr_init\<lparr>misa := 0x141101 OR push_bit 63 1,
       mstatus := (mstatus csr_init)\<lparr>ms_fs := 1\<rparr>, time_csr := now, mhartid := 0\<rparr>,
     PC = DRAM_BASE, branch = False, ret_data = 0, ls_success = False, fifo_queue = [],
     write_tval = False, LR_cp = MMODE, LR_cp64 = MMODE, LR_count = 0, LR_count64 = 0,
     amo_reserve_valid = False, amo_reserve_valid64 = False, amo_reserve_addr = 0,
     amo_reserve_addr64 = 0, cycle_count = 0, console = []\<rparr>"

end
