(* ===== verification/CSR_Access.thy ===== *)
theory CSR_Access
  imports Machine
begin

text \<open>
  \<^verbatim>\<open>csr_read\<close> and \<^verbatim>\<open>csr_write\<close> of \<^verbatim>\<open>csr_file.h\<close>: the dispatch from a CSR address to the register.
  Each \<^verbatim>\<open>switch\<close> is split in two definitions, its general part and the \<^verbatim>\<open>PMP*\<close> labels with
  the \<^verbatim>\<open>default\<close> label.
\<close>

section \<open>Reading\<close>

text \<open>
  At the \<^verbatim>\<open>default\<close> label \<^verbatim>\<open>csr_read\<close> ends without a \<^verbatim>\<open>return\<close>, so the value the caller sees is
  whatever the return register holds: the parameter \<open>noret\<close>.
\<close>

definition csr_read_pmp :: "u64 \<Rightarrow> u64 \<Rightarrow> pmp_t \<Rightarrow> u64" where
  "csr_read_pmp noret csr_addr p =
     (if csr_addr = PMPADDR8 then pmpaddr8 p
     else if csr_addr = PMPADDR9 then pmpaddr9 p
     else if csr_addr = PMPADDR4 then pmpaddr4 p
     else if csr_addr = PMPADDR5 then pmpaddr5 p
     else if csr_addr = PMPADDR6 then pmpaddr6 p
     else if csr_addr = PMPADDR7 then pmpaddr7 p
     else if csr_addr = PMPADDR0 then pmpaddr0 p
     else if csr_addr = PMPADDR1 then pmpaddr1 p
     else if csr_addr = PMPADDR2 then pmpaddr2 p
     else if csr_addr = PMPADDR3 then pmpaddr3 p
     else if csr_addr = PMPCFG1 then pmpcfg1 p
     else if csr_addr = PMPCFG0 then pmpcfg0 p
     else if csr_addr = PMPCFG3 then pmpcfg3 p
     else if csr_addr = PMPCFG2 then pmpcfg2 p
     else noret)"

definition csr_read :: "u64 \<Rightarrow> u64 \<Rightarrow> emu \<Rightarrow> u64 \<times> emu" where
  "csr_read noret csr_addr s =
     (let c = csrs s; s' = s\<lparr>csr_read_success := True\<rparr> in
      if csr_addr = MSTATUS then
        (if cp s = MMODE then (mstatus_read_reg (mstatus c), s')
         else (1, s'\<lparr>csr_read_success := False\<rparr>))
      else if csr_addr = SSTATUS then
        (if cp s = MMODE \<or> cp s = SMODE then (sstatus_read_reg (mstatus c), s')
         else (1, s'\<lparr>csr_read_success := False\<rparr>))
      else if csr_addr = USTATUS then (ustatus_read_reg (mstatus c), s')
      else if csr_addr = MSCRATCH then (mscratch c, s')
      else if csr_addr = SSCRATCH then (sscratch c, s')
      else if csr_addr = MISA then (misa c, s')
      else if csr_addr = MEPC then (mepc c, s')
      else if csr_addr = SEPC then (sepc c, s')
      else if csr_addr = UEPC then (uepc c, s')
      else if csr_addr = MTVEC then (mtvec_read_reg (mtvec c), s')
      else if csr_addr = STVEC then (stvec_read_reg (stvec c), s')
      else if csr_addr = UTVEC then (utvec_read_reg (utvec c), s')
      else if csr_addr = MCAUSE then (mcause_read_reg (mcause c), s')
      else if csr_addr = SCAUSE then (scause_read_reg (scause c), s')
      else if csr_addr = UCAUSE then (ucause_read_reg (ucause c), s')
      else if csr_addr = MEDELEG then (medeleg c, s')
      else if csr_addr = SEDELEG then (sedeleg c, s')
      else if csr_addr = MIDELEG then (mideleg c, s')
      else if csr_addr = SIDELEG then (sideleg c, s')
      else if csr_addr = CYCLE then (cycle c, s')
      else if csr_addr = TIME then (time_csr c, s')
      else if csr_addr = INSTRET then (instret c, s')
      else if csr_addr = MHARTID then (mhartid c, s')
      else if csr_addr = MVENDORID then (mvendorid c, s')
      else if csr_addr = MARCHID then (marchid c, s')
      else if csr_addr = MIMPID then (mimpid c, s')
      else if csr_addr = SATP then (satp_read_reg (satp c), s')
      else if csr_addr = MTVAL then (mtval c, s')
      else if csr_addr = STVAL then (stval c, s')
      else if csr_addr = UTVAL then (utval c, s')
      else if csr_addr = MIP then (mip_read_reg (mip c), s')
      else if csr_addr = SIP then (mip_read_reg (mip c), s')
      else if csr_addr = MIE then (mie_read_reg (mie c), s')
      else if csr_addr = SIE then (mie_read_reg (mie c), s')
      else if csr_addr = SCOUNTEREN then (scounteren c, s')
      else if csr_addr = MCOUNTEREN then (mcounteren c, s')
      else (csr_read_pmp noret csr_addr (pmp c), s'))"

section \<open>Writing\<close>

definition csr_write_pmp :: "u64 \<Rightarrow> u64 \<Rightarrow> emu \<Rightarrow> bool \<times> emu" where
  "csr_write_pmp csr_addr val s =
     (if csr_addr = PMPADDR8 then (True, csrs_update (pmp_update (pmpaddr8_update (\<lambda>_. val))) s)
     else if csr_addr = PMPADDR9 then (True, csrs_update (pmp_update (pmpaddr9_update (\<lambda>_. val))) s)
     else if csr_addr = PMPADDR4 then (True, csrs_update (pmp_update (pmpaddr4_update (\<lambda>_. val))) s)
     else if csr_addr = PMPADDR5 then (True, csrs_update (pmp_update (pmpaddr5_update (\<lambda>_. val))) s)
     else if csr_addr = PMPADDR6 then (True, csrs_update (pmp_update (pmpaddr6_update (\<lambda>_. val))) s)
     else if csr_addr = PMPADDR7 then (True, csrs_update (pmp_update (pmpaddr7_update (\<lambda>_. val))) s)
     else if csr_addr = PMPADDR0 then (True, csrs_update (pmp_update (pmpaddr0_update (\<lambda>_. val))) s)
     else if csr_addr = PMPADDR1 then (True, csrs_update (pmp_update (pmpaddr1_update (\<lambda>_. val))) s)
     else if csr_addr = PMPADDR2 then (True, csrs_update (pmp_update (pmpaddr2_update (\<lambda>_. val))) s)
     else if csr_addr = PMPADDR3 then (True, csrs_update (pmp_update (pmpaddr3_update (\<lambda>_. val))) s)
     else if csr_addr = PMPCFG1 then (True, csrs_update (pmp_update (pmpcfg1_update (\<lambda>_. val))) s)
     else if csr_addr = PMPCFG0 then (True, csrs_update (pmp_update (pmpcfg0_update (\<lambda>_. val))) s)
     else if csr_addr = PMPCFG3 then (True, csrs_update (pmp_update (pmpcfg3_update (\<lambda>_. val))) s)
     else if csr_addr = PMPCFG2 then (True, csrs_update (pmp_update (pmpcfg2_update (\<lambda>_. val))) s)
     else (False, s))"

definition csr_write :: "u64 \<Rightarrow> u64 \<Rightarrow> emu \<Rightarrow> bool \<times> emu" where
  "csr_write csr_addr val s =
     (if csr_addr = MSTATUS then (True, csrs_update (mstatus_update (mstatus_write_reg val)) s)
     else if csr_addr = SSTATUS then (True, csrs_update (mstatus_update (sstatus_write_reg val)) s)
     else if csr_addr = USTATUS then (True, csrs_update (mstatus_update (ustatus_write_reg val)) s)
     else if csr_addr = MSCRATCH then (True, csrs_update (mscratch_update (\<lambda>_. val)) s)
     else if csr_addr = SSCRATCH then (True, csrs_update (sscratch_update (\<lambda>_. val)) s)
     else if csr_addr = MISA then (True, csrs_update (misa_update (\<lambda>_. val)) s)
     else if csr_addr = MEPC then (True, csrs_update (mepc_update (\<lambda>_. val)) s)
     else if csr_addr = SEPC then (True, csrs_update (sepc_update (\<lambda>_. val)) s)
     else if csr_addr = UEPC then (True, csrs_update (uepc_update (\<lambda>_. val)) s)
     else if csr_addr = MTVEC then (True, csrs_update (mtvec_update (mtvec_write_reg val)) s)
     else if csr_addr = STVEC then (True, csrs_update (stvec_update (stvec_write_reg val)) s)
     else if csr_addr = UTVEC then (True, csrs_update (utvec_update (utvec_write_reg val)) s)
     else if csr_addr = MCAUSE then (True, csrs_update (mcause_update (mcause_write_reg val)) s)
     else if csr_addr = SCAUSE then (True, csrs_update (scause_update (scause_write_reg val)) s)
     else if csr_addr = UCAUSE then (True, csrs_update (ucause_update (ucause_write_reg val)) s)
     else if csr_addr = MEDELEG then (True, csrs_update (medeleg_update (\<lambda>_. val)) s)
     else if csr_addr = SEDELEG then (True, csrs_update (sedeleg_update (\<lambda>_. val)) s)
     else if csr_addr = MIDELEG then (True, csrs_update (mideleg_update (\<lambda>_. val)) s)
     else if csr_addr = SIDELEG then (True, csrs_update (sideleg_update (\<lambda>_. val)) s)
     else if csr_addr = CYCLE then (False, s)
     else if csr_addr = TIME then (True, csrs_update (time_csr_update (\<lambda>_. val)) s)
     else if csr_addr = INSTRET then (True, csrs_update (instret_update (\<lambda>_. val)) s)
     else if csr_addr = MHARTID then (True, csrs_update (mhartid_update (\<lambda>_. val)) s)
     else if csr_addr = MVENDORID then (True, csrs_update (mvendorid_update (\<lambda>_. val)) s)
     else if csr_addr = MARCHID then (True, csrs_update (marchid_update (\<lambda>_. val)) s)
     else if csr_addr = MIMPID then (True, csrs_update (mimpid_update (\<lambda>_. val)) s)
     else if csr_addr = SATP then (True, csrs_update (satp_update (satp_write_reg val)) s)
     else if csr_addr = MTVAL then (True, csrs_update (mtval_update (\<lambda>_. val)) s)
     else if csr_addr = STVAL then (True, csrs_update (stval_update (\<lambda>_. val)) s)
     else if csr_addr = UTVAL then (True, csrs_update (utval_update (\<lambda>_. val)) s)
     else if csr_addr = MIP then (True, csrs_update (mip_update (mip_write_reg val)) s)
     else if csr_addr = SIP then (True, csrs_update (mip_update (mip_write_reg val)) s)
     else if csr_addr = MIE then (True, csrs_update (mie_update (mie_write_reg val)) s)
     else if csr_addr = SIE then (True, csrs_update (mie_update (mie_write_reg val)) s)
     else if csr_addr = SCOUNTEREN then (True, csrs_update (scounteren_update (\<lambda>_. val)) s)
     else if csr_addr = MCOUNTEREN then (True, csrs_update (mcounteren_update (\<lambda>_. val)) s)
     else csr_write_pmp csr_addr val s)"

section \<open>What the dispatch guarantees\<close>

text \<open>The addresses both switches list.\<close>

definition csr_implemented :: "u64 list" where
  "csr_implemented =
     [MSTATUS, SSTATUS, USTATUS, MSCRATCH, SSCRATCH, MISA, MEPC,
      SEPC, UEPC, MTVEC, STVEC, UTVEC, MCAUSE, SCAUSE,
      UCAUSE, MEDELEG, SEDELEG, MIDELEG, SIDELEG, CYCLE, TIME,
      INSTRET, MHARTID, MVENDORID, MARCHID, MIMPID, SATP, MTVAL,
      STVAL, UTVAL, MIP, SIP, MIE, SIE, SCOUNTEREN,
      MCOUNTEREN, PMPADDR8, PMPADDR9, PMPADDR4, PMPADDR5, PMPADDR6, PMPADDR7,
      PMPADDR0, PMPADDR1, PMPADDR2, PMPADDR3, PMPCFG1, PMPCFG0, PMPCFG3,
      PMPCFG2]"

text \<open>The bits a register implements, by address.\<close>

definition csr_mask :: "u64 \<Rightarrow> u64" where
  "csr_mask a =
     (if a = MSTATUS then 0x8000000F007FF9BB else if a = SSTATUS then 0x80000003000DE133
      else if a = MIP \<or> a = SIP \<or> a = MIE \<or> a = SIE then 0xBBB else - 1)"

definition may_read :: "u64 \<Rightarrow> plevel_t \<Rightarrow> bool" where
  "may_read a p \<longleftrightarrow>
     (a = MSTATUS \<longrightarrow> p = MMODE) \<and> (a = SSTATUS \<longrightarrow> p = MMODE \<or> p = SMODE)"

text \<open>One equation per label, so that later proofs need not walk the \<^verbatim>\<open>switch\<close>.\<close>

lemma csr_write_at:
  "csr_write MSTATUS val s = (True, csrs_update (mstatus_update (mstatus_write_reg val)) s)"
  "csr_write SSTATUS val s = (True, csrs_update (mstatus_update (sstatus_write_reg val)) s)"
  "csr_write USTATUS val s = (True, csrs_update (mstatus_update (ustatus_write_reg val)) s)"
  "csr_write MSCRATCH val s = (True, csrs_update (mscratch_update (\<lambda>_. val)) s)"
  "csr_write SSCRATCH val s = (True, csrs_update (sscratch_update (\<lambda>_. val)) s)"
  "csr_write MISA val s = (True, csrs_update (misa_update (\<lambda>_. val)) s)"
  "csr_write MEPC val s = (True, csrs_update (mepc_update (\<lambda>_. val)) s)"
  "csr_write SEPC val s = (True, csrs_update (sepc_update (\<lambda>_. val)) s)"
  "csr_write UEPC val s = (True, csrs_update (uepc_update (\<lambda>_. val)) s)"
  "csr_write MTVEC val s = (True, csrs_update (mtvec_update (mtvec_write_reg val)) s)"
  "csr_write STVEC val s = (True, csrs_update (stvec_update (stvec_write_reg val)) s)"
  "csr_write UTVEC val s = (True, csrs_update (utvec_update (utvec_write_reg val)) s)"
  "csr_write MCAUSE val s = (True, csrs_update (mcause_update (mcause_write_reg val)) s)"
  "csr_write SCAUSE val s = (True, csrs_update (scause_update (scause_write_reg val)) s)"
  "csr_write UCAUSE val s = (True, csrs_update (ucause_update (ucause_write_reg val)) s)"
  "csr_write MEDELEG val s = (True, csrs_update (medeleg_update (\<lambda>_. val)) s)"
  "csr_write SEDELEG val s = (True, csrs_update (sedeleg_update (\<lambda>_. val)) s)"
  "csr_write MIDELEG val s = (True, csrs_update (mideleg_update (\<lambda>_. val)) s)"
  "csr_write SIDELEG val s = (True, csrs_update (sideleg_update (\<lambda>_. val)) s)"
  "csr_write CYCLE val s = (False, s)"
  "csr_write TIME val s = (True, csrs_update (time_csr_update (\<lambda>_. val)) s)"
  "csr_write INSTRET val s = (True, csrs_update (instret_update (\<lambda>_. val)) s)"
  "csr_write MHARTID val s = (True, csrs_update (mhartid_update (\<lambda>_. val)) s)"
  "csr_write MVENDORID val s = (True, csrs_update (mvendorid_update (\<lambda>_. val)) s)"
  "csr_write MARCHID val s = (True, csrs_update (marchid_update (\<lambda>_. val)) s)"
  "csr_write MIMPID val s = (True, csrs_update (mimpid_update (\<lambda>_. val)) s)"
  "csr_write SATP val s = (True, csrs_update (satp_update (satp_write_reg val)) s)"
  "csr_write MTVAL val s = (True, csrs_update (mtval_update (\<lambda>_. val)) s)"
  "csr_write STVAL val s = (True, csrs_update (stval_update (\<lambda>_. val)) s)"
  "csr_write UTVAL val s = (True, csrs_update (utval_update (\<lambda>_. val)) s)"
  "csr_write MIP val s = (True, csrs_update (mip_update (mip_write_reg val)) s)"
  "csr_write SIP val s = (True, csrs_update (mip_update (mip_write_reg val)) s)"
  "csr_write MIE val s = (True, csrs_update (mie_update (mie_write_reg val)) s)"
  "csr_write SIE val s = (True, csrs_update (mie_update (mie_write_reg val)) s)"
  "csr_write SCOUNTEREN val s = (True, csrs_update (scounteren_update (\<lambda>_. val)) s)"
  "csr_write MCOUNTEREN val s = (True, csrs_update (mcounteren_update (\<lambda>_. val)) s)"
  "csr_write PMPADDR8 val s = (True, csrs_update (pmp_update (pmpaddr8_update (\<lambda>_. val))) s)"
  "csr_write PMPADDR9 val s = (True, csrs_update (pmp_update (pmpaddr9_update (\<lambda>_. val))) s)"
  "csr_write PMPADDR4 val s = (True, csrs_update (pmp_update (pmpaddr4_update (\<lambda>_. val))) s)"
  "csr_write PMPADDR5 val s = (True, csrs_update (pmp_update (pmpaddr5_update (\<lambda>_. val))) s)"
  "csr_write PMPADDR6 val s = (True, csrs_update (pmp_update (pmpaddr6_update (\<lambda>_. val))) s)"
  "csr_write PMPADDR7 val s = (True, csrs_update (pmp_update (pmpaddr7_update (\<lambda>_. val))) s)"
  "csr_write PMPADDR0 val s = (True, csrs_update (pmp_update (pmpaddr0_update (\<lambda>_. val))) s)"
  "csr_write PMPADDR1 val s = (True, csrs_update (pmp_update (pmpaddr1_update (\<lambda>_. val))) s)"
  "csr_write PMPADDR2 val s = (True, csrs_update (pmp_update (pmpaddr2_update (\<lambda>_. val))) s)"
  "csr_write PMPADDR3 val s = (True, csrs_update (pmp_update (pmpaddr3_update (\<lambda>_. val))) s)"
  "csr_write PMPCFG1 val s = (True, csrs_update (pmp_update (pmpcfg1_update (\<lambda>_. val))) s)"
  "csr_write PMPCFG0 val s = (True, csrs_update (pmp_update (pmpcfg0_update (\<lambda>_. val))) s)"
  "csr_write PMPCFG3 val s = (True, csrs_update (pmp_update (pmpcfg3_update (\<lambda>_. val))) s)"
  "csr_write PMPCFG2 val s = (True, csrs_update (pmp_update (pmpcfg2_update (\<lambda>_. val))) s)"
  by (simp_all add: csr_write_def csr_write_pmp_def)

lemma csr_read_at:
  "csr_read noret MSTATUS s =
    (if cp s = MMODE then (mstatus_read_reg (mstatus (csrs s)), s\<lparr>csr_read_success := True\<rparr>)
     else (1, s\<lparr>csr_read_success := False\<rparr>))"
  "csr_read noret SSTATUS s =
    (if cp s = MMODE \<or> cp s = SMODE
     then (sstatus_read_reg (mstatus (csrs s)), s\<lparr>csr_read_success := True\<rparr>)
     else (1, s\<lparr>csr_read_success := False\<rparr>))"
  "csr_read noret USTATUS s = (ustatus_read_reg (mstatus (csrs s)), s\<lparr>csr_read_success := True\<rparr>)"
  "csr_read noret MSCRATCH s = (mscratch (csrs s), s\<lparr>csr_read_success := True\<rparr>)"
  "csr_read noret SSCRATCH s = (sscratch (csrs s), s\<lparr>csr_read_success := True\<rparr>)"
  "csr_read noret MISA s = (misa (csrs s), s\<lparr>csr_read_success := True\<rparr>)"
  "csr_read noret MEPC s = (mepc (csrs s), s\<lparr>csr_read_success := True\<rparr>)"
  "csr_read noret SEPC s = (sepc (csrs s), s\<lparr>csr_read_success := True\<rparr>)"
  "csr_read noret UEPC s = (uepc (csrs s), s\<lparr>csr_read_success := True\<rparr>)"
  "csr_read noret MTVEC s = (mtvec_read_reg (mtvec (csrs s)), s\<lparr>csr_read_success := True\<rparr>)"
  "csr_read noret STVEC s = (stvec_read_reg (stvec (csrs s)), s\<lparr>csr_read_success := True\<rparr>)"
  "csr_read noret UTVEC s = (utvec_read_reg (utvec (csrs s)), s\<lparr>csr_read_success := True\<rparr>)"
  "csr_read noret MCAUSE s = (mcause_read_reg (mcause (csrs s)), s\<lparr>csr_read_success := True\<rparr>)"
  "csr_read noret SCAUSE s = (scause_read_reg (scause (csrs s)), s\<lparr>csr_read_success := True\<rparr>)"
  "csr_read noret UCAUSE s = (ucause_read_reg (ucause (csrs s)), s\<lparr>csr_read_success := True\<rparr>)"
  "csr_read noret MEDELEG s = (medeleg (csrs s), s\<lparr>csr_read_success := True\<rparr>)"
  "csr_read noret SEDELEG s = (sedeleg (csrs s), s\<lparr>csr_read_success := True\<rparr>)"
  "csr_read noret MIDELEG s = (mideleg (csrs s), s\<lparr>csr_read_success := True\<rparr>)"
  "csr_read noret SIDELEG s = (sideleg (csrs s), s\<lparr>csr_read_success := True\<rparr>)"
  "csr_read noret CYCLE s = (cycle (csrs s), s\<lparr>csr_read_success := True\<rparr>)"
  "csr_read noret TIME s = (time_csr (csrs s), s\<lparr>csr_read_success := True\<rparr>)"
  "csr_read noret INSTRET s = (instret (csrs s), s\<lparr>csr_read_success := True\<rparr>)"
  "csr_read noret MHARTID s = (mhartid (csrs s), s\<lparr>csr_read_success := True\<rparr>)"
  "csr_read noret MVENDORID s = (mvendorid (csrs s), s\<lparr>csr_read_success := True\<rparr>)"
  "csr_read noret MARCHID s = (marchid (csrs s), s\<lparr>csr_read_success := True\<rparr>)"
  "csr_read noret MIMPID s = (mimpid (csrs s), s\<lparr>csr_read_success := True\<rparr>)"
  "csr_read noret SATP s = (satp_read_reg (satp (csrs s)), s\<lparr>csr_read_success := True\<rparr>)"
  "csr_read noret MTVAL s = (mtval (csrs s), s\<lparr>csr_read_success := True\<rparr>)"
  "csr_read noret STVAL s = (stval (csrs s), s\<lparr>csr_read_success := True\<rparr>)"
  "csr_read noret UTVAL s = (utval (csrs s), s\<lparr>csr_read_success := True\<rparr>)"
  "csr_read noret MIP s = (mip_read_reg (mip (csrs s)), s\<lparr>csr_read_success := True\<rparr>)"
  "csr_read noret SIP s = (mip_read_reg (mip (csrs s)), s\<lparr>csr_read_success := True\<rparr>)"
  "csr_read noret MIE s = (mie_read_reg (mie (csrs s)), s\<lparr>csr_read_success := True\<rparr>)"
  "csr_read noret SIE s = (mie_read_reg (mie (csrs s)), s\<lparr>csr_read_success := True\<rparr>)"
  "csr_read noret SCOUNTEREN s = (scounteren (csrs s), s\<lparr>csr_read_success := True\<rparr>)"
  "csr_read noret MCOUNTEREN s = (mcounteren (csrs s), s\<lparr>csr_read_success := True\<rparr>)"
  "csr_read noret PMPADDR8 s = (pmpaddr8 (pmp (csrs s)), s\<lparr>csr_read_success := True\<rparr>)"
  "csr_read noret PMPADDR9 s = (pmpaddr9 (pmp (csrs s)), s\<lparr>csr_read_success := True\<rparr>)"
  "csr_read noret PMPADDR4 s = (pmpaddr4 (pmp (csrs s)), s\<lparr>csr_read_success := True\<rparr>)"
  "csr_read noret PMPADDR5 s = (pmpaddr5 (pmp (csrs s)), s\<lparr>csr_read_success := True\<rparr>)"
  "csr_read noret PMPADDR6 s = (pmpaddr6 (pmp (csrs s)), s\<lparr>csr_read_success := True\<rparr>)"
  "csr_read noret PMPADDR7 s = (pmpaddr7 (pmp (csrs s)), s\<lparr>csr_read_success := True\<rparr>)"
  "csr_read noret PMPADDR0 s = (pmpaddr0 (pmp (csrs s)), s\<lparr>csr_read_success := True\<rparr>)"
  "csr_read noret PMPADDR1 s = (pmpaddr1 (pmp (csrs s)), s\<lparr>csr_read_success := True\<rparr>)"
  "csr_read noret PMPADDR2 s = (pmpaddr2 (pmp (csrs s)), s\<lparr>csr_read_success := True\<rparr>)"
  "csr_read noret PMPADDR3 s = (pmpaddr3 (pmp (csrs s)), s\<lparr>csr_read_success := True\<rparr>)"
  "csr_read noret PMPCFG1 s = (pmpcfg1 (pmp (csrs s)), s\<lparr>csr_read_success := True\<rparr>)"
  "csr_read noret PMPCFG0 s = (pmpcfg0 (pmp (csrs s)), s\<lparr>csr_read_success := True\<rparr>)"
  "csr_read noret PMPCFG3 s = (pmpcfg3 (pmp (csrs s)), s\<lparr>csr_read_success := True\<rparr>)"
  "csr_read noret PMPCFG2 s = (pmpcfg2 (pmp (csrs s)), s\<lparr>csr_read_success := True\<rparr>)"
  by (simp_all add: csr_read_def csr_read_pmp_def)

lemma csr_implemented_cases:
  assumes "a \<in> set csr_implemented"
    and "a = MSTATUS \<Longrightarrow> P" "a = SSTATUS \<Longrightarrow> P" "a = USTATUS \<Longrightarrow> P" "a = MSCRATCH \<Longrightarrow> P"
      "a = SSCRATCH \<Longrightarrow> P" "a = MISA \<Longrightarrow> P" "a = MEPC \<Longrightarrow> P" "a = SEPC \<Longrightarrow> P"
      "a = UEPC \<Longrightarrow> P" "a = MTVEC \<Longrightarrow> P" "a = STVEC \<Longrightarrow> P" "a = UTVEC \<Longrightarrow> P"
      "a = MCAUSE \<Longrightarrow> P" "a = SCAUSE \<Longrightarrow> P" "a = UCAUSE \<Longrightarrow> P" "a = MEDELEG \<Longrightarrow> P"
      "a = SEDELEG \<Longrightarrow> P" "a = MIDELEG \<Longrightarrow> P" "a = SIDELEG \<Longrightarrow> P" "a = CYCLE \<Longrightarrow> P"
      "a = TIME \<Longrightarrow> P" "a = INSTRET \<Longrightarrow> P" "a = MHARTID \<Longrightarrow> P" "a = MVENDORID \<Longrightarrow> P"
      "a = MARCHID \<Longrightarrow> P" "a = MIMPID \<Longrightarrow> P" "a = SATP \<Longrightarrow> P" "a = MTVAL \<Longrightarrow> P"
      "a = STVAL \<Longrightarrow> P" "a = UTVAL \<Longrightarrow> P" "a = MIP \<Longrightarrow> P" "a = SIP \<Longrightarrow> P"
      "a = MIE \<Longrightarrow> P" "a = SIE \<Longrightarrow> P" "a = SCOUNTEREN \<Longrightarrow> P" "a = MCOUNTEREN \<Longrightarrow> P"
      "a = PMPADDR8 \<Longrightarrow> P" "a = PMPADDR9 \<Longrightarrow> P" "a = PMPADDR4 \<Longrightarrow> P" "a = PMPADDR5 \<Longrightarrow> P"
      "a = PMPADDR6 \<Longrightarrow> P" "a = PMPADDR7 \<Longrightarrow> P" "a = PMPADDR0 \<Longrightarrow> P" "a = PMPADDR1 \<Longrightarrow> P"
      "a = PMPADDR2 \<Longrightarrow> P" "a = PMPADDR3 \<Longrightarrow> P" "a = PMPCFG1 \<Longrightarrow> P" "a = PMPCFG0 \<Longrightarrow> P"
      "a = PMPCFG3 \<Longrightarrow> P" "a = PMPCFG2 \<Longrightarrow> P"
  shows P
  using assms(1) unfolding csr_implemented_def list.set insert_iff empty_iff
  by (elim disjE) (erule assms(2-) | erule FalseE)+

lemma csr_write_other: "a \<notin> set csr_implemented \<Longrightarrow> csr_write a v s = (False, s)"
  by (simp add: csr_write_def csr_write_pmp_def csr_implemented_def)

lemma csr_read_other:
  "a \<notin> set csr_implemented \<Longrightarrow> csr_read nr a s = (nr, s\<lparr>csr_read_success := True\<rparr>)"
  by (simp add: csr_read_def csr_read_pmp_def csr_implemented_def)

text \<open>
  The register laws of \<^verbatim>\<open>CSR_File\<close> lifted to the dispatch: what is read back after a write, which
  addresses fail, and that only the CSR file changes.
\<close>

lemma csr_read_state:
  "snd (csr_read nr a s) = s\<lparr>csr_read_success := may_read a (cp s)\<rparr>"
proof (cases "a \<in> set csr_implemented")
  case True
  then show ?thesis
    by (elim csr_implemented_cases) (simp_all add: csr_read_at may_read_def)
next
  case False
  then have "a \<noteq> MSTATUS \<and> a \<noteq> SSTATUS" by (auto simp: csr_implemented_def)
  with False show ?thesis by (simp add: csr_read_other may_read_def)
qed

lemma csr_write_success: "fst (csr_write a v s) \<longleftrightarrow> a \<in> set csr_implemented \<and> a \<noteq> CYCLE"
proof (cases "a \<in> set csr_implemented")
  case True
  then show ?thesis
    by (elim csr_implemented_cases) (simp_all add: csr_write_at csr_implemented_def)
qed (simp add: csr_write_other)

lemma csr_write_fail: "\<not> fst (csr_write a v s) \<Longrightarrow> csr_write a v s = (False, s)"
  by (cases "a \<in> set csr_implemented") (auto simp: csr_write_success csr_write_at csr_write_other)

lemma csr_write_frame: "snd (csr_write a v s) = s\<lparr>csrs := csrs (snd (csr_write a v s))\<rparr>"
proof (cases "a \<in> set csr_implemented")
  case True
  then show ?thesis by (elim csr_implemented_cases) (simp_all add: csr_write_at)
qed (simp add: csr_write_other)

lemma csr_read_write:
  assumes "a \<in> set csr_implemented" "a \<noteq> CYCLE" "a \<noteq> USTATUS" "may_read a (cp s)"
  shows "fst (csr_read nr a (snd (csr_write a v s))) = v AND csr_mask a"
  using assms
  by (elim csr_implemented_cases)
    (simp_all add: csr_write_at csr_read_at may_read_def csr_mask_def
      mstatus.rd_wr sstatus.rd_wr mtvec.rd_wr stvec.rd_wr utvec.rd_wr mcause.rd_wr scause.rd_wr
      ucause.rd_wr satp.rd_wr mip.rd_wr mie.rd_wr)

lemma csr_write_ok:
  assumes "csr_ok (csrs s)"
  shows "csr_ok (csrs (snd (csr_write a v s)))"
proof (cases "a \<in> set csr_implemented")
  case True
  then show ?thesis using assms
    by (elim csr_implemented_cases)
      (simp_all add: csr_write_at csr_ok_def mstatus_ok_ustatus_write mstatus.ok_wr sstatus.ok_wr
       mtvec.ok_wr stvec.ok_wr utvec.ok_wr mcause.ok_wr scause.ok_wr
      ucause.ok_wr satp.ok_wr mip.ok_wr mie.ok_wr)
qed (simp add: csr_write_other assms)

section \<open>Further facts\<close>

text \<open>
  Writing an implemented register other than \<^verbatim>\<open>cycle\<close> and \<^verbatim>\<open>ustatus\<close> succeeds, and reading it
  back at a privilege level that may read it gives the value cut to the implemented bits.
\<close>

theorem csr_read_after_write:
  assumes "a \<in> set csr_implemented" "a \<noteq> CYCLE" "a \<noteq> USTATUS" "may_read a (cp s)"
  shows "fst (csr_write a v s) \<and> fst (csr_read nr a (snd (csr_write a v s))) = v AND csr_mask a"
  using assms by (simp add: csr_write_success csr_read_write)

theorem csr_read_after_write_witness:
  "fst (csr_write MSTATUS 0xFFFF (emu_init (\<lambda>_. 0) 0)) \<and>
   fst (csr_read 0 MSTATUS (snd (csr_write MSTATUS 0xFFFF (emu_init (\<lambda>_. 0) 0)))) =
     0xFFFF AND csr_mask MSTATUS"
proof (rule csr_read_after_write)
  show "MSTATUS \<in> set csr_implemented" by (simp add: csr_implemented_def)
  show "may_read MSTATUS (cp (emu_init (\<lambda>_. 0) 0))" by (simp add: may_read_def emu_init_def)
qed simp_all

end
