(* ===== verification/Byte_Lanes.thy ===== *)
theory Byte_Lanes
  imports Prelude
begin

text \<open>
  \<^verbatim>\<open>emu.h\<close>, \<^verbatim>\<open>store_word\<close> to \<^verbatim>\<open>load_byte\<close>: reading and replacing 1, 2 or 4 bytes of a
  64-bit memory word, at the byte lane given by the low three address bits. Each C function
  has an out parameter \<^verbatim>\<open>wb_data\<close> and returns whether the access fits in the word; the
  model returns both as a pair. The interface \<open>lane_port\<close> says what a width has to provide and
  is interpreted on the three widths.
\<close>

section \<open>The six access functions\<close>

definition store_word :: "u64 \<Rightarrow> u64 \<Rightarrow> u64 \<Rightarrow> bool \<times> u64" where
  "store_word store_addr load_data value =
     (let lane = store_addr mod 8 in
      if lane = 0 then (True, (load_data AND 0xFFFFFFFF00000000) + push_bit 0 (value AND 0xFFFFFFFF))
      else if lane = 1 then (True, (load_data AND 0xFFFFFF00000000FF) + push_bit 8 (value AND 0xFFFFFFFF))
      else if lane = 2 then (True, (load_data AND 0xFFFF00000000FFFF) + push_bit 16 (value AND 0xFFFFFFFF))
      else if lane = 3 then (True, (load_data AND 0xFF00000000FFFFFF) + push_bit 24 (value AND 0xFFFFFFFF))
      else if lane = 4 then (True, (load_data AND 0x00000000FFFFFFFF) + push_bit 32 (value AND 0xFFFFFFFF))
      else (False, -1))"

definition store_halfw :: "u64 \<Rightarrow> u64 \<Rightarrow> u64 \<Rightarrow> bool \<times> u64" where
  "store_halfw store_addr load_data value =
     (let lane = store_addr mod 8 in
      if lane = 0 then (True, (load_data AND 0xFFFFFFFFFFFF0000) + push_bit 0 (value AND 0xFFFF))
      else if lane = 1 then (True, (load_data AND 0xFFFFFFFFFF0000FF) + push_bit 8 (value AND 0xFFFF))
      else if lane = 2 then (True, (load_data AND 0xFFFFFFFF0000FFFF) + push_bit 16 (value AND 0xFFFF))
      else if lane = 3 then (True, (load_data AND 0xFFFFFF0000FFFFFF) + push_bit 24 (value AND 0xFFFF))
      else if lane = 4 then (True, (load_data AND 0xFFFF0000FFFFFFFF) + push_bit 32 (value AND 0xFFFF))
      else if lane = 5 then (True, (load_data AND 0xFF0000FFFFFFFFFF) + push_bit 40 (value AND 0xFFFF))
      else if lane = 6 then (True, (load_data AND 0x0000FFFFFFFFFFFF) + push_bit 48 (value AND 0xFFFF))
      else (False, -1))"

definition store_byte :: "u64 \<Rightarrow> u64 \<Rightarrow> u64 \<Rightarrow> bool \<times> u64" where
  "store_byte store_addr load_data value =
     (let lane = store_addr mod 8 in
      if lane = 0 then (True, (load_data AND push_bit 8 0xFFFFFFFFFFFFFF) + (value AND 0xFF))
      else if lane = 1 then (True, (load_data AND push_bit 16 0xFFFFFFFFFFFF) + push_bit 8 (value AND 0xFF) + (load_data AND 0xFF))
      else if lane = 2 then (True, (load_data AND push_bit 24 0xFFFFFFFFFF) + push_bit 16 (value AND 0xFF) + (load_data AND 0xFFFF))
      else if lane = 3 then (True, (load_data AND push_bit 32 0xFFFFFFFF) + push_bit 24 (value AND 0xFF) + (load_data AND 0xFFFFFF))
      else if lane = 4 then (True, (load_data AND push_bit 40 0xFFFFFF) + push_bit 32 (value AND 0xFF) + (load_data AND 0xFFFFFFFF))
      else if lane = 5 then (True, (load_data AND push_bit 48 0xFFFF) + push_bit 40 (value AND 0xFF) + (load_data AND 0xFFFFFFFFFF))
      else if lane = 6 then (True, (load_data AND push_bit 56 0xFF) + push_bit 48 (value AND 0xFF) + (load_data AND 0xFFFFFFFFFFFF))
      else if lane = 7 then (True, push_bit 56 (value AND 0xFF) + (load_data AND 0xFFFFFFFFFFFFFF))
      else (False, -1))"

definition load_word :: "u64 \<Rightarrow> u64 \<Rightarrow> bool \<times> u64" where
  "load_word load_addr load_data =
     (let lane = load_addr mod 8 in
      if lane = 0 then (True, drop_bit 0 load_data AND 0xFFFFFFFF)
      else if lane = 1 then (True, drop_bit 8 load_data AND 0xFFFFFFFF)
      else if lane = 2 then (True, drop_bit 16 load_data AND 0xFFFFFFFF)
      else if lane = 3 then (True, drop_bit 24 load_data AND 0xFFFFFFFF)
      else if lane = 4 then (True, drop_bit 32 load_data AND 0xFFFFFFFF)
      else (False, -1))"

definition load_halfw :: "u64 \<Rightarrow> u64 \<Rightarrow> bool \<times> u64" where
  "load_halfw load_addr load_data =
     (let lane = load_addr mod 8 in
      if lane = 0 then (True, drop_bit 0 load_data AND 0xFFFF)
      else if lane = 1 then (True, drop_bit 8 load_data AND 0xFFFF)
      else if lane = 2 then (True, drop_bit 16 load_data AND 0xFFFF)
      else if lane = 3 then (True, drop_bit 24 load_data AND 0xFFFF)
      else if lane = 4 then (True, drop_bit 32 load_data AND 0xFFFF)
      else if lane = 5 then (True, drop_bit 40 load_data AND 0xFFFF)
      else if lane = 6 then (True, drop_bit 48 load_data AND 0xFFFF)
      else (False, -1))"

definition load_byte :: "u64 \<Rightarrow> u64 \<Rightarrow> bool \<times> u64" where
  "load_byte load_addr load_data =
     (let lane = load_addr mod 8 in
      if lane = 0 then (True, load_data AND 0xFF)
      else if lane = 1 then (True, drop_bit 8 load_data AND 0xFF)
      else if lane = 2 then (True, drop_bit 16 load_data AND 0xFF)
      else if lane = 3 then (True, drop_bit 24 load_data AND 0xFF)
      else if lane = 4 then (True, drop_bit 32 load_data AND 0xFF)
      else if lane = 5 then (True, drop_bit 40 load_data AND 0xFF)
      else if lane = 6 then (True, drop_bit 48 load_data AND 0xFF)
      else if lane = 7 then (True, drop_bit 56 load_data AND 0xFF)
      else (False, -1))"

section \<open>What an access port promises\<close>

definition lane :: "u64 \<Rightarrow> nat" where "lane a = unat (a mod 8)"

lemma lane_less [simp]: "lane a < 8"
  by (simp add: lane_def unat_mod)

text \<open>Byte \<open>i\<close> of a memory word, in little-endian order.\<close>

definition byte_of :: "u64 \<Rightarrow> nat \<Rightarrow> u8" where
  "byte_of w i = ucast (get_field (8 * i) 8 w)"

lemma bit_byte_of [bit_simps]: "bit (byte_of w i) n \<longleftrightarrow> n < 8 \<and> bit w (8 * i + n)"
  by (auto simp: byte_of_def bit_simps)

lemma word_eq_bytesI:
  assumes "\<And>i. i < 8 \<Longrightarrow> byte_of v i = byte_of w i"
  shows "v = w"
proof (rule bit_word_eqI)
  fix n assume "n < LENGTH(64)"
  then have "byte_of v (n div 8) = byte_of w (n div 8)" by (intro assms) simp
  then have "bit (byte_of v (n div 8)) (n mod 8) = bit (byte_of w (n div 8)) (n mod 8)" by simp
  then show "bit v n \<longleftrightarrow> bit w n" by (simp add: bit_simps)
qed

locale lane_port =
  fixes n :: nat
    and ld :: "u64 \<Rightarrow> u64 \<Rightarrow> bool \<times> u64"
    and st :: "u64 \<Rightarrow> u64 \<Rightarrow> u64 \<Rightarrow> bool \<times> u64"
  assumes width: "n \<le> 8"
    and ld_fits: "lane a + n \<le> 8 \<Longrightarrow> ld a d = (True, get_field (8 * lane a) (8 * n) d)"
    and ld_bad: "8 < lane a + n \<Longrightarrow> ld a d = (False, -1)"
    and st_fits: "lane a + n \<le> 8 \<Longrightarrow> st a d v = (True, put_field (8 * lane a) (8 * n) d v)"
    and st_bad: "8 < lane a + n \<Longrightarrow> st a d v = (False, -1)"
begin

lemma fst_ld: "fst (ld a d) \<longleftrightarrow> lane a + n \<le> 8"
  by (cases "lane a + n \<le> 8") (simp_all add: ld_fits ld_bad)

lemma fst_st: "fst (st a d v) \<longleftrightarrow> lane a + n \<le> 8"
  by (cases "lane a + n \<le> 8") (simp_all add: st_fits st_bad)

lemma ld_st:
  "lane a + n \<le> 8 \<Longrightarrow> ld a (snd (st a d v)) = (True, take_bit (8 * n) v)"
  by (simp add: ld_fits st_fits get_put_field_same)

lemma st_st: "lane a + n \<le> 8 \<Longrightarrow> st a (snd (st a d v)) v' = st a d v'"
  by (simp add: st_fits put_put_field_same)

lemma st_ld: "lane a + n \<le> 8 \<Longrightarrow> st a d (snd (ld a d)) = (True, d)"
  by (simp add: st_fits ld_fits put_get_field)

lemma byte_of_st:
  assumes "lane a + n \<le> 8"
  shows "byte_of (snd (st a d v)) i =
    (if 8 \<le> i then byte_of d i
     else if lane a \<le> i \<and> i < lane a + n then byte_of v (i - lane a) else byte_of d i)"
proof (rule bit_word_eqI)
  fix k assume "k < LENGTH(8)"
  then have k: "k < 8" by simp
  have eq: "8 * i + k - 8 * lane a = 8 * (i - lane a) + k" if "lane a \<le> i"
    using that by simp
  from k have "8 * lane a \<le> 8 * i + k \<longleftrightarrow> lane a \<le> i"
    and "8 * i + k < 8 * lane a + 8 * n \<longleftrightarrow> i < lane a + n"
    and "8 * i + k < 64 \<longleftrightarrow> i < 8" by presburger+
  then show "bit (byte_of (snd (st a d v)) i) k =
      bit (if 8 \<le> i then byte_of d i
        else if lane a \<le> i \<and> i < lane a + n then byte_of v (i - lane a) else byte_of d i) k"
    using k eq assms by (auto simp: st_fits bit_simps dest: bit_imp_le_length)
qed

lemma byte_of_ld:
  assumes "lane a + n \<le> 8"
  shows "byte_of (snd (ld a d)) i = (if i < n then byte_of d (lane a + i) else 0)"
proof (rule bit_word_eqI)
  fix k assume "k < LENGTH(8)"
  then have k: "k < 8" by simp
  from k have "8 * i + k < 8 * n \<longleftrightarrow> i < n" by presburger
  with k assms show "bit (byte_of (snd (ld a d)) i) k =
      bit (if i < n then byte_of d (lane a + i) else 0) k"
    by (simp add: ld_fits bit_simps distrib_left add.assoc)
qed

end

text \<open>Two ports of any widths: a store leaves what lies beside it alone.\<close>

locale lane_ports =
  p: lane_port n ld st + q: lane_port n' ld' st'
  for n ld st n' ld' st'
begin

lemma ld_st_disjoint:
  assumes "lane a + n \<le> 8" and "lane b + n' \<le> lane a \<or> lane a + n \<le> lane b"
  shows "ld' b (snd (st a d v)) = ld' b d"
proof (cases "lane b + n' \<le> 8")
  case True
  have "8 * lane b + 8 * n' \<le> 8 * lane a \<or> 8 * lane a + 8 * n \<le> 8 * lane b"
    using assms(2) by presburger
  with True assms(1) show ?thesis
    by (simp add: q.ld_fits p.st_fits get_put_field_disjoint)
qed (simp add: q.ld_bad)

lemma st_st_commute:
  assumes "lane a + n \<le> 8" "lane b + n' \<le> 8"
    and "lane b + n' \<le> lane a \<or> lane a + n \<le> lane b"
  shows "snd (st' b (snd (st a d v)) w) = snd (st a (snd (st' b d w)) v)"
proof -
  have "8 * lane b + 8 * n' \<le> 8 * lane a \<or> 8 * lane a + 8 * n \<le> 8 * lane b"
    using assms(3) by presburger
  then show ?thesis using assms(1,2)
    by (auto simp: p.st_fits q.st_fits bit_simps intro!: bit_word_eqI)
qed

end

section \<open>The three widths provide the interface\<close>

lemma mask_numerals:
  "(0xFF :: u64) = mask 8" "(0xFFFF :: u64) = mask 16" "(0xFFFFFF :: u64) = mask 24"
  "(0xFFFFFFFF :: u64) = mask 32" "(0xFFFFFFFFFF :: u64) = mask 40"
  "(0xFFFFFFFFFFFF :: u64) = mask 48" "(0xFFFFFFFFFFFFFF :: u64) = mask 56"
  by (simp_all add: mask_eq_exp_minus_1)

lemma hole_numerals [lane_simps]:
  "(0xFFFFFFFF00000000 :: u64) = NOT (push_bit 0 (mask 32))"
  "(0xFFFFFF00000000FF :: u64) = NOT (push_bit 8 (mask 32))"
  "(0xFFFF00000000FFFF :: u64) = NOT (push_bit 16 (mask 32))"
  "(0xFF00000000FFFFFF :: u64) = NOT (push_bit 24 (mask 32))"
  "(0xFFFFFFFFFFFF0000 :: u64) = NOT (push_bit 0 (mask 16))"
  "(0xFFFFFFFFFF0000FF :: u64) = NOT (push_bit 8 (mask 16))"
  "(0xFFFFFFFF0000FFFF :: u64) = NOT (push_bit 16 (mask 16))"
  "(0xFFFFFF0000FFFFFF :: u64) = NOT (push_bit 24 (mask 16))"
  "(0xFFFF0000FFFFFFFF :: u64) = NOT (push_bit 32 (mask 16))"
  "(0xFF0000FFFFFFFFFF :: u64) = NOT (push_bit 40 (mask 16))"
  by (simp_all add: mask_eq_exp_minus_1)

lemma store_hole [lane_simps]:
  "(d AND NOT (push_bit lo (mask len))) + push_bit lo (v AND mask len) = put_field lo len d v"
  for d v :: u64
  by (subst plus_eq_orI) (auto simp: bit_simps put_field_def take_bit_eq_mask intro!: bit_word_eqI)

lemma store_low [lane_simps]:
  "(d AND mask lo) + push_bit lo (v AND mask len) = put_field lo len d v"
  if "lo + len = 64" for d v :: u64
  using that
  by (subst plus_eq_orI) (auto simp: bit_simps put_field_def intro!: bit_word_eqI)

lemma store_around [lane_simps]:
  "(d AND push_bit hi (mask k)) + push_bit lo (v AND mask len) + (d AND mask lo) =
   put_field lo len d v"
  if "lo + len = hi" "hi + k = 64" for d v :: u64
proof -
  have "(d AND push_bit hi (mask k)) + push_bit lo (v AND mask len) =
      (d AND push_bit hi (mask k)) OR push_bit lo (v AND mask len)"
    using that by (intro plus_eq_orI) (auto simp: bit_simps)
  moreover have "\<dots> + (d AND mask lo) = \<dots> OR (d AND mask lo)"
    using that by (intro plus_eq_orI) (auto simp: bit_simps)
  ultimately show ?thesis using that
    by (auto simp: bit_simps put_field_def intro!: bit_word_eqI)
qed

lemma load_get [lane_simps]: "drop_bit lo d AND mask len = get_field lo len d" for d :: u64
  by (simp add: get_field_def take_bit_eq_mask)


lemma mod8_lane:
  "a mod 8 = 0 \<Longrightarrow> lane a = 0" "a mod 8 = 1 \<Longrightarrow> lane a = 1" "a mod 8 = 2 \<Longrightarrow> lane a = 2"
  "a mod 8 = 3 \<Longrightarrow> lane a = 3" "a mod 8 = 4 \<Longrightarrow> lane a = 4" "a mod 8 = 5 \<Longrightarrow> lane a = 5"
  "a mod 8 = 6 \<Longrightarrow> lane a = 6" "a mod 8 = 7 \<Longrightarrow> lane a = 7"
  by (simp_all add: lane_def)

lemma store_word_field:
  "store_word a d v =
     (if lane a + 4 \<le> 8 then (True, put_field (8 * lane a) 32 d v) else (False, -1))"
  by (cases a rule: word_mod_8_cases)
    (simp_all add: store_word_def mod8_lane mask_numerals hole_numerals store_hole store_low
      del: push_bit_0_id push_bit_and)

lemma store_halfw_field:
  "store_halfw a d v =
     (if lane a + 2 \<le> 8 then (True, put_field (8 * lane a) 16 d v) else (False, -1))"
  by (cases a rule: word_mod_8_cases)
    (simp_all add: store_halfw_def mod8_lane mask_numerals hole_numerals store_hole store_low
      del: push_bit_0_id push_bit_and)

lemma store_first_byte:
  "(d AND push_bit 8 (mask 56)) + (v AND mask 8) = put_field 0 8 d v" for d v :: u64
  using store_around [of 0 8 8 56 d v] by simp

lemma store_last_byte:
  "push_bit 56 (v AND mask 8) + (d AND mask 56) = put_field 56 8 d v" for d v :: u64
  using store_low [of 56 8 d v] by (simp add: add.commute)

lemma store_byte_field: "store_byte a d v = (True, put_field (8 * lane a) 8 d v)"
  unfolding store_byte_def Let_def mask_numerals
  by (cases a rule: word_mod_8_cases)
    (simp_all add: mod8_lane store_first_byte store_last_byte store_around del: push_bit_and)

lemma load_word_field:
  "load_word a d = (if lane a + 4 \<le> 8 then (True, get_field (8 * lane a) 32 d) else (False, -1))"
  by (cases a rule: word_mod_8_cases)
    (simp_all add: load_word_def mod8_lane mask_numerals load_get del: drop_bit_0)

lemma load_halfw_field:
  "load_halfw a d = (if lane a + 2 \<le> 8 then (True, get_field (8 * lane a) 16 d) else (False, -1))"
  by (cases a rule: word_mod_8_cases)
    (simp_all add: load_halfw_def mod8_lane mask_numerals load_get del: drop_bit_0)

lemma load_byte_field: "load_byte a d = (True, get_field (8 * lane a) 8 d)"
  using load_get[of 0 d 8]
  by (cases a rule: word_mod_8_cases)
    (simp_all add: load_byte_def mod8_lane mask_numerals load_get)

text \<open>Each width in the interface: 1, 2 and 4 bytes.\<close>

lemma byte_always_fits: "\<not> 7 < lane a"
  using lane_less [of a] by linarith

interpretation byte_port: lane_port 1 load_byte store_byte
  by unfold_locales (simp_all add: load_byte_field store_byte_field byte_always_fits)

interpretation halfw_port: lane_port 2 load_halfw store_halfw
  by unfold_locales (simp_all add: load_halfw_field store_halfw_field)

interpretation word_port: lane_port 4 load_word store_word
  by unfold_locales (simp_all add: load_word_field store_word_field)

interpretation word_byte: lane_ports 4 load_word store_word 1 load_byte store_byte ..
interpretation word_halfw: lane_ports 4 load_word store_word 2 load_halfw store_halfw ..
interpretation word_word: lane_ports 4 load_word store_word 4 load_word store_word ..

end
