(* ===== verification/Devices.thy ===== *)
theory Devices
  imports CSR_Access Byte_Lanes
begin

text \<open>
  The memory-mapped devices of \<^verbatim>\<open>csr_file.h\<close>: the core-local interruptor (\<^verbatim>\<open>clint_*\<close>), the
  platform interrupt controller (\<^verbatim>\<open>plic_*\<close>) and the memory accessors \<^verbatim>\<open>mem_read*\<close> and
  \<^verbatim>\<open>mem_write*\<close> through which the block device reaches RAM. The accessors are shown to
  implement a byte-addressed memory; the interface \<open>ram_port\<close> states that once for all widths.
\<close>

section \<open>CLINT\<close>

definition clint_read :: "u64 \<Rightarrow> emu \<Rightarrow> u64" where
  "clint_read offset s =
     (if offset = 0xbff8 then mtime s
      else if offset = 0x4000 then mtimecmp s
      else 0)"

definition clint_write :: "u64 \<Rightarrow> u64 \<Rightarrow> emu \<Rightarrow> emu" where
  "clint_write offset val s =
     (if offset = 0x4000
      then upd_mip (ip_STIP_update (\<lambda>_. 0)) (memory_update (\<lambda>m. m(MTIMECMP_WORD := val)) s)
      else s)"

definition virtio_read :: "u64 \<Rightarrow> u64" where "virtio_read offset = 0"

section \<open>PLIC\<close>

abbreviation PLIC_HART_BASE :: u64 where "PLIC_HART_BASE \<equiv> 0x200000"

definition plic_read :: "u64 \<Rightarrow> emu \<Rightarrow> u64 \<times> emu" where
  "plic_read offset s =
     (if offset = PLIC_HART_BASE then (0, s)
      else if offset = PLIC_HART_BASE + 4 then
        (if ip_SEIP (mip (csrs s)) = 1
         then (1, upd_mip (ip_SEIP_update (\<lambda>_. 0)) (s\<lparr>plic_served_irq := True\<rparr>))
         else (0, s))
      else (0, s))"

definition plic_write :: "u64 \<Rightarrow> u64 \<Rightarrow> emu \<Rightarrow> emu" where
  "plic_write offset val s =
     (if offset = PLIC_HART_BASE + 4 then
        (let s = s\<lparr>plic_served_irq := False\<rparr> in
         if plic_pending_irq s then upd_mip (ip_SEIP_update (\<lambda>_. 1)) s
         else upd_mip (ip_SEIP_update (\<lambda>_. 0)) s)
      else s)"

text \<open>
  The operand of \<^verbatim>\<open>~plic_served_irq\<close> is promoted to \<^verbatim>\<open>int\<close>, so the complement is never zero.
  The \<^verbatim>\<open>mask\<close> the C code computes from \<^verbatim>\<open>irq_num\<close> is not used.
\<close>

definition plic_set_irq_emu :: "int \<Rightarrow> int \<Rightarrow> emu \<Rightarrow> emu" where
  "plic_set_irq_emu irq_num state s =
     (if state \<noteq> 0 then
        (let s = s\<lparr>plic_pending_irq := True\<rparr> in
         if (NOT (of_bool (plic_served_irq s)) :: u32) \<noteq> 0
         then upd_mip (ip_SEIP_update (\<lambda>_. 1)) s
         else upd_mip (ip_SEIP_update (\<lambda>_. 0)) s)
      else upd_mip (ip_SEIP_update (\<lambda>_. 0)) (s\<lparr>plic_pending_irq := False\<rparr>))"

section \<open>Memory accessors of the block device\<close>

text \<open>The word of the memory vector that holds the byte at a physical address.\<close>

definition ram_index :: "u64 \<Rightarrow> u64" where "ram_index addr = (addr - DRAM_BASE) div 8"

definition mem_read32 :: "u64 \<Rightarrow> memory \<Rightarrow> u32 result" where
  "mem_read32 addr m =
     andThen (mem_at m ((addr - DRAM_BASE) div 8)) (\<lambda>load_data.
     Inr (ucast (snd (load_word addr load_data))))"

definition mem_write32 :: "u64 \<Rightarrow> u64 \<Rightarrow> memory \<Rightarrow> memory result" where
  "mem_write32 addr data m =
     andThen (mem_at m ((addr - DRAM_BASE) div 8)) (\<lambda>store_data.
     mem_put m ((addr - DRAM_BASE) div 8) (snd (store_word addr store_data data)))"

definition mem_read16 :: "u64 \<Rightarrow> memory \<Rightarrow> u16 result" where
  "mem_read16 addr m =
     andThen (mem_at m ((addr - DRAM_BASE) div 8)) (\<lambda>load_data.
     Inr (ucast (snd (load_halfw addr load_data))))"

definition mem_write16 :: "u64 \<Rightarrow> u64 \<Rightarrow> memory \<Rightarrow> memory result" where
  "mem_write16 addr data m =
     andThen (mem_at m ((addr - DRAM_BASE) div 8)) (\<lambda>store_data.
     mem_put m ((addr - DRAM_BASE) div 8) (snd (store_halfw addr store_data data)))"

definition mem_read8 :: "u64 \<Rightarrow> memory \<Rightarrow> u8 result" where
  "mem_read8 addr m =
     andThen (mem_at m ((addr - DRAM_BASE) div 8)) (\<lambda>load_data.
     Inr (ucast (snd (load_byte addr load_data))))"

definition mem_write8 :: "u64 \<Rightarrow> u64 \<Rightarrow> memory \<Rightarrow> memory result" where
  "mem_write8 addr data m =
     andThen (mem_at m ((addr - DRAM_BASE) div 8)) (\<lambda>store_data.
     mem_put m ((addr - DRAM_BASE) div 8) (snd (store_byte addr store_data data)))"

section \<open>RAM as a byte memory\<close>

text \<open>
  The abstraction: the byte at a physical address. An address is in RAM when its word is in the
  vector; an access of \<open>n\<close> bytes fits when it does not cross a word boundary.
\<close>

definition ram_byte :: "memory \<Rightarrow> u64 \<Rightarrow> u8" where
  "ram_byte m addr = byte_of (m (ram_index addr)) (lane addr)"

definition in_ram :: "u64 \<Rightarrow> bool" where "in_ram addr \<longleftrightarrow> ram_index addr < MEM_WORDS"

lemma ram_index_unat: "unat (ram_index addr) = unat (addr - DRAM_BASE) div 8"
  by (simp add: ram_index_def unat_div)

lemma lane_unat: "lane addr = unat (addr - DRAM_BASE) mod 8"
proof -
  have "unat addr = unat ((addr - DRAM_BASE) + DRAM_BASE)" by simp
  also have "\<dots> = (unat (addr - DRAM_BASE) + unat DRAM_BASE) mod 2 ^ 64"
    by (simp only: unat_word_ariths) simp
  finally have "unat addr mod 8 = (unat (addr - DRAM_BASE) + unat DRAM_BASE) mod 2 ^ 64 mod 8"
    by (rule arg_cong)
  also have "\<dots> = (unat (addr - DRAM_BASE) + unat DRAM_BASE) mod 8"
    by (rule mod_mod_cancel) simp
  also have "\<dots> = unat (addr - DRAM_BASE) mod 8"
    using mod_mult_self1 [of "unat (addr - DRAM_BASE)" 268435456 8] by simp
  finally show ?thesis by (simp add: lane_def unat_mod)
qed

text \<open>The \<open>n\<close> bytes from \<open>a\<close> on, when they fit in a word, are lanes of one word.\<close>

lemma lane_window:
  assumes fits: "lane a + n \<le> 8"
  shows "unat (b - a) < n \<longleftrightarrow>
     ram_index b = ram_index a \<and> lane a \<le> lane b \<and> lane b < lane a + n" (is ?window)
    and "unat (b - a) < n \<Longrightarrow> unat (b - a) = lane b - lane a"
proof -
  define x where "x = unat (a - DRAM_BASE)"
  define y where "y = unat (b - DRAM_BASE)"
  have bound: "x < 2 ^ 64" "y < 2 ^ 64"
    using unsigned_less [of "a - DRAM_BASE"] unsigned_less [of "b - DRAM_BASE"] by (simp_all add: x_def y_def)
  have "b - a = (b - DRAM_BASE) - (a - DRAM_BASE)" by simp
  then have diff: "unat (b - a) = (if x \<le> y then y - x else y + 2 ^ 64 - x)"
    unfolding x_def y_def by (simp only: unat_sub_if') simp
  have eqs: "lane a = x mod 8" "lane b = y mod 8"
      "ram_index b = ram_index a \<longleftrightarrow> y div 8 = x div 8"
    by (simp_all add: lane_unat word_unat_eq_iff ram_index_unat x_def y_def)
  obtain q r where x: "x = 8 * q + r" "r < 8" "x div 8 = q" "x mod 8 = r" 
    using mult_div_mod_eq [of 8 x] by (metis mod_less_divisor zero_less_numeral)
  obtain p t where y: "y = 8 * p + t" "t < 8" "y div 8 = p" "y mod 8 = t"
    using mult_div_mod_eq [of 8 y] by (metis mod_less_divisor zero_less_numeral)
  have q: "q < 2 ^ 61" using bound(1) x(1) by simp
  have fits': "r + n \<le> 8" using fits x by (simp add: eqs)
  show ?window
  proof (cases "x \<le> y")
    case True
    consider "p = q" | "q < p" using True x(1,2) y(1,2) by linarith
    then show ?thesis
    proof cases
      case 1
      with True fits' x(1) y(1) show ?thesis unfolding diff eqs x(3,4) y(3,4) by auto
    next
      case 2
      then have "8 * q + 8 \<le> 8 * p" by simp
      with fits' x(1) y(1) have "\<not> y - x < n" by linarith
      with 2 True show ?thesis unfolding diff eqs x(3,4) y(3,4) by simp
    qed
  next
    case False
    with q fits' have "\<not> y + 2 ^ 64 - x < n" by (simp add: x(1))
    with False x(1,2) y(1,2) show ?thesis unfolding diff eqs x(3,4) y(3,4) by auto
  qed
  then show "unat (b - a) = lane b - lane a" if "unat (b - a) < n"
  proof -
    from \<open>?window\<close> that have "q = p" "r \<le> t" unfolding eqs x(3,4) y(3,4) by auto
    then show ?thesis unfolding eqs x(4) y(4) diff by (simp add: x(1) y(1))
  qed
qed

text \<open>
  What an accessor of \<open>n\<close> bytes promises: \<open>rd\<close> and \<open>wr\<close> are the fetch of a word and the lane
  access on it. Everything else follows for all widths at once.
\<close>

locale ram_port = lane_port n ld st
  for n :: nat and ld :: "u64 \<Rightarrow> u64 \<Rightarrow> bool \<times> u64" and st :: "u64 \<Rightarrow> u64 \<Rightarrow> u64 \<Rightarrow> bool \<times> u64" +
  fixes rd :: "u64 \<Rightarrow> memory \<Rightarrow> 'v::len word result"
    and wr :: "u64 \<Rightarrow> u64 \<Rightarrow> memory \<Rightarrow> memory result"
  assumes rd_word: "rd a m = andThen (mem_at m (ram_index a)) (\<lambda>d. Inr (ucast (snd (ld a d))))"
    and wr_word: "wr a v m = andThen (mem_at m (ram_index a)) (\<lambda>d.
      mem_put m (ram_index a) (snd (st a d v)))"
    and value_width: "LENGTH('v) = 8 * n"
begin

lemma rd_defined: "(\<exists>v. rd a m = Inr v) \<longleftrightarrow> in_ram a"
  by (simp add: rd_word mem_at_def in_ram_def)

lemma wr_defined: "(\<exists>m'. wr a v m = Inr m') \<longleftrightarrow> in_ram a"
  by (simp add: wr_word mem_at_def mem_put_def in_ram_def)

lemma wr_bytes:
  assumes "wr a v m = Inr m'" "lane a + n \<le> 8"
  shows "ram_byte m' b = (if unat (b - a) < n then byte_of v (unat (b - a)) else ram_byte m b)"
proof -
  from assms(1) have m': "m' = m(ram_index a := snd (st a (m (ram_index a)) v))"
    by (simp add: wr_word mem_at_def mem_put_def split: if_splits)
  show ?thesis
    using lane_window [OF assms(2), of b] assms(2)
    by (auto simp: ram_byte_def m' byte_of_st)
qed

lemma rd_bytes:
  assumes "rd a m = Inr v" "lane a + n \<le> 8" "i < n"
  shows "byte_of (ucast v) i = ram_byte m (a + of_nat i)"
proof -
  have i: "unat (a + of_nat i - a) = i"
    using assms(3) width by (simp add: unsigned_of_nat take_bit_nat_eq_self_iff)
  then have "ram_index (a + of_nat i) = ram_index a" "lane (a + of_nat i) = lane a + i"
    using lane_window [OF assms(2), of "a + of_nat i"] assms(3) by auto
  moreover from assms(1) have "v = ucast (snd (ld a (m (ram_index a))))"
    by (simp add: rd_word mem_at_def split: if_splits)
  moreover have "byte_of (ucast (ucast w :: 'v word)) i = byte_of w i" for w :: u64
    using assms(3) value_width width by (intro bit_word_eqI) (auto simp: bit_simps)
  ultimately show ?thesis using assms by (simp add: ram_byte_def byte_of_ld)
qed

lemma rd_wr:
  assumes "wr a v m = Inr m'" "lane a + n \<le> 8"
  shows "rd a m' = Inr (ucast v)"
proof -
  from assms(1) have "ram_index a < MEM_WORDS"
      "m' = m(ram_index a := snd (st a (m (ram_index a)) v))"
    by (simp_all add: wr_word mem_at_def mem_put_def split: if_splits)
  moreover have "ucast (take_bit (8 * n) v) = (ucast v :: 'v word)"
    by (rule bit_word_eqI) (simp add: bit_simps value_width)
  ultimately show ?thesis using assms(2) by (simp add: rd_word mem_at_def ld_st)
qed

end

interpretation ram8: ram_port 1 load_byte store_byte mem_read8 mem_write8
  by unfold_locales (simp_all add: mem_read8_def mem_write8_def ram_index_def)

interpretation ram16: ram_port 2 load_halfw store_halfw mem_read16 mem_write16
  by unfold_locales (simp_all add: mem_read16_def mem_write16_def ram_index_def)

interpretation ram32: ram_port 4 load_word store_word mem_read32 mem_write32
  by unfold_locales (simp_all add: mem_read32_def mem_write32_def ram_index_def)

section \<open>Interrupt lines\<close>

text \<open>
  The four things that can happen to the PLIC: the device drives its line, the hart claims
  (loads the claim register) and completes (stores to it).
\<close>

datatype plic_event = Drive bool | Claim | Complete

fun plic_op :: "plic_event \<Rightarrow> emu \<Rightarrow> emu" where
  "plic_op (Drive b) s = plic_set_irq_emu 1 (of_bool b) s"
| "plic_op Claim s = snd (plic_read (PLIC_HART_BASE + 4) s)"
| "plic_op Complete s = plic_write (PLIC_HART_BASE + 4) 1 s"

definition plic_line :: "plic_event list \<Rightarrow> bool \<Rightarrow> bool" where
  "plic_line ops b = fold (\<lambda>op b. case op of Drive b' \<Rightarrow> b' | _ \<Rightarrow> b) ops b"

abbreviation SEIP :: "emu \<Rightarrow> u8" where "SEIP s \<equiv> ip_SEIP (mip (csrs s))"

lemma not_of_bool_nz: "(NOT (of_bool b) :: u32) \<noteq> 0"
  by (cases b) simp_all

lemma plic_claim:
  "plic_read 0x200004 s =
     (if SEIP s = 1 then (1, upd_mip (ip_SEIP_update (\<lambda>_. 0)) (s\<lparr>plic_served_irq := True\<rparr>))
      else (0, s))"
  by (simp add: plic_read_def)

lemma plic_set_irq:
  "plic_set_irq_emu irq st s =
     upd_mip (ip_SEIP_update (\<lambda>_. of_bool (st \<noteq> 0))) (s\<lparr>plic_pending_irq := (st \<noteq> 0)\<rparr>)"
  by (simp add: plic_set_irq_emu_def not_of_bool_nz)

lemma plic_complete:
  "plic_write 0x200004 v s =
     upd_mip (ip_SEIP_update (\<lambda>_. of_bool (plic_pending_irq s))) (s\<lparr>plic_served_irq := False\<rparr>)"
  by (simp add: plic_write_def)

lemma plic_op_pending:
  "plic_pending_irq (fold plic_op ops s) = plic_line ops (plic_pending_irq s)"
proof (induction ops arbitrary: s)
  case (Cons op ops)
  then show ?case
    by (cases op) (simp_all add: plic_line_def plic_claim plic_set_irq plic_complete)
qed (simp add: plic_line_def)

definition plic_inv :: "emu \<Rightarrow> bool" where
  "plic_inv s \<longleftrightarrow> (SEIP s = 0 \<or> SEIP s = 1) \<and> (SEIP s = 1 \<longrightarrow> plic_pending_irq s) \<and>
     (SEIP s = 0 \<longrightarrow> plic_pending_irq s \<longrightarrow> plic_served_irq s)"

lemma plic_op_inv: "plic_inv s \<Longrightarrow> plic_inv (plic_op op s)"
  by (cases op) (auto simp: plic_inv_def plic_claim plic_set_irq plic_complete)

lemma plic_ops_inv: "plic_inv s \<Longrightarrow> plic_inv (fold plic_op ops s)"
  by (induction ops arbitrary: s) (simp_all add: plic_op_inv)

lemma plic_op_frame: "plic_op op s = s\<lparr>plic_served_irq := plic_served_irq (plic_op op s),
    plic_pending_irq := plic_pending_irq (plic_op op s), csrs := csrs (plic_op op s)\<rparr>"
  by (cases op) (simp_all add: plic_claim plic_set_irq plic_complete)

text \<open>The timer registers as the hart sees them.\<close>

lemma clint_read_write:
  "clint_read 0x4000 (clint_write 0x4000 v s) = v"
  "off \<noteq> 0x4000 \<Longrightarrow> clint_write off v s = s"
  "clint_read 0xbff8 (clint_write off v s) = clint_read 0xbff8 s"
  by (simp_all add: clint_read_def clint_write_def mtime_def mtimecmp_def)

lemma mip_ok_SEIP: "mip_ok p \<Longrightarrow> v \<le> 1 \<Longrightarrow> mip_ok (ip_SEIP_update (\<lambda>_. v) p)"
  by (simp add: mip_ok_def)

lemma mip_ok_STIP: "mip_ok p \<Longrightarrow> v \<le> 1 \<Longrightarrow> mip_ok (ip_STIP_update (\<lambda>_. v) p)"
  by (simp add: mip_ok_def)

section \<open>Further facts\<close>

text \<open>
  A successful \<^verbatim>\<open>mem_write32\<close> that does not cross a word boundary replaces exactly the four bytes
  from its address on, little-endian, and \<^verbatim>\<open>mem_read32\<close> then returns the value.
\<close>

theorem ram_accessors_refine_bytes:
  assumes "mem_write32 a v m = Inr m'" "lane a + 4 \<le> 8"
  shows "mem_read32 a m' = Inr (ucast v) \<and>
    ram_byte m' b = (if unat (b - a) < 4 then byte_of v (unat (b - a)) else ram_byte m b)"
  using ram32.rd_wr [OF assms] ram32.wr_bytes [OF assms] by simp

theorem ram_accessors_refine_bytes_witness:
  "mem_read32 0x80000004 ((\<lambda>_. 0)(0 := 0x1122334400000000)) = Inr (ucast (0x11223344 :: u64))"
proof -
  have "mem_write32 0x80000004 0x11223344 (\<lambda>_. 0) = Inr ((\<lambda>_. 0)(0 := 0x1122334400000000))"
    by (simp add: mem_write32_def mem_at_def mem_put_def MEM_WORDS_def store_word_def)
  moreover have "lane 0x80000004 + 4 \<le> 8" by (simp add: lane_def)
  ultimately show ?thesis using ram_accessors_refine_bytes by blast
qed

text \<open>
  Over any sequence of line changes, claims and completions, \<^verbatim>\<open>plic_pending_irq\<close> is the last
  level driven, \<^verbatim>\<open>mip.SEIP\<close> is set only while the line is high, and a high line without \<^verbatim>\<open>SEIP\<close> has
  been claimed and not completed.
\<close>

theorem plic_follows_line:
  assumes "plic_inv s"
  shows "plic_inv (fold plic_op ops s) \<and>
    plic_pending_irq (fold plic_op ops s) = plic_line ops (plic_pending_irq s)"
  using assms by (simp add: plic_ops_inv plic_op_pending)

theorem plic_follows_line_witness:
  "plic_inv (fold plic_op [Drive True, Claim, Drive False, Complete] (emu_init (\<lambda>_. 0) 0)) \<and>
   plic_pending_irq (fold plic_op [Drive True, Claim, Drive False, Complete] (emu_init (\<lambda>_. 0) 0)) =
     plic_line [Drive True, Claim, Drive False, Complete] (plic_pending_irq (emu_init (\<lambda>_. 0) 0))"
  by (rule plic_follows_line) (simp add: plic_inv_def emu_init_def csr_init_def mip_init_def)

text \<open>
  Right after a claim a second claim returns 0; a completion leaves \<^verbatim>\<open>SEIP\<close> set exactly when the
  line is high; and raising the line sets \<^verbatim>\<open>SEIP\<close> even while an interrupt is being served, since
  \<^verbatim>\<open>~plic_served_irq\<close> is never zero.
\<close>

theorem plic_claim_complete:
  "fst (plic_read 0x200004 (snd (plic_read 0x200004 s))) = 0 \<and>
   SEIP (plic_write 0x200004 v s) = of_bool (plic_pending_irq s) \<and>
   SEIP (plic_set_irq_emu irq 1 (s\<lparr>plic_served_irq := True\<rparr>)) = 1"
  by (simp add: plic_claim plic_complete plic_set_irq)

end
