(* ===== verification/Virtio_Queue.thy ===== *)
theory Virtio_Queue
  imports Devices
begin

text \<open>
  The queues of \<^verbatim>\<open>temu/virtio.c\<close>: the device state, access to guest RAM through the accessors of
  \<^verbatim>\<open>csr_file.h\<close>, descriptor chains, copying from and to them, the used ring and the notification loop.

  A C \<^verbatim>\<open>int\<close> is an \<open>int\<close>; where C converts to \<^verbatim>\<open>int\<close> from an unsigned type the model says \<open>to_int32\<close>.
  A loop over descriptors may run forever (the guest can link them in a circle), so the loops are
  \<^theory_text>\<open>partial_function (option)\<close>: \<open>None\<close> means that the loop does not end.
\<close>

section \<open>State\<close>

definition to_int32 :: "int \<Rightarrow> int" where
  "to_int32 x = signed_take_bit 31 x"

lemma to_int32_id: "- (2 ^ 31) \<le> x \<Longrightarrow> x < 2 ^ 31 \<Longrightarrow> to_int32 x = x"
  unfolding to_int32_def by (rule signed_take_bit_int_eq_self)

abbreviation MAX_QUEUE :: nat where "MAX_QUEUE \<equiv> 8"
abbreviation MAX_CONFIG_SPACE_SIZE :: nat where "MAX_CONFIG_SPACE_SIZE \<equiv> 256"
abbreviation MAX_QUEUE_NUM :: u32 where "MAX_QUEUE_NUM \<equiv> 16"
abbreviation VIRTIO_PAGE_SIZE :: u64 where "VIRTIO_PAGE_SIZE \<equiv> 4096"

record QueueState =
  q_ready :: u32
  q_num :: u32
  q_last_avail_idx :: u16
  q_desc_addr :: u64
  q_avail_addr :: u64
  q_used_addr :: u64
  q_manual_recv :: bool

abbreviation VRING_DESC_F_NEXT :: u16 where "VRING_DESC_F_NEXT \<equiv> 1"
abbreviation VRING_DESC_F_WRITE :: u16 where "VRING_DESC_F_WRITE \<equiv> 2"

record VIRTIODesc =
  d_addr :: u64
  d_len :: u32
  d_flags :: u16
  d_next :: u16

text \<open>
  The fields the MMIO transport uses; the callbacks \<^verbatim>\<open>device_recv\<close> and \<^verbatim>\<open>config_write\<close> are arguments
  of the functions that call them.
\<close>

record VIRTIODevice =
  v_int_status :: u32
  v_status :: u32
  v_device_features_sel :: u32
  v_queue_sel :: u32
  v_queue :: "QueueState list"
  v_device_id :: u32
  v_vendor_id :: u32
  v_device_features :: u32
  v_config_space_size :: u32
  v_config_space :: "u8 list"

text \<open>A device on the bus of the emulator: its registers, what the device itself keeps, the machine.\<close>

record 'd vm =
  vm_emu :: emu
  vm_dev :: VIRTIODevice
  vm_opaque :: 'd

abbreviation upd_queue :: "nat \<Rightarrow> (QueueState \<Rightarrow> QueueState) \<Rightarrow> VIRTIODevice \<Rightarrow> VIRTIODevice" where
  "upd_queue i f \<equiv> v_queue_update (\<lambda>q. q[i := f (q ! i)])"

text \<open>\<^verbatim>\<open>set_irq(s->irq, level)\<close>: \<^verbatim>\<open>main\<close> initialises the signal with \<^verbatim>\<open>plic_set_irq_emu\<close> and number 1.\<close>

definition set_irq :: "int \<Rightarrow> 'd vm \<Rightarrow> 'd vm" where
  "set_irq level s = s\<lparr>vm_emu := plic_set_irq_emu 1 level (vm_emu s)\<rparr>"

section \<open>Guest RAM\<close>

definition virtio_read16 :: "u64 \<Rightarrow> memory \<Rightarrow> u16 result" where
  "virtio_read16 addr m = (if addr AND 1 \<noteq> 0 then Inr 0 else mem_read16 addr m)"

definition virtio_write16 :: "u64 \<Rightarrow> u16 \<Rightarrow> memory \<Rightarrow> memory result" where
  "virtio_write16 addr val m = (if addr AND 1 \<noteq> 0 then Inr m else mem_write16 addr (ucast val) m)"

definition virtio_write32 :: "u64 \<Rightarrow> u32 \<Rightarrow> memory \<Rightarrow> memory result" where
  "virtio_write32 addr val m = (if addr AND 3 \<noteq> 0 then Inr m else mem_write32 addr (ucast val) m)"

text \<open>The inner \<^verbatim>\<open>for\<close> loops of the two copy functions.\<close>

primrec read_bytes :: "nat \<Rightarrow> u64 \<Rightarrow> memory \<Rightarrow> u8 list result" where
  "read_bytes 0 addr m = Inr []"
| "read_bytes (Suc l) addr m = andThen (mem_read8 addr m) (\<lambda>b.
     andThen (read_bytes l (addr + 1) m) (\<lambda>bs. Inr (b # bs)))"

primrec write_bytes :: "u8 list \<Rightarrow> u64 \<Rightarrow> memory \<Rightarrow> memory result" where
  "write_bytes [] addr m = Inr m"
| "write_bytes (b # bs) addr m = andThen (mem_write8 addr (ucast b) m) (write_bytes bs (addr + 1))"

definition page_rest :: "u64 \<Rightarrow> int" where
  "page_rest addr = to_int32 (uint (VIRTIO_PAGE_SIZE - (addr AND (VIRTIO_PAGE_SIZE - 1))))"

lemma page_rest_bounds: "0 < page_rest addr" "page_rest addr \<le> 4096"
proof -
  define x where "x = addr AND (VIRTIO_PAGE_SIZE - 1)"
  have "x = take_bit 12 addr" by (simp add: x_def take_bit_eq_mask mask_eq_exp_minus_1)
  then have x: "0 \<le> uint x" "uint x < 4096"
    using take_bit_int_less_exp [of 12 "uint addr"] by (simp_all add: unsigned_take_bit_eq)
  define y where "y = uint (VIRTIO_PAGE_SIZE - x)"
  have "y = 4096 - uint x" using x by (simp add: y_def uint_sub_if')
  with x have y: "0 < y" "y \<le> 4096" by linarith+
  then have "to_int32 y = y" by (intro to_int32_id) simp_all
  with y show "0 < page_rest addr" "page_rest addr \<le> 4096"
    by (simp_all add: page_rest_def y_def x_def)
qed

text \<open>
  \<open>buf\<close> is what the pointer \<^verbatim>\<open>buf\<close> points to. The functions always return 0.
\<close>

function virtio_memcpy_from_ram :: "u64 \<Rightarrow> int \<Rightarrow> memory \<Rightarrow> u8 list result" where
  "virtio_memcpy_from_ram addr count m =
     (if count > 0 then
        (let l = min count (page_rest addr) in
         andThen (read_bytes (nat l) addr m) (\<lambda>bs.
         andThen (virtio_memcpy_from_ram (addr + of_int l) (count - l) m) (\<lambda>bs'. Inr (bs @ bs'))))
      else Inr [])"
  by pat_completeness auto
termination
  by (relation "measure (\<lambda>(addr, count, m). nat count)") (use page_rest_bounds in \<open>auto simp: min_def\<close>)

function virtio_memcpy_to_ram :: "u64 \<Rightarrow> u8 list \<Rightarrow> int \<Rightarrow> memory \<Rightarrow> memory result" where
  "virtio_memcpy_to_ram addr buf count m =
     (if count > 0 then
        (let l = min count (page_rest addr) in
         andThen (write_bytes (take (nat l) buf) addr m) (\<lambda>m.
         virtio_memcpy_to_ram (addr + of_int l) (drop (nat l) buf) (count - l) m))
      else Inr m)"
  by pat_completeness auto
termination
  by (relation "measure (\<lambda>(addr, buf, count, m). nat count)")
    (use page_rest_bounds in \<open>auto simp: min_def\<close>)

declare virtio_memcpy_from_ram.simps [simp del] virtio_memcpy_to_ram.simps [simp del]

section \<open>Descriptors\<close>

text \<open>A little-endian number in a byte list, as the host stores the fields of a struct.\<close>

primrec le_bytes :: "u8 list \<Rightarrow> u64" where
  "le_bytes [] = 0"
| "le_bytes (b # bs) = ucast b + push_bit 8 (le_bytes bs)"

definition desc_of_bytes :: "u8 list \<Rightarrow> VIRTIODesc" where
  "desc_of_bytes bs = \<lparr>d_addr = le_bytes (take 8 bs), d_len = ucast (le_bytes (take 4 (drop 8 bs))),
     d_flags = ucast (le_bytes (take 2 (drop 12 bs))), d_next = ucast (le_bytes (take 2 (drop 14 bs)))\<rparr>"

definition get_desc :: "VIRTIODevice \<Rightarrow> nat \<Rightarrow> int \<Rightarrow> memory \<Rightarrow> VIRTIODesc result" where
  "get_desc dev queue_idx desc_idx m =
     andThen (virtio_memcpy_from_ram (q_desc_addr (v_queue dev ! queue_idx) + of_int desc_idx * 16) 16 m)
       (\<lambda>bs. Inr (desc_of_bytes bs))"

definition has_next :: "VIRTIODesc \<Rightarrow> bool" where
  "has_next desc \<longleftrightarrow> d_flags desc AND VRING_DESC_F_NEXT \<noteq> 0"

text \<open>\<^verbatim>\<open>memcpy_to_from_queue\<close>: the search for the first write descriptor (\<open>None\<close> is \<^verbatim>\<open>return -1\<close>).\<close>

partial_function (option) skip_read ::
    "VIRTIODevice \<Rightarrow> nat \<Rightarrow> memory \<Rightarrow> VIRTIODesc \<Rightarrow> VIRTIODesc option result option" where
  "skip_read dev queue_idx m desc =
     (if d_flags desc AND VRING_DESC_F_WRITE = VRING_DESC_F_WRITE then Some (Inr (Some desc))
      else if \<not> has_next desc then Some (Inr None)
      else case get_desc dev queue_idx (uint (d_next desc)) m of
          Inl h \<Rightarrow> Some (Inl h)
        | Inr desc \<Rightarrow> skip_read dev queue_idx m desc)"

text \<open>The search for the descriptor at \<open>offset\<close>: the comparison and the subtraction are unsigned.\<close>

partial_function (option) seek_offset ::
    "VIRTIODevice \<Rightarrow> nat \<Rightarrow> memory \<Rightarrow> u16 \<Rightarrow> VIRTIODesc \<Rightarrow> int \<Rightarrow> (VIRTIODesc \<times> int) option result option" where
  "seek_offset dev queue_idx m f_write_flag desc offset =
     (if d_flags desc AND VRING_DESC_F_WRITE \<noteq> f_write_flag then Some (Inr None)
      else if of_int offset < d_len desc then Some (Inr (Some (desc, offset)))
      else if \<not> has_next desc then Some (Inr None)
      else case get_desc dev queue_idx (uint (d_next desc)) m of
          Inl h \<Rightarrow> Some (Inl h)
        | Inr desc' \<Rightarrow> seek_offset dev queue_idx m f_write_flag desc'
            (to_int32 (uint (of_int offset - d_len desc))))"

text \<open>
  The copy. \<open>buf\<close> is the whole buffer and \<open>pos\<close> where \<^verbatim>\<open>buf\<close> points in it; \<open>copy_chunk\<close> copies \<open>l\<close>
  bytes there, and is undefined behaviour when they are not all inside the buffer.
\<close>

definition copy_chunk :: "bool \<Rightarrow> u64 \<Rightarrow> int \<Rightarrow> int \<Rightarrow> u8 list \<Rightarrow> memory \<Rightarrow> (u8 list \<times> memory) result" where
  "copy_chunk to_queue addr pos l buf m =
     (if l \<le> 0 then Inr (buf, m)
      else if pos < 0 \<or> int (length buf) < pos + l then Inl BadPointer
      else if to_queue then
        andThen (virtio_memcpy_to_ram addr (take (nat l) (drop (nat pos) buf)) l m) (\<lambda>m. Inr (buf, m))
      else
        andThen (virtio_memcpy_from_ram addr l m) (\<lambda>bs.
        Inr (take (nat pos) buf @ bs @ drop (nat (pos + l)) buf, m)))"

partial_function (option) copy_loop ::
    "VIRTIODevice \<Rightarrow> nat \<Rightarrow> bool \<Rightarrow> u16 \<Rightarrow> VIRTIODesc \<Rightarrow> int \<Rightarrow> int \<Rightarrow> int \<Rightarrow> u8 list \<Rightarrow> memory \<Rightarrow>
     (int \<times> u8 list \<times> memory) result option" where
  "copy_loop dev queue_idx to_queue f_write_flag desc offset count pos buf m =
     (let l = min count (to_int32 (uint (d_len desc - of_int offset))) in
      case copy_chunk to_queue (d_addr desc + of_int offset) pos l buf m of
        Inl h \<Rightarrow> Some (Inl h)
      | Inr (buf, m) \<Rightarrow>
          (let count = to_int32 (count - l) in
           if count = 0 then Some (Inr (0, buf, m))
           else
             (let offset = to_int32 (offset + l); pos = pos + l in
              if of_int offset = d_len desc then
                (if \<not> has_next desc then Some (Inr (-1, buf, m))
                 else case get_desc dev queue_idx (uint (d_next desc)) m of
                     Inl h \<Rightarrow> Some (Inl h)
                   | Inr desc \<Rightarrow>
                       if d_flags desc AND VRING_DESC_F_WRITE \<noteq> f_write_flag then Some (Inr (-1, buf, m))
                       else copy_loop dev queue_idx to_queue f_write_flag desc 0 count pos buf m)
              else copy_loop dev queue_idx to_queue f_write_flag desc offset count pos buf m)))"

text \<open>The function itself returns its status, the buffer and the memory.\<close>

definition memcpy_to_from_queue ::
    "VIRTIODevice \<Rightarrow> u8 list \<Rightarrow> nat \<Rightarrow> int \<Rightarrow> int \<Rightarrow> int \<Rightarrow> bool \<Rightarrow> memory \<Rightarrow>
     (int \<times> u8 list \<times> memory) result option" where
  "memcpy_to_from_queue dev buf queue_idx desc_idx offset count to_queue m =
     (if count = 0 then Some (Inr (0, buf, m))
      else case get_desc dev queue_idx desc_idx m of
        Inl h \<Rightarrow> Some (Inl h)
      | Inr desc \<Rightarrow>
          (case (if to_queue then skip_read dev queue_idx m desc else Some (Inr (Some desc))) of
             None \<Rightarrow> None
           | Some (Inl h) \<Rightarrow> Some (Inl h)
           | Some (Inr None) \<Rightarrow> Some (Inr (-1, buf, m))
           | Some (Inr (Some desc)) \<Rightarrow>
               (let f_write_flag = if to_queue then VRING_DESC_F_WRITE else 0 in
                case seek_offset dev queue_idx m f_write_flag desc offset of
                  None \<Rightarrow> None
                | Some (Inl h) \<Rightarrow> Some (Inl h)
                | Some (Inr None) \<Rightarrow> Some (Inr (-1, buf, m))
                | Some (Inr (Some (desc, offset))) \<Rightarrow>
                    copy_loop dev queue_idx to_queue f_write_flag desc offset count 0 buf m)))"

definition memcpy_from_queue ::
    "VIRTIODevice \<Rightarrow> u8 list \<Rightarrow> nat \<Rightarrow> int \<Rightarrow> int \<Rightarrow> int \<Rightarrow> memory \<Rightarrow>
     (int \<times> u8 list \<times> memory) result option" where
  "memcpy_from_queue dev buf queue_idx desc_idx offset count m =
     memcpy_to_from_queue dev buf queue_idx desc_idx offset count False m"

definition memcpy_to_queue ::
    "VIRTIODevice \<Rightarrow> nat \<Rightarrow> int \<Rightarrow> int \<Rightarrow> u8 list \<Rightarrow> int \<Rightarrow> memory \<Rightarrow>
     (int \<times> u8 list \<times> memory) result option" where
  "memcpy_to_queue dev queue_idx desc_idx offset buf count m =
     memcpy_to_from_queue dev buf queue_idx desc_idx offset count True m"

section \<open>The used ring\<close>

definition virtio_consume_desc :: "nat \<Rightarrow> int \<Rightarrow> int \<Rightarrow> 'd vm \<Rightarrow> 'd vm result" where
  "virtio_consume_desc queue_idx desc_idx desc_len s =
     (let qs = v_queue (vm_dev s) ! queue_idx; addr = q_used_addr qs + 2 in
      andThen (virtio_read16 addr (memory (vm_emu s))) (\<lambda>w.
      let index = ucast w :: u32 in
      andThen (virtio_write16 addr (ucast (index + 1)) (memory (vm_emu s))) (\<lambda>m.
      let addr = q_used_addr qs + 4 + ucast ((index AND (q_num qs - 1)) * 8) in
      andThen (virtio_write32 addr (of_int desc_idx) m) (\<lambda>m.
      andThen (virtio_write32 (addr + 4) (of_int desc_len) m) (\<lambda>m.
      let s = s\<lparr>vm_emu := (vm_emu s)\<lparr>memory := m\<rparr>\<rparr>;
          s = s\<lparr>vm_dev := (vm_dev s)\<lparr>v_int_status := v_int_status (vm_dev s) OR 1\<rparr>\<rparr> in
      Inr (set_irq 1 s))))))"

section \<open>The sizes of a chain\<close>

text \<open>The second loop, over the descriptors the device writes; \<open>None\<close> is \<^verbatim>\<open>return -1\<close>.\<close>

partial_function (option) rw_size_write ::
    "VIRTIODevice \<Rightarrow> nat \<Rightarrow> memory \<Rightarrow> VIRTIODesc \<Rightarrow> int \<Rightarrow> int \<Rightarrow> (int \<times> int) option result option" where
  "rw_size_write dev queue_idx m desc read_size write_size =
     (if d_flags desc AND VRING_DESC_F_WRITE = 0 then Some (Inr None)
      else
        (let write_size = to_int32 (uint (of_int write_size + d_len desc :: u32)) in
         if \<not> has_next desc then Some (Inr (Some (read_size, write_size)))
         else case get_desc dev queue_idx (uint (d_next desc)) m of
             Inl h \<Rightarrow> Some (Inl h)
           | Inr desc \<Rightarrow> rw_size_write dev queue_idx m desc read_size write_size))"

partial_function (option) rw_size_read ::
    "VIRTIODevice \<Rightarrow> nat \<Rightarrow> memory \<Rightarrow> VIRTIODesc \<Rightarrow> int \<Rightarrow> (int \<times> int) option result option" where
  "rw_size_read dev queue_idx m desc read_size =
     (if d_flags desc AND VRING_DESC_F_WRITE \<noteq> 0 then rw_size_write dev queue_idx m desc read_size 0
      else
        (let read_size = to_int32 (uint (of_int read_size + d_len desc :: u32)) in
         if \<not> has_next desc then Some (Inr (Some (read_size, 0)))
         else case get_desc dev queue_idx (uint (d_next desc)) m of
             Inl h \<Rightarrow> Some (Inl h)
           | Inr desc \<Rightarrow> rw_size_read dev queue_idx m desc read_size))"

definition get_desc_rw_size ::
    "VIRTIODevice \<Rightarrow> nat \<Rightarrow> int \<Rightarrow> memory \<Rightarrow> (int \<times> int) option result option" where
  "get_desc_rw_size dev queue_idx desc_idx m =
     (case get_desc dev queue_idx desc_idx m of
        Inl h \<Rightarrow> Some (Inl h)
      | Inr desc \<Rightarrow> rw_size_read dev queue_idx m desc 0)"

section \<open>Notification\<close>

type_synonym 'd device_recv = "nat \<Rightarrow> int \<Rightarrow> int \<Rightarrow> int \<Rightarrow> 'd vm \<Rightarrow> (int \<times> 'd vm) result option"

text \<open>The \<^verbatim>\<open>while\<close> loop; \<open>avail_idx\<close> was read before it.\<close>

partial_function (option) notify_loop ::
    "'d device_recv \<Rightarrow> nat \<Rightarrow> u16 \<Rightarrow> 'd vm \<Rightarrow> 'd vm result option" where
  "notify_loop device_recv queue_idx avail_idx s =
     (let qs = v_queue (vm_dev s) ! queue_idx;
          next = (\<lambda>s. s\<lparr>vm_dev := upd_queue queue_idx
            (q_last_avail_idx_update (\<lambda>i. i + 1)) (vm_dev s)\<rparr>) in
      if q_last_avail_idx qs = avail_idx then Some (Inr s)
      else
        (case virtio_read16 (q_avail_addr qs + 4 +
             ucast ((ucast (q_last_avail_idx qs) AND (q_num qs - 1)) * 2 :: u32)) (memory (vm_emu s)) of
           Inl h \<Rightarrow> Some (Inl h)
         | Inr d \<Rightarrow>
             (case get_desc_rw_size (vm_dev s) queue_idx (uint d) (memory (vm_emu s)) of
                None \<Rightarrow> None
              | Some (Inl h) \<Rightarrow> Some (Inl h)
              | Some (Inr None) \<Rightarrow> notify_loop device_recv queue_idx avail_idx (next s)
              | Some (Inr (Some (read_size, write_size))) \<Rightarrow>
                  (case device_recv queue_idx (uint d) read_size write_size s of
                     None \<Rightarrow> None
                   | Some (Inl h) \<Rightarrow> Some (Inl h)
                   | Some (Inr (ret, s)) \<Rightarrow>
                       if ret < 0 then Some (Inr s)
                       else notify_loop device_recv queue_idx avail_idx (next s)))))"

definition queue_notify :: "'d device_recv \<Rightarrow> nat \<Rightarrow> 'd vm \<Rightarrow> 'd vm result option" where
  "queue_notify device_recv queue_idx s =
     (let qs = v_queue (vm_dev s) ! queue_idx in
      if q_manual_recv qs then Some (Inr s)
      else case virtio_read16 (q_avail_addr qs + 2) (memory (vm_emu s)) of
          Inl h \<Rightarrow> Some (Inl h)
        | Inr avail_idx \<Rightarrow> notify_loop device_recv queue_idx avail_idx s)"

section \<open>Copying by pages is copying by bytes\<close>

lemma andThen_Inr_cases:
  assumes "andThen r f = Inr y" obtains x where "r = Inr x" "f x = Inr y"
  using assms by (auto simp: andThen_Inr_iff)

lemma read_bytes_add:
  "read_bytes (k + l) addr m =
     andThen (read_bytes k addr m) (\<lambda>bs. andThen (read_bytes l (addr + of_nat k) m) (\<lambda>bs'. Inr (bs @ bs')))"
proof (induction k arbitrary: addr)
  case 0
  show ?case by (cases "read_bytes l addr m") simp_all
next
  case (Suc k)
  have "addr + 1 + of_nat k = addr + of_nat (Suc k)" by (simp add: algebra_simps)
  with Suc [of "addr + 1"] show ?case
    by (simp add: andThen_assoc)
qed

lemma write_bytes_append:
  "write_bytes (bs @ bs') addr m = andThen (write_bytes bs addr m) (write_bytes bs' (addr + of_nat (length bs)))"
proof (induction bs arbitrary: addr m)
  case (Cons b bs)
  have "write_bytes (bs @ bs') (addr + 1) = (\<lambda>m. andThen (write_bytes bs (addr + 1) m)
      (write_bytes bs' (addr + of_nat (length (b # bs)))))"
    by (rule ext) (simp add: Cons algebra_simps)
  then show ?case by (simp add: andThen_assoc)
qed simp

lemma virtio_memcpy_from_ram_eq: "virtio_memcpy_from_ram addr count m = read_bytes (nat count) addr m"
proof (induction addr count m rule: virtio_memcpy_from_ram.induct)
  case (1 addr count m)
  show ?case
  proof (cases "count > 0")
    case True
    define l where "l = min count (page_rest addr)"
    have l: "0 < l" "l \<le> count" using True page_rest_bounds(1) [of addr] by (simp_all add: l_def)
    have split: "nat count = nat l + nat (count - l)" "of_int l = (of_nat (nat l) :: u64)"
      using l by simp_all
    have "virtio_memcpy_from_ram addr count m = andThen (read_bytes (nat l) addr m) (\<lambda>bs.
        andThen (virtio_memcpy_from_ram (addr + of_int l) (count - l) m) (\<lambda>bs'. Inr (bs @ bs')))"
      using True by (simp add: virtio_memcpy_from_ram.simps [of addr count m] Let_def l_def)
    also have "\<dots> = read_bytes (nat count) addr m"
      unfolding split(1) read_bytes_add split(2) [symmetric]
      by (rule andThen_cong) (simp_all add: 1 [OF True l_def])
    finally show ?thesis .
  qed (simp add: virtio_memcpy_from_ram.simps)
qed

lemma virtio_memcpy_to_ram_eq:
  "nat count \<le> length buf \<Longrightarrow>
   virtio_memcpy_to_ram addr buf count m = write_bytes (take (nat count) buf) addr m"
proof (induction addr buf count m rule: virtio_memcpy_to_ram.induct)
  case (1 addr buf count m)
  show ?case
  proof (cases "count > 0")
    case True
    define l where "l = min count (page_rest addr)"
    have l: "0 < l" "l \<le> count" using True page_rest_bounds(1) [of addr] by (simp_all add: l_def)
    have split: "nat count = nat l + nat (count - l)" "of_int l = (of_nat (nat l) :: u64)"
      using l by simp_all
    have len: "length (take (nat l) buf) = nat l" "nat (count - l) \<le> length (drop (nat l) buf)"
      using 1(2) l by simp_all
    have "virtio_memcpy_to_ram addr buf count m = andThen (write_bytes (take (nat l) buf) addr m) (\<lambda>m.
        virtio_memcpy_to_ram (addr + of_int l) (drop (nat l) buf) (count - l) m)"
      using True by (simp add: virtio_memcpy_to_ram.simps [of addr buf count m] Let_def l_def)
    also have "\<dots> = write_bytes (take (nat count) buf) addr m"
      unfolding split(1) take_add write_bytes_append len(1) split(2) [symmetric]
      by (rule andThen_cong) (use 1(1) [OF True l_def _ len(2)] in simp_all)
    finally show ?thesis .
  qed (simp add: virtio_memcpy_to_ram.simps)
qed

section \<open>Regions of RAM\<close>

text \<open>\<open>n\<close> bytes from \<open>addr\<close> on, all of them in RAM.\<close>

definition ram_region :: "u64 \<Rightarrow> nat \<Rightarrow> bool" where
  "ram_region addr n \<longleftrightarrow> (\<forall>i < n. in_ram (addr + of_nat i))"

definition ram_bytes :: "memory \<Rightarrow> u64 \<Rightarrow> nat \<Rightarrow> u8 list" where
  "ram_bytes m addr n = map (\<lambda>i. ram_byte m (addr + of_nat i)) [0..<n]"

lemma length_ram_bytes [simp]: "length (ram_bytes m addr n) = n"
  by (simp add: ram_bytes_def)

lemma ram_bytes_Suc: "ram_bytes m addr (Suc n) = ram_byte m addr # ram_bytes m (addr + 1) n"
proof -
  have "[0..<Suc n] = 0 # map Suc [0..<n]" by (simp only: upt_conv_Cons map_Suc_upt zero_less_Suc)
  then show ?thesis by (simp add: ram_bytes_def comp_def algebra_simps del: upt_Suc)
qed

lemma mem_read8_ram_byte: "in_ram a \<Longrightarrow> mem_read8 a m = Inr (ram_byte m a)"
proof -
  assume "in_ram a"
  then obtain v where v: "mem_read8 a m = Inr v" using ram8.rd_defined by blast
  have "lane a + 1 \<le> 8" using lane_less [of a] by linarith
  from ram8.rd_bytes [OF v this, of 0] have "byte_of (ucast v) 0 = ram_byte m a" by simp
  moreover have "byte_of (ucast v) 0 = v" by (rule bit_word_eqI) (auto simp: bit_simps)
  ultimately show ?thesis using v by simp
qed

lemma ram_region_Suc: "ram_region addr (Suc n) \<longleftrightarrow> in_ram addr \<and> ram_region (addr + 1) n"
proof -
  have "in_ram (addr + of_nat i)" if "in_ram addr" "\<forall>j<n. in_ram (addr + 1 + of_nat j)" "i < Suc n" for i
    using that by (cases i) (auto simp: algebra_simps)
  moreover have "in_ram (addr + 1 + of_nat j)" if "\<forall>i<Suc n. in_ram (addr + of_nat i)" "j < n" for j
    using that(1) [rule_format, of "Suc j"] that(2) by (simp add: algebra_simps)
  ultimately show ?thesis
    unfolding ram_region_def by (auto dest: spec [of _ 0])
qed

lemma read_bytes_ram: "ram_region addr n \<Longrightarrow> read_bytes n addr m = Inr (ram_bytes m addr n)"
  by (induction n arbitrary: addr)
    (auto simp: ram_region_Suc ram_bytes_Suc mem_read8_ram_byte, simp add: ram_bytes_def)

end
