(* ===== verification/Virtio_Chain.thy ===== *)
theory Virtio_Chain
  imports Virtio_Queue
begin

text \<open>
  What the queue functions do on descriptor chains: the sizes they report, the bytes they gather from
  and scatter to the chain, and the chains on which they do not return.
\<close>

section \<open>Chains\<close>

text \<open>\<open>chain dev q m d ds\<close>: from descriptor \<open>d\<close> on, the links lead through \<open>ds\<close> to an end.\<close>

inductive chain :: "VIRTIODevice \<Rightarrow> nat \<Rightarrow> memory \<Rightarrow> VIRTIODesc \<Rightarrow> VIRTIODesc list \<Rightarrow> bool"
  for dev queue_idx m where
  last: "\<not> has_next d \<Longrightarrow> chain dev queue_idx m d [d]"
| link: "has_next d \<Longrightarrow> get_desc dev queue_idx (uint (d_next d)) m = Inr d' \<Longrightarrow>
    chain dev queue_idx m d' ds \<Longrightarrow> chain dev queue_idx m d (d # ds)"

inductive_cases chain_ConsE: "chain dev queue_idx m d (x # ds)"
inductive_cases chain_NilE: "chain dev queue_idx m d []"

lemma chain_not_Nil: "\<not> chain dev queue_idx m d []"
  by (auto elim: chain_NilE)

lemma chain_hd: "chain dev queue_idx m d (x # ds) \<Longrightarrow> x = d"
  by (auto elim: chain_ConsE)

lemma chain_next:
  assumes "chain dev queue_idx m d (d # d' # ds)"
  shows "has_next d" "get_desc dev queue_idx (uint (d_next d)) m = Inr d'" "chain dev queue_idx m d' (d' # ds)"
proof -
  from assms obtain d1 where "has_next d" "get_desc dev queue_idx (uint (d_next d)) m = Inr d1"
      "chain dev queue_idx m d1 (d' # ds)"
    by (auto elim: chain_ConsE)
  with chain_hd show "has_next d" "get_desc dev queue_idx (uint (d_next d)) m = Inr d'"
      "chain dev queue_idx m d' (d' # ds)"
    by blast+
qed

lemma chain_end: "chain dev queue_idx m d [d] \<Longrightarrow> \<not> has_next d"
  by (auto elim: chain_ConsE simp: chain_not_Nil)

definition write_flag :: "VIRTIODesc \<Rightarrow> u16" where
  "write_flag d = d_flags d AND VRING_DESC_F_WRITE"

definition chain_len :: "VIRTIODesc list \<Rightarrow> int" where
  "chain_len ds = (\<Sum>d \<leftarrow> ds. uint (d_len d))"

lemma chain_len_simps [simp]: "chain_len [] = 0" "chain_len (d # ds) = uint (d_len d) + chain_len ds"
    "chain_len (ds @ ds') = chain_len ds + chain_len ds'"
  by (simp_all add: chain_len_def)

lemma chain_len_nonneg [simp]: "0 \<le> chain_len ds"
  by (induction ds) simp_all

lemma write_flag_cases: "write_flag d = 0 \<or> write_flag d = VRING_DESC_F_WRITE"
proof -
  have bit2: "bit (VRING_DESC_F_WRITE) n \<longleftrightarrow> n = 1" for n
    using bit_push_bit_iff [of 1 "1 :: u16" n] by (auto simp: bit_1_iff)
  have "write_flag d = (if bit (d_flags d) 1 then VRING_DESC_F_WRITE else 0)"
    unfolding write_flag_def by (rule bit_word_eqI) (auto simp only: bit_and_iff bit2 bit_0_eq split: if_splits)
  then show ?thesis by simp
qed

section \<open>Sizes\<close>

lemma add_len:
  assumes "0 \<le> a" "a + uint l < 2 ^ 31"
  shows "to_int32 (uint (of_int a + l :: u32)) = a + uint l"
proof -
  have a: "a < 2 ^ 31" using assms(2) uint_ge_0 [of l] by linarith
  then have "uint (of_int a :: u32) = a"
    using assms(1) by (simp add: unsigned_of_int take_bit_int_eq_self_iff)
  then have "uint (of_int a + l) = a + uint l"
    using assms by (simp add: uint_add_lem [THEN iffD1])
  then show ?thesis using assms uint_ge_0 [of l] by (simp only:) (rule to_int32_id, linarith+)
qed

lemma rw_size_write_ok:
  assumes "chain dev queue_idx m d ws" "\<forall>w \<in> set ws. write_flag w \<noteq> 0" "0 \<le> a" "a + chain_len ws < 2 ^ 31"
  shows "rw_size_write dev queue_idx m d r a = Some (Inr (Some (r, a + chain_len ws)))"
  using assms
proof (induction arbitrary: a rule: chain.induct)
  case (last d)
  then show ?case by (simp add: rw_size_write.simps add_len write_flag_def)
next
  case (link d d' ds)
  have le: "a + uint (d_len d) < 2 ^ 31"
    using link.prems(3) chain_len_nonneg [of ds] unfolding chain_len_simps by linarith
  with link show ?case
    by (subst rw_size_write.simps) (simp add: add_len write_flag_def add.assoc)
qed

lemma rw_size_write_bad:
  assumes "chain dev queue_idx m d ds" "\<exists>w \<in> set ds. write_flag w = 0"
  shows "rw_size_write dev queue_idx m d r a = Some (Inr None)"
  using assms
proof (induction arbitrary: a rule: chain.induct)
  case (last d)
  then show ?case by (simp add: rw_size_write.simps write_flag_def)
next
  case (link d d' ds)
  then show ?case by (subst rw_size_write.simps) (auto simp: write_flag_def Let_def)
qed

lemma rw_size_read_step:
  assumes "chain dev queue_idx m d (d # ds)" "write_flag d = 0" "0 \<le> a" "a + uint (d_len d) < 2 ^ 31"
  shows "rw_size_read dev queue_idx m d a =
    (if ds = [] then Some (Inr (Some (a + uint (d_len d), 0)))
     else rw_size_read dev queue_idx m (hd ds) (a + uint (d_len d)))"
  using assms
proof (cases ds)
  case Nil
  then show ?thesis
    using assms chain_end [of dev queue_idx m d]
    by (subst rw_size_read.simps) (simp add: add_len write_flag_def)
next
  case (Cons d' ds')
  then show ?thesis
    using assms chain_next [of dev queue_idx m d d' ds']
    by (subst rw_size_read.simps) (simp add: add_len write_flag_def)
qed

lemma rw_size_read_ok:
  assumes "chain dev queue_idx m d (rs @ ws)" "\<forall>x \<in> set rs. write_flag x = 0" "\<forall>x \<in> set ws. write_flag x \<noteq> 0"
    and "0 \<le> a" "a + chain_len rs < 2 ^ 31" "chain_len ws < 2 ^ 31"
  shows "rw_size_read dev queue_idx m d a = Some (Inr (Some (a + chain_len rs, chain_len ws)))"
  using assms
proof (induction rs arbitrary: d a)
  case Nil
  then obtain w ws' where ws: "ws = w # ws'" by (cases ws) (auto simp: chain_not_Nil)
  with Nil.prems(1) have "w = d" by (simp add: chain_hd)
  with Nil.prems(3) ws have "write_flag d \<noteq> 0" by simp
  then show ?case
    using Nil rw_size_write_ok [of dev queue_idx m d ws 0 a]
    by (subst rw_size_read.simps) (simp add: write_flag_def)
next
  case (Cons x rs)
  have x: "x = d" using Cons.prems(1) chain_hd by simp
  have le: "a + uint (d_len d) < 2 ^ 31" using Cons.prems(5) chain_len_nonneg [of rs] unfolding x chain_len_simps by linarith
  have step: "rw_size_read dev queue_idx m d a =
    (if rs @ ws = [] then Some (Inr (Some (a + uint (d_len d), 0)))
     else rw_size_read dev queue_idx m (hd (rs @ ws)) (a + uint (d_len d)))"
    using rw_size_read_step [of dev queue_idx m d "rs @ ws" a] Cons.prems le by (simp add: x)
  show ?case
  proof (cases "rs @ ws")
    case Nil
    then show ?thesis using step by (simp add: x)
  next
    case (Cons d' ds)
    then have ch: "chain dev queue_idx m d' (rs @ ws)"
      using Cons.prems(1) chain_next(3) [of dev queue_idx m d d' ds] by (simp add: x)
    have "rw_size_read dev queue_idx m d' (a + uint (d_len d)) =
        Some (Inr (Some (a + uint (d_len d) + chain_len rs, chain_len ws)))"
      by (rule Cons.IH [OF ch]) (use Cons.prems in \<open>simp_all add: x\<close>)
    then show ?thesis using step Cons by (simp add: x)
  qed
qed

lemma rw_size_read_bad:
  assumes "chain dev queue_idx m d (rs @ w # ws)" "\<forall>x \<in> set rs. write_flag x = 0" "write_flag w \<noteq> 0"
    and "\<exists>x \<in> set ws. write_flag x = 0" "0 \<le> a" "a + chain_len rs < 2 ^ 31"
  shows "rw_size_read dev queue_idx m d a = Some (Inr None)"
  using assms
proof (induction rs arbitrary: d a)
  case Nil
  then have "w = d" by (simp add: chain_hd)
  with Nil rw_size_write_bad [of dev queue_idx m d "w # ws" a 0] show ?case
    by (subst rw_size_read.simps) (auto simp: write_flag_def dest: rw_size_write_bad)
next
  case (Cons x rs)
  have x: "x = d" using Cons.prems(1) chain_hd by simp
  have le: "a + uint (d_len d) < 2 ^ 31" using Cons.prems(6) chain_len_nonneg [of rs] unfolding x chain_len_simps by linarith
  obtain d' ds where ds: "rs @ w # ws = d' # ds" by (cases "rs @ w # ws") auto
  have "chain dev queue_idx m d' (rs @ w # ws)"
    using Cons.prems(1) chain_next(3) [of dev queue_idx m d d' ds] by (simp add: x ds)
  moreover have "rw_size_read dev queue_idx m d a = rw_size_read dev queue_idx m d' (a + uint (d_len d))"
    using rw_size_read_step [of dev queue_idx m d "rs @ w # ws" a] Cons.prems le by (simp add: x ds)
  ultimately show ?case using Cons.IH [of d' "a + uint (d_len d)"] Cons.prems by (simp add: x)
qed

lemma rw_size_chain:
  assumes "chain dev queue_idx m d (rs @ ws)" "\<forall>x \<in> set rs. write_flag x = 0"
    and "chain_len rs < 2 ^ 31" "chain_len ws < 2 ^ 31" "ws = [] \<or> write_flag (hd ws) \<noteq> 0"
  shows "rw_size_read dev queue_idx m d 0 =
    Some (Inr (if \<forall>x \<in> set ws. write_flag x \<noteq> 0 then Some (chain_len rs, chain_len ws) else None))"
proof (cases "\<forall>x \<in> set ws. write_flag x \<noteq> 0")
  case True
  then show ?thesis using rw_size_read_ok [OF assms(1,2) True, of 0] assms(3,4) by simp
next
  case False
  with assms(5) obtain w ws' where ws: "ws = w # ws'" "write_flag w \<noteq> 0" "\<exists>x \<in> set ws'. write_flag x = 0"
    by (cases ws) auto
  then show ?thesis using rw_size_read_bad [of dev queue_idx m d rs w ws' 0] assms(1-3) False by simp
qed

text \<open>Descriptors that lead into each other forever: the loop does not end.\<close>

lemma rw_size_read_diverges:
  assumes loop: "\<And>d. d \<in> C \<Longrightarrow> write_flag d = 0 \<and> has_next d \<and>
      (\<exists>d' \<in> C. get_desc dev queue_idx (uint (d_next d)) m = Inr d')"
    and "d \<in> C"
  shows "rw_size_read dev queue_idx m d a = None"
proof (rule ccontr)
  assume "rw_size_read dev queue_idx m d a \<noteq> None"
  then obtain r where ret: "rw_size_read dev queue_idx m d a = Some r" by auto
  have "dev' = dev \<longrightarrow> queue' = queue_idx \<longrightarrow> m' = m \<longrightarrow> d' \<in> C \<longrightarrow> False"
    if "rw_size_read dev' queue' m' d' a' = Some r" for dev' queue' m' d' a' r
  proof (rule rw_size_read.raw_induct [where P = "\<lambda>dev' queue' m' d' a' r.
      dev' = dev \<longrightarrow> queue' = queue_idx \<longrightarrow> m' = m \<longrightarrow> d' \<in> C \<longrightarrow> False", OF _ that])
    fix f dev' queue' m' d' a' r
    assume IH: "\<And>dev' queue' m' d' a' r. f dev' queue' m' d' a' = Some r \<Longrightarrow>
        dev' = dev \<longrightarrow> queue' = queue_idx \<longrightarrow> m' = m \<longrightarrow> d' \<in> C \<longrightarrow> False"
      and body: "(if d_flags d' AND VRING_DESC_F_WRITE \<noteq> 0 then rw_size_write dev' queue' m' d' a' 0
        else let read_size = to_int32 (uint (of_int a' + d_len d' :: u32)) in
          if \<not> has_next d' then Some (Inr (Some (read_size, 0)))
          else case get_desc dev' queue' (uint (d_next d')) m' of Inl h \<Rightarrow> Some (Inl h)
            | Inr desc \<Rightarrow> f dev' queue' m' desc read_size) = Some r"
    show "dev' = dev \<longrightarrow> queue' = queue_idx \<longrightarrow> m' = m \<longrightarrow> d' \<in> C \<longrightarrow> False"
      using loop [of d'] body IH by (auto simp: write_flag_def Let_def)
  qed
  with ret assms(2) show False by blast
qed

section \<open>Finding an offset\<close>

lemma uint_offset:
  assumes "0 \<le> a" "a < 2 ^ 31"
  shows "uint (of_int a :: u32) = a"
  using assms by (simp add: unsigned_of_int take_bit_int_eq_self_iff)

lemma offset_less:
  assumes "0 \<le> a" "a < 2 ^ 31"
  shows "of_int a < (l :: u32) \<longleftrightarrow> a < uint l"
  by (simp add: word_less_def uint_offset [OF assms])

lemma sub_len:
  assumes "0 \<le> a" "a < 2 ^ 31" "uint l \<le> a"
  shows "to_int32 (uint (of_int a - l :: u32)) = a - uint l"
proof -
  have "uint (of_int a - l) = a - uint l"
    using assms by (simp add: uint_sub_lem [THEN iffD1] uint_offset)
  then show ?thesis using assms uint_ge_0 [of l] by (simp only:) (rule to_int32_id, linarith+)
qed

lemma seek_offset_ok:
  assumes "chain dev queue_idx m d (ds @ xs)" "\<forall>x \<in> set ds. write_flag x = f"
    and "0 \<le> offset" "offset < chain_len ds" "chain_len ds < 2 ^ 31"
  shows "\<exists>ds1 d' ds2. ds = ds1 @ d' # ds2 \<and> chain dev queue_idx m d' (d' # ds2 @ xs) \<and>
    chain_len ds1 \<le> offset \<and> offset < chain_len ds1 + uint (d_len d') \<and>
    seek_offset dev queue_idx m f d offset = Some (Inr (Some (d', offset - chain_len ds1)))"
  using assms
proof (induction ds arbitrary: d offset)
  case Nil
  then show ?case by simp
next
  case (Cons x ds)
  have x: "x = d" using Cons.prems(1) chain_hd by simp
  have off: "offset < 2 ^ 31" using Cons.prems(4,5) by linarith
  show ?case
  proof (cases "offset < uint (d_len d)")
    case True
    then have "seek_offset dev queue_idx m f d offset = Some (Inr (Some (d, offset - chain_len [])))"
      using Cons.prems(2,3) x
      by (subst seek_offset.simps) (simp add: offset_less [OF Cons.prems(3) off] flip: write_flag_def)
    then show ?thesis
      using True Cons.prems(1,3) x by (intro exI [of _ "[]"] exI [of _ d] exI [of _ ds]) simp
  next
    case False
    with Cons.prems(4) have "ds \<noteq> []" by (auto simp: x)
    then obtain d2 ds' where ds: "ds = d2 # ds'" by (cases ds) auto
    have ch: "has_next d" "get_desc dev queue_idx (uint (d_next d)) m = Inr d2"
        "chain dev queue_idx m d2 (ds @ xs)"
      using chain_next [of dev queue_idx m d d2 "ds' @ xs"] Cons.prems(1) by (simp_all add: x ds)
    have step: "seek_offset dev queue_idx m f d offset =
        seek_offset dev queue_idx m f d2 (offset - uint (d_len d))"
      using Cons.prems(2) x ch(1,2) False
      by (subst seek_offset.simps)
        (simp add: offset_less [OF Cons.prems(3) off] sub_len [OF Cons.prems(3) off] flip: write_flag_def)
    have lt: "chain_len ds < 2 ^ 31"
      using Cons.prems(5) uint_ge_0 [of "d_len d"] unfolding x chain_len_simps by linarith
    have "\<exists>ds1 d' ds2. ds = ds1 @ d' # ds2 \<and> chain dev queue_idx m d' (d' # ds2 @ xs) \<and>
        chain_len ds1 \<le> offset - uint (d_len d) \<and>
        offset - uint (d_len d) < chain_len ds1 + uint (d_len d') \<and>
        seek_offset dev queue_idx m f d2 (offset - uint (d_len d)) =
          Some (Inr (Some (d', offset - uint (d_len d) - chain_len ds1)))"
      by (rule Cons.IH [OF ch(3)])
        (use Cons.prems False lt in \<open>simp_all add: x\<close>)
    then obtain ds1 d' ds2 where "ds = ds1 @ d' # ds2" "chain dev queue_idx m d' (d' # ds2 @ xs)"
        "chain_len (d # ds1) \<le> offset" "offset < chain_len (d # ds1) + uint (d_len d')"
        "seek_offset dev queue_idx m f d offset = Some (Inr (Some (d', offset - chain_len (d # ds1))))"
      using step by (auto simp: algebra_simps)
    then show ?thesis by (intro exI [of _ "d # ds1"] exI [of _ d'] exI [of _ ds2]) (simp add: x)
  qed
qed

section \<open>Gathering\<close>

definition desc_bytes :: "memory \<Rightarrow> VIRTIODesc \<Rightarrow> u8 list" where
  "desc_bytes m d = ram_bytes m (d_addr d) (unat (d_len d))"

text \<open>The bytes of a chain, one descriptor after the other.\<close>

definition payload :: "memory \<Rightarrow> VIRTIODesc list \<Rightarrow> u8 list" where
  "payload m ds = concat (map (desc_bytes m) ds)"

definition desc_in_ram :: "VIRTIODesc \<Rightarrow> bool" where
  "desc_in_ram d \<longleftrightarrow> ram_region (d_addr d) (unat (d_len d))"

lemma payload_simps [simp]: "payload m [] = []" "payload m (d # ds) = desc_bytes m d @ payload m ds"
    "payload m (ds @ ds') = payload m ds @ payload m ds'"
  by (simp_all add: payload_def)

lemma length_desc_bytes [simp]: "length (desc_bytes m d) = unat (d_len d)"
  by (simp add: desc_bytes_def)

lemma length_payload: "length (payload m ds) = nat (chain_len ds)"
  by (induction ds) (simp_all add: nat_add_distrib)

lemma ram_bytes_slice:
  assumes "j + k \<le> n"
  shows "take k (drop j (ram_bytes m a n)) = ram_bytes m (a + of_nat j) k"
  using assms by (intro nth_equalityI) (simp_all add: ram_bytes_def add.assoc)

lemma ram_region_slice: "ram_region a n \<Longrightarrow> j + k \<le> n \<Longrightarrow> ram_region (a + of_nat j) k"
  by (simp add: ram_region_def add.assoc flip: of_nat_add)

lemma nat_fits: "0 \<le> a \<Longrightarrow> 0 \<le> b \<Longrightarrow> a + b \<le> uint (l :: u32) \<Longrightarrow> nat a + nat b \<le> unat l"
proof -
  assume ab: "0 \<le> a" "0 \<le> b" "a + b \<le> uint l"
  have "nat a + nat b = nat (a + b)" using ab by (simp add: nat_add_distrib)
  also have "\<dots> \<le> nat (uint l)" using ab(3) by (rule nat_mono)
  finally show ?thesis by (simp only: unat_eq_nat_uint)
qed

lemma copy_chunk_from:
  assumes "0 \<le> pos" "0 \<le> l" "pos + l \<le> int (length buf)" "ram_region a (nat l)"
  shows "copy_chunk False a pos l buf m =
    Inr (take (nat pos) buf @ ram_bytes m a (nat l) @ drop (nat (pos + l)) buf, m)"
proof (cases "l = 0")
  case True
  then show ?thesis by (simp add: copy_chunk_def ram_bytes_def)
next
  case False
  then show ?thesis
    using assms by (simp add: copy_chunk_def virtio_memcpy_from_ram_eq read_bytes_ram)
qed

text \<open>One round of the copy, for either direction.\<close>

lemma copy_loop_round:
  assumes "0 \<le> off" "off \<le> uint (d_len d)" "uint (d_len d) < 2 ^ 31" "0 < count" "count < 2 ^ 31"
    and "l = min count (uint (d_len d) - off)"
    and "copy_chunk tq (d_addr d + of_int off) pos l buf m = Inr (buf', m')"
  shows "copy_loop dev queue_idx tq f d off count pos buf m =
    (if count \<le> uint (d_len d) - off then Some (Inr (0, buf', m'))
     else if \<not> has_next d then Some (Inr (-1, buf', m'))
     else case get_desc dev queue_idx (uint (d_next d)) m' of
         Inl h \<Rightarrow> Some (Inl h)
       | Inr d' \<Rightarrow> if write_flag d' \<noteq> f then Some (Inr (-1, buf', m'))
           else copy_loop dev queue_idx tq f d' 0 (count - l) (pos + l) buf' m')"
proof -
  have o: "off < 2 ^ 31" using assms by linarith
  have "uint (d_len d - of_int off :: u32) = uint (d_len d) - off"
    using assms o by (simp add: uint_sub_lem [THEN iffD1] uint_offset)
  then have room: "to_int32 (uint (d_len d - of_int off :: u32)) = uint (d_len d) - off"
    using assms by (simp only:) (rule to_int32_id, linarith+)
  have l: "0 \<le> l" "l \<le> count" using assms by simp_all
  have cnt: "to_int32 (count - l) = count - l" by (rule to_int32_id) (use l assms in linarith)+
  show ?thesis
  proof (cases "count \<le> uint (d_len d) - off")
    case True
    then have "l = count" using assms(6) by simp
    then show ?thesis
      using True assms(7)
      by (subst copy_loop.simps) (simp add: room to_int32_id)
  next
    case False
    then have lv: "l = uint (d_len d) - off" using assms(6) by simp
    have off': "to_int32 (off + l) = uint (d_len d)" "of_int (uint (d_len d)) = d_len d"
      using assms lv by (simp_all add: to_int32_id)
    have "count - l \<noteq> 0" using False lv by simp
    then show ?thesis
      using False assms(7)
      by (subst copy_loop.simps)
        (simp add: room min_def lv [symmetric] cnt off' write_flag_def cong: sum.case_cong)
  qed
qed

lemma copy_loop_gathers:
  assumes "chain dev queue_idx m d (d # ds @ xs)" "\<forall>x \<in> set ds. write_flag x = f"
    and "\<forall>x \<in> set (d # ds). desc_in_ram x" "chain_len (d # ds) < 2 ^ 31"
    and "0 \<le> off" "off \<le> uint (d_len d)" "0 < count" "off + count \<le> chain_len (d # ds)"
    and "0 \<le> pos" "int (length buf) = pos + count"
  shows "copy_loop dev queue_idx False f d off count pos buf m =
    Some (Inr (0, take (nat pos) buf @ take (nat count) (drop (nat off) (payload m (d # ds))), m))"
  using assms
proof (induction ds arbitrary: d off count pos buf)
  case Nil
  have lim: "uint (d_len d) < 2 ^ 31" "count < 2 ^ 31" "count \<le> uint (d_len d) - off"
    using Nil.prems(4,5,8) unfolding chain_len_simps by linarith+
  have fits: "nat off + nat count \<le> unat (d_len d)"
    by (rule nat_fits) (use Nil.prems lim in linarith)+
  have reg: "ram_region (d_addr d + of_int off) (nat count)"
    using fits ram_region_slice [of "d_addr d" "unat (d_len d)" "nat off" "nat count"] Nil.prems lim
    by (simp add: desc_in_ram_def)
  have "copy_chunk False (d_addr d + of_int off) pos count buf m =
      Inr (take (nat pos) buf @ ram_bytes m (d_addr d + of_int off) (nat count) @ drop (nat (pos + count)) buf, m)"
    by (rule copy_chunk_from) (use Nil.prems reg in simp_all)
  moreover have "drop (nat (pos + count)) buf = []" using Nil.prems by simp
  moreover have "min count (uint (d_len d) - off) = count" using lim by simp
  moreover have "ram_bytes m (d_addr d + of_int off) (nat count) =
      take (nat count) (drop (nat off) (desc_bytes m d))"
    using fits ram_bytes_slice [of "nat off" "nat count" "unat (d_len d)" m "d_addr d"] Nil.prems
    by (simp add: desc_bytes_def)
  ultimately show ?case
    using copy_loop_round [of off d count count False pos buf m _ m dev queue_idx f] Nil.prems lim by simp
next
  case (Cons d2 ds)
  define l where "l = min count (uint (d_len d) - off)"
  have pos: "uint (d_len d) < 2 ^ 31" "count < 2 ^ 31" "chain_len (d2 # ds) < 2 ^ 31"
    using Cons.prems(4,5,8) chain_len_nonneg [of ds] uint_ge_0 [of "d_len d"] uint_ge_0 [of "d_len d2"]
    unfolding chain_len_simps by linarith+
  have l: "0 \<le> l" "l \<le> count" "off + l \<le> uint (d_len d)" using Cons.prems(6,7) by (simp_all add: l_def)
  have fits: "nat off + nat l \<le> unat (d_len d)"
    by (rule nat_fits) (use Cons.prems(5) l in linarith)+
  have reg: "ram_region (d_addr d + of_int off) (nat l)"
    using fits ram_region_slice [of "d_addr d" "unat (d_len d)" "nat off" "nat l"] Cons.prems(3,5) l
    by (simp add: desc_in_ram_def)
  define buf' where "buf' = take (nat pos) buf @ ram_bytes m (d_addr d + of_int off) (nat l) @ drop (nat (pos + l)) buf"
  have chunk: "copy_chunk False (d_addr d + of_int off) pos l buf m = Inr (buf', m)"
    unfolding buf'_def by (rule copy_chunk_from) (use Cons.prems l reg in simp_all)
  have slice: "ram_bytes m (d_addr d + of_int off) (nat l) = take (nat l) (drop (nat off) (desc_bytes m d))"
    using fits ram_bytes_slice [of "nat off" "nat l" "unat (d_len d)" m "d_addr d"] Cons.prems(5)
    by (simp add: desc_bytes_def)
  note round = copy_loop_round [OF Cons.prems(5,6) pos(1) Cons.prems(7) pos(2) l_def chunk,
      of dev queue_idx f]
  show ?case
  proof (cases "count \<le> uint (d_len d) - off")
    case True
    then have "l = count" by (simp add: l_def)
    moreover from this have "drop (nat (pos + l)) buf = []" using Cons.prems(10) by simp
    ultimately show ?thesis
      using round True slice fits by (simp add: buf'_def)
  next
    case False
    then have lv: "l = uint (d_len d) - off" by (simp add: l_def)
    have ch: "has_next d" "get_desc dev queue_idx (uint (d_next d)) m = Inr d2"
        "chain dev queue_idx m d2 (d2 # ds @ xs)"
      using chain_next [of dev queue_idx m d d2 "ds @ xs"] Cons.prems(1) by simp_all
    have len': "int (length buf') = (pos + l) + (count - l)"
      using Cons.prems(9,10) l by (simp add: buf'_def nat_add_distrib)
    have "copy_loop dev queue_idx False f d2 0 (count - l) (pos + l) buf' m =
      Some (Inr (0, take (nat (pos + l)) buf' @ take (nat (count - l)) (drop (nat 0) (payload m (d2 # ds))), m))"
      by (rule Cons.IH [OF ch(3)]) (use Cons.prems pos False lv len' l in simp_all)
    moreover have nl: "nat l = unat (d_len d) - nat off"
      unfolding lv by (simp only: nat_diff_distrib' unat_eq_nat_uint uint_ge_0 Cons.prems(5))
    moreover have "nat (pos + l) = nat pos + nat l" "nat pos + nat l \<le> length buf"
      using Cons.prems(9,10) l by (simp_all add: nat_add_distrib flip: of_nat_le_iff)
    then have "take (nat (pos + l)) buf' = take (nat pos) buf @ drop (nat off) (desc_bytes m d)"
      using slice by (simp add: buf'_def nl)
    moreover have "take (nat count) (drop (nat off) (payload m (d # d2 # ds))) =
        drop (nat off) (desc_bytes m d) @ take (nat (count - l)) (payload m (d2 # ds))"
      using False lv nl l fits by (simp add: nat_diff_distrib)
    ultimately show ?thesis
      using round False ch Cons.prems(2) by simp
  qed
qed

end
