(* ===== verification/Virtio_Copy.thy ===== *)
theory Virtio_Copy
  imports Virtio_Chain
begin

text \<open>
  Copies between a buffer of the device and a descriptor chain, as the device calls them: a gather
  returns a slice of the chain's bytes, a scatter replaces one and leaves the rest of RAM alone.
\<close>

section \<open>Writing to RAM\<close>

lemma mem_read8_eq: "mem_read8 a m = (if in_ram a then Inr (ram_byte m a) else Inl OutOfRange)"
  using mem_read8_ram_byte [of a m] ram8.rd_defined [of a m]
  by (auto simp: mem_read8_def mem_at_def in_ram_def ram_index_def)

lemma read_bytes_cong:
  assumes "\<And>i. i < n \<Longrightarrow> ram_byte m' (a + of_nat i) = ram_byte m (a + of_nat i)"
  shows "read_bytes n a m' = read_bytes n a m"
  using assms
proof (induction n arbitrary: a)
  case (Suc n)
  have "ram_byte m' a = ram_byte m a" using Suc.prems [of 0] by simp
  moreover have "read_bytes n (a + 1) m' = read_bytes n (a + 1) m"
  proof (rule Suc.IH)
    fix i assume "i < n"
    then show "ram_byte m' (a + 1 + of_nat i) = ram_byte m (a + 1 + of_nat i)"
      using Suc.prems [of "Suc i"] by (simp add: algebra_simps)
  qed
  ultimately show ?case by (simp add: mem_read8_eq)
qed simp

lemma unat_step:
  fixes a b :: u64
  assumes "b \<noteq> a"
  shows "unat (b - a) = Suc (unat (b - (a + 1)))"
proof -
  have eq: "1 + (b - (a + 1)) = b - a" by simp
  have "1 + (b - (a + 1)) \<noteq> 0" unfolding eq using assms by simp
  from unatSuc [OF this] show ?thesis unfolding eq .
qed

lemma write_bytes_ram:
  assumes "ram_region a (length bs)" "length bs < 2 ^ 64"
  obtains m' where "write_bytes bs a m = Inr m'"
    "\<And>b. ram_byte m' b = (if unat (b - a) < length bs then bs ! unat (b - a) else ram_byte m b)"
  using assms
proof (induction bs arbitrary: a m thesis)
  case Nil
  show ?case by (rule Nil(1) [of m]) simp_all
next
  case (Cons x xs)
  have ram: "in_ram a" "ram_region (a + 1) (length xs)"
    using Cons.prems(2) by (simp_all add: ram_region_Suc)
  then obtain m1 where m1: "mem_write8 a (ucast x) m = Inr m1" using ram8.wr_defined by blast
  have "lane a + 1 \<le> 8" using lane_less [of a] by linarith
  from ram8.wr_bytes [OF m1 this]
  have b1: "ram_byte m1 b = (if unat (b - a) < 1 then byte_of (ucast x) (unat (b - a)) else ram_byte m b)" for b .
  obtain m2 where m2: "write_bytes xs (a + 1) m1 = Inr m2"
    "\<And>b. ram_byte m2 b = (if unat (b - (a + 1)) < length xs then xs ! unat (b - (a + 1)) else ram_byte m1 b)"
    using Cons.IH [OF _ ram(2)] Cons.prems(3) by auto
  have wrap: "unat (a - (a + 1)) = 2 ^ 64 - 1" by (simp add: unsigned_minus_1_eq_mask mask_eq_exp_minus_1)
  show ?case
  proof (rule Cons.prems(1) [of m2])
    show "write_bytes (x # xs) a m = Inr m2" using m1 m2(1) by simp
    fix b
    show "ram_byte m2 b = (if unat (b - a) < length (x # xs) then (x # xs) ! unat (b - a) else ram_byte m b)"
    proof (cases "b = a")
      case True
      have "byte_of (ucast x) 0 = x" by (rule bit_word_eqI) (auto simp: bit_simps)
      then show ?thesis using True Cons.prems(3) wrap by (simp add: m2(2) b1)
    next
      case False
      then show ?thesis by (simp add: m2(2) b1 unat_step)
    qed
  qed
qed

section \<open>Windows\<close>

text \<open>The addresses of a descriptor's buffer and of the descriptor table.\<close>

definition window :: "u64 \<Rightarrow> nat \<Rightarrow> u64 set" where
  "window a n = {b. unat (b - a) < n}"

abbreviation desc_window :: "VIRTIODesc \<Rightarrow> u64 set" where
  "desc_window d \<equiv> window (d_addr d) (unat (d_len d))"

definition table_window :: "VIRTIODevice \<Rightarrow> nat \<Rightarrow> u64 set" where
  "table_window dev queue_idx = window (q_desc_addr (v_queue dev ! queue_idx)) (16 * 2 ^ 16)"

lemma window_of_nat: "i < n \<Longrightarrow> n < 2 ^ 64 \<Longrightarrow> a + of_nat i \<in> window a n"
  by (simp add: window_def unsigned_of_nat take_bit_nat_eq_self)

lemma window_slice:
  assumes "j + k \<le> n" "n < 2 ^ 64"
  shows "window (a + of_nat j) k \<subseteq> window a n"
proof
  fix b assume "b \<in> window (a + of_nat j) k"
  then have "b = a + of_nat j + of_nat (unat (b - (a + of_nat j)))" "unat (b - (a + of_nat j)) < k"
    by (simp_all add: window_def)
  then have "b = a + of_nat (j + unat (b - (a + of_nat j)))" "j + unat (b - (a + of_nat j)) < n"
    using assms(1) by (simp_all add: algebra_simps)
  then show "b \<in> window a n" using window_of_nat assms(2) by metis
qed

lemma window_disjoint:
  assumes "unat a + n \<le> unat b" "unat b + k < 2 ^ 64"
  shows "window a n \<inter> window b k = {}"
proof -
  have False if x: "unat (x - a) < n" "unat (x - b) < k" for x
  proof -
    have "unat x = unat (b + (x - b))" by simp
    also have "\<dots> = unat b + unat (x - b)" using x assms by (intro unat_add_lem [THEN iffD1]) simp
    finally have "unat b \<le> unat x" by simp
    moreover have "unat x = unat (a + (x - a))" by simp
    moreover have "unat (a + (x - a)) = unat a + unat (x - a)" using x assms by (intro unat_add_lem [THEN iffD1]) simp
    ultimately show False using x assms by linarith
  qed
  then show ?thesis by (auto simp: window_def)
qed

lemma ram_bytes_cong:
  assumes "\<And>b. b \<in> window a n \<Longrightarrow> ram_byte m' b = ram_byte m b" "n < 2 ^ 64"
  shows "ram_bytes m' a n = ram_bytes m a n"
  using assms window_of_nat [of _ n a] by (auto simp: ram_bytes_def)

lemma unat_len: "unat (l :: u32) < 2 ^ 64"
  using unsigned_less [of l, where 'a = nat] by (simp add: less_trans)

lemma get_desc_eq:
  "get_desc dev queue_idx i m =
     andThen (read_bytes 16 (q_desc_addr (v_queue dev ! queue_idx) + of_int i * 16) m) (\<lambda>bs. Inr (desc_of_bytes bs))"
  by (simp add: get_desc_def virtio_memcpy_from_ram_eq)

lemma get_desc_cong:
  fixes j :: u16
  assumes "\<And>b. b \<in> table_window dev queue_idx \<Longrightarrow> ram_byte m' b = ram_byte m b"
  shows "get_desc dev queue_idx (uint j) m' = get_desc dev queue_idx (uint j) m"
proof -
  define a where "a = q_desc_addr (v_queue dev ! queue_idx)"
  have j: "of_int (uint j) * 16 = (of_nat (unat j * 16) :: u64)" by simp
  have lt: "unat j * 16 + 16 \<le> 16 * 2 ^ 16" using unsigned_less [of j, where 'a = nat] by simp
  have "read_bytes 16 (a + of_int (uint j) * 16) m' = read_bytes 16 (a + of_int (uint j) * 16) m"
  proof (rule read_bytes_cong)
    fix i :: nat assume i: "i < 16"
    have "a + of_int (uint j) * 16 + of_nat i = a + of_nat (unat j * 16 + i)"
      unfolding j by (simp only: of_nat_add add.assoc)
    moreover have "a + of_nat (unat j * 16 + i) \<in> window a (16 * 2 ^ 16)"
      by (rule window_of_nat) (use i lt in simp_all)
    ultimately show "ram_byte m' (a + of_int (uint j) * 16 + of_nat i) =
        ram_byte m (a + of_int (uint j) * 16 + of_nat i)"
      using assms [of "a + of_nat (unat j * 16 + i)"] by (simp only: table_window_def a_def)
  qed
  then show ?thesis by (simp add: get_desc_eq a_def)
qed

lemma chain_cong:
  assumes "chain dev queue_idx m d ds" "\<And>b. b \<in> table_window dev queue_idx \<Longrightarrow> ram_byte m' b = ram_byte m b"
  shows "chain dev queue_idx m' d ds"
  using assms(1)
proof (induction rule: chain.induct)
  case (link d d' ds)
  then show ?case by (intro chain.link [of d dev queue_idx m' d' ds]) (simp_all add: get_desc_cong [OF assms(2)])
qed (rule chain.last)

section \<open>Gathering from a chain\<close>

lemma copy_gathers:
  assumes "get_desc dev queue_idx desc_idx m = Inr d" "chain dev queue_idx m d (rs @ ws)"
    and "\<forall>x \<in> set rs. write_flag x = 0 \<and> desc_in_ram x" "chain_len rs < 2 ^ 31"
    and "0 \<le> offset" "0 < count" "offset + count \<le> chain_len rs" "int (length buf) = count"
  shows "memcpy_from_queue dev buf queue_idx desc_idx offset count m =
    Some (Inr (0, take (nat count) (drop (nat offset) (payload m rs)), m))"
proof -
  obtain ds1 d' ds2 where ds: "rs = ds1 @ d' # ds2" "chain dev queue_idx m d' (d' # ds2 @ ws)"
      "chain_len ds1 \<le> offset" "offset < chain_len ds1 + uint (d_len d')"
      "seek_offset dev queue_idx m 0 d offset = Some (Inr (Some (d', offset - chain_len ds1)))"
    using seek_offset_ok [OF assms(2), of 0 offset] assms(3-8) by auto
  have len: "chain_len (d' # ds2) < 2 ^ 31"
    using assms(4) chain_len_nonneg [of ds1] unfolding ds(1) chain_len_simps by linarith
  have "copy_loop dev queue_idx False 0 d' (offset - chain_len ds1) count 0 buf m =
      Some (Inr (0, take (nat 0) buf @
        take (nat count) (drop (nat (offset - chain_len ds1)) (payload m (d' # ds2))), m))"
    by (rule copy_loop_gathers [OF ds(2)]) (use assms ds len in auto)
  moreover have "drop (nat (offset - chain_len ds1)) (payload m (d' # ds2)) = drop (nat offset) (payload m rs)"
    using ds(3) by (simp add: ds(1) length_payload nat_diff_distrib)
  ultimately show ?thesis
    using assms(1,6) ds(5) by (simp add: memcpy_from_queue_def memcpy_to_from_queue_def del: payload_simps)
qed

section \<open>Scattering to a chain\<close>

lemma copy_chunk_to:
  assumes "0 \<le> pos" "0 \<le> l" "pos + l \<le> int (length buf)" "ram_region a (nat l)" "l < 2 ^ 31"
  obtains m' where "copy_chunk True a pos l buf m = Inr (buf, m')"
    "\<And>b. ram_byte m' b =
      (if b \<in> window a (nat l) then buf ! (nat pos + unat (b - a)) else ram_byte m b)"
proof (cases "l = 0")
  case True
  then show ?thesis by (intro that [of m]) (simp_all add: copy_chunk_def window_def)
next
  case False
  define bs where "bs = take (nat l) (drop (nat pos) buf)"
  have len: "length bs = nat l" using assms by (simp add: bs_def)
  have lt: "ram_region a (length bs)" "length bs < 2 ^ 64" using assms(4,5) by (simp_all add: len)
  obtain m' where m': "write_bytes bs a m = Inr m'"
      "\<And>b. ram_byte m' b = (if unat (b - a) < length bs then bs ! unat (b - a) else ram_byte m b)"
    using write_bytes_ram [OF lt] by blast
  show ?thesis
  proof (rule that [of m'])
    show "copy_chunk True a pos l buf m = Inr (buf, m')"
      using assms False m'(1) len
      by (simp add: copy_chunk_def virtio_memcpy_to_ram_eq flip: bs_def)
    show "ram_byte m' b =
        (if b \<in> window a (nat l) then buf ! (nat pos + unat (b - a)) else ram_byte m b)" for b
      using assms by (simp add: m'(2) len window_def bs_def)
  qed
qed

text \<open>The buffers the device writes lie apart from each other and from the descriptor table.\<close>

definition separate :: "VIRTIODevice \<Rightarrow> nat \<Rightarrow> VIRTIODesc list \<Rightarrow> bool" where
  "separate dev queue_idx ds \<longleftrightarrow>
     sorted_wrt (\<lambda>x y. desc_window x \<inter> desc_window y = {}) ds \<and>
     (\<forall>x \<in> set ds. desc_window x \<inter> table_window dev queue_idx = {})"

text \<open>\<open>splice j xs ys\<close>: \<open>ys\<close> with the elements from \<open>j\<close> on replaced by \<open>xs\<close>.\<close>

definition splice :: "nat \<Rightarrow> 'a list \<Rightarrow> 'a list \<Rightarrow> 'a list" where
  "splice j xs ys = take j ys @ xs @ drop (j + length xs) ys"

lemma desc_bytes_splice:
  assumes "\<And>b. ram_byte m' b = (if b \<in> window (d_addr d + of_nat j) (length xs)
      then xs ! unat (b - (d_addr d + of_nat j)) else ram_byte m b)"
    and "j + length xs \<le> unat (d_len d)"
  shows "desc_bytes m' d = splice j xs (desc_bytes m d)"
proof (rule nth_equalityI)
  show "length (desc_bytes m' d) = length (splice j xs (desc_bytes m d))"
    using assms(2) by (simp add: splice_def)
  fix i assume "i < length (desc_bytes m' d)"
  then have i: "i < unat (d_len d)" by simp
  have lt: "unat (d_len d) < 2 ^ 64" by (rule unat_len)
  have in_w: "d_addr d + of_nat i \<in> window (d_addr d + of_nat j) (length xs) \<longleftrightarrow> j \<le> i \<and> i < j + length xs"
    and off: "j \<le> i \<Longrightarrow> unat (d_addr d + of_nat i - (d_addr d + of_nat j)) = i - j"
  proof -
    have diff: "d_addr d + of_nat i - (d_addr d + of_nat j) = (of_nat i - of_nat j :: u64)" by simp
    have nat_id: "unat (of_nat k :: u64) = k" if "k \<le> unat (d_len d)" for k
      using that lt by (simp add: unsigned_of_nat take_bit_nat_eq_self)
    show *: "unat (d_addr d + of_nat i - (d_addr d + of_nat j)) = i - j" if "j \<le> i"
      using that i nat_id [of "i - j"] unfolding diff by (simp add: of_nat_diff)
    have "unat (of_nat i - of_nat j :: u64) = 2 ^ 64 + i - j" if "i < j"
      using that i assms(2) lt nat_id [of i] nat_id [of j] by (simp add: unat_sub_if_size word_size word_le_nat_alt)
    then have "\<not> unat (of_nat i - of_nat j :: u64) < length xs" if "i < j"
      using that assms(2) lt by simp
    then show "d_addr d + of_nat i \<in> window (d_addr d + of_nat j) (length xs) \<longleftrightarrow> j \<le> i \<and> i < j + length xs"
      using * unfolding window_def diff mem_Collect_eq by (cases "j \<le> i") auto
  qed
  have "desc_bytes m' d ! i = ram_byte m' (d_addr d + of_nat i)" "desc_bytes m d ! i = ram_byte m (d_addr d + of_nat i)"
    using i by (simp_all add: desc_bytes_def ram_bytes_def)
  then show "desc_bytes m' d ! i = splice j xs (desc_bytes m d) ! i"
    using i assms(2) off unfolding splice_def nth_append assms(1) in_w by auto
qed

lemma copy_chunk_scatters:
  assumes "0 \<le> off" "0 \<le> l" "off + l \<le> uint (d_len d)" "uint (d_len d) < 2 ^ 31" "desc_in_ram d"
    and "0 \<le> pos" "pos + l \<le> int (length buf)"
  obtains m' where "copy_chunk True (d_addr d + of_int off) pos l buf m = Inr (buf, m')"
    "desc_bytes m' d = splice (nat off) (take (nat l) (drop (nat pos) buf)) (desc_bytes m d)"
    "\<And>b. b \<notin> desc_window d \<Longrightarrow> ram_byte m' b = ram_byte m b"
proof -
  define bs where "bs = take (nat l) (drop (nat pos) buf)"
  have len: "length bs = nat l" using assms by (simp add: bs_def)
  have fits: "nat off + nat l \<le> unat (d_len d)" by (rule nat_fits) (use assms in linarith)+
  have a: "d_addr d + of_int off = d_addr d + of_nat (nat off)" using assms(1) by simp
  have reg: "ram_region (d_addr d + of_int off) (nat l)"
    using ram_region_slice [OF _ fits] assms(5) unfolding a by (simp add: desc_in_ram_def)
  have lt: "l < 2 ^ 31" using assms by linarith
  obtain m' where m': "copy_chunk True (d_addr d + of_int off) pos l buf m = Inr (buf, m')"
    "\<And>b. ram_byte m' b = (if b \<in> window (d_addr d + of_int off) (nat l)
      then buf ! (nat pos + unat (b - (d_addr d + of_int off))) else ram_byte m b)"
    by (rule copy_chunk_to [OF assms(6,2,7) reg lt, of m]) (rule that)
  show ?thesis
  proof (rule that [of m'])
    show "copy_chunk True (d_addr d + of_int off) pos l buf m = Inr (buf, m')" by (fact m')
    have "desc_bytes m' d = splice (nat off) bs (desc_bytes m d)"
    proof (rule desc_bytes_splice)
      show "nat off + length bs \<le> unat (d_len d)" using fits by (simp only: len)
      have "bs ! k = buf ! (nat pos + k)" if "k < nat l" for k
        using that assms(6,7) by (simp add: bs_def)
      then show "ram_byte m' b = (if b \<in> window (d_addr d + of_nat (nat off)) (length bs)
          then bs ! unat (b - (d_addr d + of_nat (nat off))) else ram_byte m b)" for b
        unfolding m'(2) a len window_def by simp
    qed
    then show "desc_bytes m' d = splice (nat off) (take (nat l) (drop (nat pos) buf)) (desc_bytes m d)"
      by (simp only: bs_def)
    have "window (d_addr d + of_int off) (nat l) \<subseteq> desc_window d"
      unfolding a by (rule window_slice [OF fits unat_len])
    then show "ram_byte m' b = ram_byte m b" if "b \<notin> desc_window d" for b
      using that by (auto simp: m'(2))
  qed
qed

lemma payload_cong:
  assumes "\<And>d b. d \<in> set ds \<Longrightarrow> b \<in> desc_window d \<Longrightarrow> ram_byte m' b = ram_byte m b"
  shows "payload m' ds = payload m ds"
  using assms
proof (induction ds)
  case (Cons d ds)
  have "desc_bytes m' d = desc_bytes m d"
    unfolding desc_bytes_def by (rule ram_bytes_cong) (use Cons.prems unat_len in auto)
  moreover have "payload m' ds = payload m ds" by (rule Cons.IH) (use Cons.prems in auto)
  ultimately show ?case by simp
qed simp

lemma separate_Cons:
  "separate dev queue_idx (d # ds) \<longleftrightarrow> desc_window d \<inter> table_window dev queue_idx = {} \<and>
     (\<forall>x \<in> set ds. desc_window d \<inter> desc_window x = {}) \<and> separate dev queue_idx ds"
  by (auto simp: separate_def)

lemma splice_append_left: "j + length xs \<le> length ys \<Longrightarrow> splice j xs (ys @ zs) = splice j xs ys @ zs"
  by (simp add: splice_def)

lemma splice_append_over:
  "j \<le> length ys \<Longrightarrow> k = length ys - j \<Longrightarrow> k \<le> length xs \<Longrightarrow>
   splice j xs (ys @ zs) = splice j (take k xs) ys @ splice 0 (drop k xs) zs"
  by (simp add: splice_def add.commute flip: append_assoc) (simp add: append_assoc)

lemma copy_loop_scatters:
  assumes "chain dev queue_idx m d (d # ds @ xs)" "\<forall>x \<in> set ds. write_flag x = f"
    and "\<forall>x \<in> set (d # ds). desc_in_ram x" "chain_len (d # ds) < 2 ^ 31" "separate dev queue_idx (d # ds)"
    and "0 \<le> off" "off \<le> uint (d_len d)" "0 < count" "off + count \<le> chain_len (d # ds)"
    and "0 \<le> pos" "int (length buf) = pos + count"
  shows "\<exists>m'. copy_loop dev queue_idx True f d off count pos buf m = Some (Inr (0, buf, m')) \<and>
    payload m' (d # ds) = splice (nat off) (drop (nat pos) buf) (payload m (d # ds)) \<and>
    (\<forall>b. b \<notin> (\<Union>x \<in> set (d # ds). desc_window x) \<longrightarrow> ram_byte m' b = ram_byte m b)"
  using assms
proof (induction ds arbitrary: d m off count pos)
  case Nil
  have lim: "uint (d_len d) < 2 ^ 31" "count < 2 ^ 31" "count \<le> uint (d_len d) - off"
    using Nil.prems(4,6,9) unfolding chain_len_simps by linarith+
  obtain m' where m': "copy_chunk True (d_addr d + of_int off) pos count buf m = Inr (buf, m')"
    "desc_bytes m' d = splice (nat off) (take (nat count) (drop (nat pos) buf)) (desc_bytes m d)"
    "\<And>b. b \<notin> desc_window d \<Longrightarrow> ram_byte m' b = ram_byte m b"
    by (rule copy_chunk_scatters [of off count d pos buf m]) (use Nil.prems lim in simp_all)
  have "take (nat count) (drop (nat pos) buf) = drop (nat pos) buf" using Nil.prems by simp
  moreover have "min count (uint (d_len d) - off) = count" using lim by simp
  ultimately show ?case
    using copy_loop_round [of off d count count True pos buf m buf m' dev queue_idx f] Nil.prems lim m'
    by simp
next
  case (Cons d2 ds)
  define l where "l = min count (uint (d_len d) - off)"
  have lim: "uint (d_len d) < 2 ^ 31" "count < 2 ^ 31" "chain_len (d2 # ds) < 2 ^ 31"
    using Cons.prems(4,6,9) chain_len_nonneg [of ds] uint_ge_0 [of "d_len d"] uint_ge_0 [of "d_len d2"]
    unfolding chain_len_simps by linarith+
  have l: "0 \<le> l" "l \<le> count" "off + l \<le> uint (d_len d)" using Cons.prems(7,8) by (simp_all add: l_def)
  obtain m1 where m1: "copy_chunk True (d_addr d + of_int off) pos l buf m = Inr (buf, m1)"
    "desc_bytes m1 d = splice (nat off) (take (nat l) (drop (nat pos) buf)) (desc_bytes m d)"
    "\<And>b. b \<notin> desc_window d \<Longrightarrow> ram_byte m1 b = ram_byte m b"
    by (rule copy_chunk_scatters [of off l d pos buf m]) (use Cons.prems lim l in simp_all)
  note round = copy_loop_round [OF Cons.prems(6,7) lim(1) Cons.prems(8) lim(2) l_def m1(1),
      of dev queue_idx f]
  have rest: "payload m1 (d2 # ds) = payload m (d2 # ds)"
    by (rule payload_cong, rule m1(3)) (use Cons.prems(5) in \<open>auto simp: separate_Cons\<close>)
  have table: "ram_byte m1 b = ram_byte m b" if "b \<in> table_window dev queue_idx" for b
    using that Cons.prems(5) m1(3) by (auto simp: separate_Cons)
  show ?case
  proof (cases "count \<le> uint (d_len d) - off")
    case True
    then have "l = count" by (simp add: l_def)
    then have "take (nat l) (drop (nat pos) buf) = drop (nat pos) buf"
        "nat off + length (drop (nat pos) buf) \<le> length (desc_bytes m d)"
      using Cons.prems nat_fits [of off count "d_len d"] True by (simp_all add: nat_diff_distrib)
    then have "payload m1 (d # d2 # ds) = splice (nat off) (drop (nat pos) buf) (payload m (d # d2 # ds))"
      using rest m1(2) by (simp add: splice_append_left)
    then show ?thesis
      using round True m1(3) by (intro exI [of _ m1]) auto
  next
    case False
    then have lv: "l = uint (d_len d) - off" by (simp add: l_def)
    have ch: "has_next d" "get_desc dev queue_idx (uint (d_next d)) m = Inr d2"
        "chain dev queue_idx m d2 (d2 # ds @ xs)"
      using chain_next [of dev queue_idx m d d2 "ds @ xs"] Cons.prems(1) by simp_all
    have ch1: "get_desc dev queue_idx (uint (d_next d)) m1 = Inr d2" "chain dev queue_idx m1 d2 (d2 # ds @ xs)"
      using ch(2) get_desc_cong [OF table] chain_cong [OF ch(3) table] by auto
    have "\<exists>m'. copy_loop dev queue_idx True f d2 0 (count - l) (pos + l) buf m1 = Some (Inr (0, buf, m')) \<and>
        payload m' (d2 # ds) = splice (nat 0) (drop (nat (pos + l)) buf) (payload m1 (d2 # ds)) \<and>
        (\<forall>b. b \<notin> (\<Union>x \<in> set (d2 # ds). desc_window x) \<longrightarrow> ram_byte m' b = ram_byte m1 b)"
      by (rule Cons.IH [OF ch1(2)])
        (use Cons.prems lim False lv l in \<open>simp_all add: separate_Cons\<close>)
    then obtain m' where m': "copy_loop dev queue_idx True f d2 0 (count - l) (pos + l) buf m1 = Some (Inr (0, buf, m'))"
        "payload m' (d2 # ds) = splice 0 (drop (nat (pos + l)) buf) (payload m (d2 # ds))"
        "\<And>b. b \<notin> (\<Union>x \<in> set (d2 # ds). desc_window x) \<Longrightarrow> ram_byte m' b = ram_byte m1 b"
      using rest by auto
    have "payload m' [d] = payload m1 [d]"
      by (rule payload_cong, rule m'(3)) (use Cons.prems(5) in \<open>auto simp: separate_Cons\<close>)
    moreover have nl: "nat l = unat (d_len d) - nat off"
      unfolding lv by (simp only: nat_diff_distrib' unat_eq_nat_uint uint_ge_0 Cons.prems(6))
    moreover have "nat off \<le> unat (d_len d)" "nat l \<le> length (drop (nat pos) buf)"
      using nat_fits [OF Cons.prems(6) l(1,3)] Cons.prems(10,11) l by (simp_all add: nat_diff_distrib)
    moreover have "drop (nat (pos + l)) buf = drop (nat l) (drop (nat pos) buf)"
      using Cons.prems(10) l by (simp add: nat_add_distrib add.commute)
    ultimately have "payload m' (d # d2 # ds) =
        splice (nat off) (drop (nat pos) buf) (payload m (d # d2 # ds))"
      using splice_append_over [of "nat off" "desc_bytes m d" "nat l" "drop (nat pos) buf" "payload m (d2 # ds)"]
        m'(2) m1(2) by simp
    then show ?thesis
      using round False ch(1) ch1(1) Cons.prems(2) m'(1,3) m1(3) by (intro exI [of _ m']) auto
  qed
qed

lemma skip_read_ok:
  assumes "chain dev queue_idx m d (rs @ w # ws)" "\<forall>x \<in> set rs. write_flag x = 0" "write_flag w \<noteq> 0"
  shows "skip_read dev queue_idx m d = Some (Inr (Some w)) \<and> chain dev queue_idx m w (w # ws)"
  using assms
proof (induction rs arbitrary: d)
  case Nil
  then have "w = d" by (simp add: chain_hd)
  with Nil write_flag_cases [of d] show ?case by (subst skip_read.simps) (simp add: write_flag_def)
next
  case (Cons x rs)
  have x: "x = d" using Cons.prems(1) by (simp add: chain_hd)
  obtain d' ds where ds: "rs @ w # ws = d' # ds" by (cases "rs @ w # ws") auto
  have ch: "has_next d" "get_desc dev queue_idx (uint (d_next d)) m = Inr d'" "chain dev queue_idx m d' (rs @ w # ws)"
    using chain_next [of dev queue_idx m d d' ds] Cons.prems(1) by (simp_all add: x ds)
  have "skip_read dev queue_idx m d = skip_read dev queue_idx m d'"
    using Cons.prems(2) ch(1,2) by (subst skip_read.simps) (simp add: write_flag_def x)
  with Cons.IH [OF ch(3)] Cons.prems show ?case by simp
qed

lemma chain_len_fits:
  assumes "chain_len (ds1 @ d' # ds2) < 2 ^ 31"
  shows "chain_len (d' # ds2) < 2 ^ 31"
  using assms chain_len_nonneg [of ds1] unfolding chain_len_simps by linarith

lemma copy_scatters:
  assumes "get_desc dev queue_idx desc_idx m = Inr d" "chain dev queue_idx m d (rs @ ws)"
    and "\<forall>x \<in> set rs. write_flag x = 0" "\<forall>x \<in> set ws. write_flag x \<noteq> 0 \<and> desc_in_ram x"
    and "chain_len ws < 2 ^ 31" "separate dev queue_idx ws"
    and "0 \<le> offset" "0 < count" "offset + count \<le> chain_len ws" "int (length buf) = count"
  shows "\<exists>m'. memcpy_to_queue dev queue_idx desc_idx offset buf count m = Some (Inr (0, buf, m')) \<and>
    payload m' ws = splice (nat offset) buf (payload m ws) \<and>
    (\<forall>b. b \<notin> (\<Union>x \<in> set ws. desc_window x) \<longrightarrow> ram_byte m' b = ram_byte m b)"
proof -
  have fl: "\<forall>x \<in> set ws. write_flag x = VRING_DESC_F_WRITE" using assms(4) write_flag_cases by blast
  obtain w ws' where ws: "ws = w # ws'" using assms(7-9) by (cases ws) auto
  have skip: "skip_read dev queue_idx m d = Some (Inr (Some w))" "chain dev queue_idx m w (ws @ [])"
    using skip_read_ok [of dev queue_idx m d rs w ws'] assms(2-4) by (simp_all add: ws)
  obtain ds1 d' ds2 where ds: "ws = ds1 @ d' # ds2" "chain dev queue_idx m d' (d' # ds2 @ [])"
      "chain_len ds1 \<le> offset" "offset < chain_len ds1 + uint (d_len d')"
      "seek_offset dev queue_idx m VRING_DESC_F_WRITE w offset = Some (Inr (Some (d', offset - chain_len ds1)))"
    using seek_offset_ok [OF skip(2), of VRING_DESC_F_WRITE offset] fl assms(5-9) by auto
  have sep: "separate dev queue_idx (d' # ds2)" "\<forall>x \<in> set ds1. \<forall>y \<in> set (d' # ds2). desc_window x \<inter> desc_window y = {}"
    using assms(6) unfolding ds(1) separate_def by (auto simp: sorted_wrt_append)
  have "\<exists>m'. copy_loop dev queue_idx True VRING_DESC_F_WRITE d' (offset - chain_len ds1) count 0 buf m = Some (Inr (0, buf, m')) \<and>
      payload m' (d' # ds2) = splice (nat (offset - chain_len ds1)) (drop (nat 0) buf) (payload m (d' # ds2)) \<and>
      (\<forall>b. b \<notin> (\<Union>x \<in> set (d' # ds2). desc_window x) \<longrightarrow> ram_byte m' b = ram_byte m b)"
    by (rule copy_loop_scatters [OF ds(2)])
      (use assms ds(1,3,4) fl chain_len_fits [of ds1 d' ds2] sep(1) in auto)
  then obtain m' where m': "copy_loop dev queue_idx True VRING_DESC_F_WRITE d' (offset - chain_len ds1) count 0 buf m = Some (Inr (0, buf, m'))"
      "payload m' (d' # ds2) = splice (nat (offset - chain_len ds1)) buf (payload m (d' # ds2))"
      "\<And>b. b \<notin> (\<Union>x \<in> set (d' # ds2). desc_window x) \<Longrightarrow> ram_byte m' b = ram_byte m b" by auto
  have "payload m' ds1 = payload m ds1"
    by (rule payload_cong, rule m'(3)) (use sep(2) in fastforce)
  moreover have "nat offset = length (payload m ds1) + nat (offset - chain_len ds1)"
    using ds(3) by (simp add: length_payload nat_diff_distrib flip: nat_add_distrib)
  ultimately have "payload m' ws = splice (nat offset) buf (payload m ws)"
    using m'(2) unfolding ds(1) by (simp add: splice_def del: payload_simps(2))
  then show ?thesis
    using assms(1,8) skip(1) ds(1,5) m'(1,3)
    by (intro exI [of _ m']) (auto simp: memcpy_to_queue_def memcpy_to_from_queue_def)
qed

end
