(* ===== verification/Virtio_Ring.thy ===== *)
theory Virtio_Ring
  imports Virtio_Copy
begin

text \<open>
  The rings of a queue: what returning a descriptor does to the used ring and the interrupt line, and
  how far the notification loop advances through the available ring.
\<close>

section \<open>Alignment\<close>

lemma lane_mod: "lane a = unat a mod 8"
  by (simp add: lane_def unat_mod)

lemma lane_add: "lane (a + of_nat j) = (lane a + j) mod 8"
proof -
  have mm: "x mod 2 ^ 64 mod 8 = x mod 8" for x :: nat
    by (rule mod_mod_cancel) simp
  have "unat (a + of_nat j) = (unat a + unat (of_nat j :: u64)) mod 2 ^ 64"
    by (simp add: unat_word_ariths)
  then have "unat (a + of_nat j) mod 8 = (unat a + unat (of_nat j :: u64)) mod 8"
    by (simp only: mm)
  also have "\<dots> = (unat a mod 8 + unat (of_nat j :: u64) mod 8) mod 8"
    by (simp only: mod_add_eq)
  also have "unat (of_nat j :: u64) mod 8 = j mod 8"
    using mm [of j] by (simp add: unsigned_of_nat take_bit_eq_mod)
  finally show ?thesis by (simp add: lane_mod mod_simps)
qed

lemma aligned_lane:
  "a AND 1 = 0 \<longleftrightarrow> lane a mod 2 = 0" "a AND 3 = 0 \<longleftrightarrow> lane a mod 4 = 0" for a :: u64
proof -
  have "a AND 1 = take_bit 1 a" "a AND 3 = take_bit 2 a"
    by (simp_all add: take_bit_eq_mask mask_eq_exp_minus_1)
  moreover have "take_bit 1 a = 0 \<longleftrightarrow> unat a mod 2 = 0" "take_bit 2 a = 0 \<longleftrightarrow> unat a mod 4 = 0"
    unfolding word_unat_eq_iff unsigned_take_bit_eq by (simp_all add: take_bit_eq_mod)
  moreover have "unat a mod 8 mod 2 = unat a mod 2" "unat a mod 8 mod 4 = unat a mod 4"
    by (simp_all add: mod_mod_cancel)
  ultimately show "a AND 1 = 0 \<longleftrightarrow> lane a mod 2 = 0" "a AND 3 = 0 \<longleftrightarrow> lane a mod 4 = 0"
    by (simp_all only: lane_mod)
qed

section \<open>Reading beside a write\<close>

context ram_port
begin

lemma rd_cong:
  assumes "lane a + n \<le> 8" "\<And>i. i < n \<Longrightarrow> ram_byte m' (a + of_nat i) = ram_byte m (a + of_nat i)"
  shows "rd a m' = rd a m"
proof (cases "in_ram a")
  case True
  then obtain v v' where v: "rd a m = Inr v" "rd a m' = Inr v'" using rd_defined by blast
  have same: "byte_of (ucast v) i = byte_of (ucast v') i" if "i < n" for i
    using rd_bytes [OF v(1) assms(1) that] rd_bytes [OF v(2) assms(1) that] assms(2) [OF that] by simp
  have "v = v'"
  proof (rule bit_word_eqI)
    fix k assume k: "k < LENGTH('v)"
    then have "k div 8 < n" "k mod 8 < 8" "8 * (k div 8) + k mod 8 = k"
      using value_width by (simp_all add: less_mult_imp_div_less)
    with arg_cong [OF same [of "k div 8"], of "\<lambda>w. bit w (k mod 8)"] k value_width width
    show "bit v k = bit v' k" by (simp add: bit_simps)
  qed
  with v show ?thesis by simp
qed (simp add: rd_word mem_at_def in_ram_def)

lemma rd_window:
  assumes "lane a + n \<le> 8" "\<And>b. b \<in> window a n \<Longrightarrow> ram_byte m' b = ram_byte m b"
  shows "rd a m' = rd a m"
  by (rule rd_cong [OF assms(1)]) (use assms(2) window_of_nat [of _ n a] width in simp)

lemma wr_window:
  assumes "wr a v m = Inr m'" "lane a + n \<le> 8"
  shows "b \<notin> window a n \<Longrightarrow> ram_byte m' b = ram_byte m b"
  by (simp add: wr_bytes [OF assms] window_def)

end

section \<open>The used ring\<close>

lemma window_offset_disjoint:
  assumes "j + n \<le> k" "k + l < 2 ^ 63"
  shows "window (a + of_nat j) n \<inter> window (a + of_nat k) l = {}"
proof -
  have False if x: "unat (x - (a + of_nat j)) < n" "unat (x - (a + of_nat k)) < l" for x
  proof -
    define y z where "y = unat (x - (a + of_nat j))" and "z = unat (x - (a + of_nat k))"
    have "of_nat y = x - (a + of_nat j)" "of_nat z = x - (a + of_nat k)" by (simp_all add: y_def z_def)
    then have "a + of_nat (y + j) = a + (of_nat (z + k) :: u64)" by (simp add: algebra_simps)
    then have "of_nat (y + j) = (of_nat (z + k) :: u64)" by (simp only: add_left_cancel)
    moreover have "y + j < 2 ^ 64" "z + k < 2 ^ 64" using assms x by (simp_all add: y_def z_def)
    ultimately have "y + j = z + k"
      unfolding word_of_nat_eq_iff by (simp add: take_bit_nat_eq_self)
    with x assms show False by (simp add: y_def z_def)
  qed
  then show ?thesis by (auto simp: window_def)
qed

text \<open>Where the used ring keeps its next entry, as an offset from the start of the ring.\<close>

definition used_entry :: "u16 \<Rightarrow> u32 \<Rightarrow> nat" where
  "used_entry index num = 4 + 8 * unat (ucast index AND (num - 1))"

lemma ring_index_less: "unat (ucast (index :: u16) AND (num - 1) :: u32) < 2 ^ 16"
proof -
  have "ucast index AND (num - 1) \<le> (ucast index :: u32)" by (simp add: word_and_le2)
  then have "unat (ucast index AND (num - 1)) \<le> unat (ucast index :: u32)" by (simp only: word_le_nat_alt)
  also have "\<dots> < 2 ^ 16"
    using unsigned_less [of index, where 'a = nat] by (simp add: unsigned_ucast_eq take_bit_nat_eq_self)
  finally show ?thesis .
qed

lemma used_entry_bound: "used_entry index num + 8 < 2 ^ 63"
  using ring_index_less [of index num] by (simp add: used_entry_def)

lemma used_entry_addr:
  "base + 4 + ucast ((ucast index AND (num - 1)) * 8 :: u32) = base + of_nat (used_entry index num)"
  for base :: u64
proof -
  define x where "x = (ucast index AND (num - 1) :: u32)"
  have "unat x < 2 ^ 16" using ring_index_less [of index num] by (simp add: x_def)
  then have "unat (x * 8) = unat x * 8" by (simp add: unat_word_ariths)
  then have "ucast (x * 8) = (of_nat (unat x * 8) :: u64)" by (metis unsigned_of_nat of_nat_unat)
  then show ?thesis by (simp add: used_entry_def algebra_simps flip: x_def)
qed

text \<open>A ring the device can use: aligned, with the index and the entries of the ring in RAM.\<close>

definition used_ring_ok :: "u64 \<Rightarrow> u16 \<Rightarrow> u32 \<Rightarrow> bool" where
  "used_ring_ok base index num \<longleftrightarrow> base AND 3 = 0 \<and> in_ram (base + 2) \<and>
     in_ram (base + of_nat (used_entry index num)) \<and> in_ram (base + of_nat (used_entry index num) + 4)"

definition used_window :: "u64 \<Rightarrow> u16 \<Rightarrow> u32 \<Rightarrow> u64 set" where
  "used_window base index num = window (base + 2) 2 \<union> window (base + of_nat (used_entry index num)) 8"

lemma used_lanes:
  assumes "base AND 3 = 0"
  shows "lane (base + 2) + 2 \<le> 8" "(base + 2) AND 1 = 0"
    "lane (base + of_nat (used_entry index num)) + 4 \<le> 8" "(base + of_nat (used_entry index num)) AND 3 = 0"
    "lane (base + of_nat (used_entry index num) + 4) + 4 \<le> 8"
    "(base + of_nat (used_entry index num) + 4) AND 3 = 0"
proof -
  have b: "lane base = 0 \<or> lane base = 4"
    using assms lane_less [of base] unfolding aligned_lane by presburger
  have l2: "lane (base + 2) = lane base + 2"
    using lane_add [of base 2] b by auto
  have e: "lane (base + of_nat (used_entry index num)) = (lane base + 4) mod 8"
    unfolding lane_add used_entry_def by (simp add: mod_simps add.assoc [symmetric])
  have e4: "lane (base + of_nat (used_entry index num) + 4) = lane base"
    using lane_add [of "base + of_nat (used_entry index num)" 4] b e by auto
  show "lane (base + 2) + 2 \<le> 8" "(base + 2) AND 1 = 0"
    "lane (base + of_nat (used_entry index num)) + 4 \<le> 8" "(base + of_nat (used_entry index num)) AND 3 = 0"
    "lane (base + of_nat (used_entry index num) + 4) + 4 \<le> 8"
    "(base + of_nat (used_entry index num) + 4) AND 3 = 0"
    using b unfolding aligned_lane l2 e e4 by auto
qed

lemma used_ring_write:
  assumes "used_ring_ok base index num"
  shows "\<exists>m1 m2 m3. mem_write16 (base + 2) v m = Inr m1 \<and>
    mem_write32 (base + of_nat (used_entry index num)) x m1 = Inr m2 \<and>
    mem_write32 (base + of_nat (used_entry index num) + 4) y m2 = Inr m3 \<and>
    mem_read16 (base + 2) m3 = Inr (ucast v) \<and>
    mem_read32 (base + of_nat (used_entry index num)) m3 = Inr (ucast x) \<and>
    mem_read32 (base + of_nat (used_entry index num) + 4) m3 = Inr (ucast y) \<and>
    (\<forall>b. b \<notin> used_window base index num \<longrightarrow> ram_byte m3 b = ram_byte m b)"
proof -
  define e where "e = used_entry index num"
  have e4: "base + of_nat e + 4 = base + of_nat (e + 4)" by (simp add: algebra_simps)
  note ok = assms [unfolded used_ring_ok_def]
  then have al: "base AND 3 = 0" by simp
  note lanes = used_lanes(1,2) [OF al] used_lanes(3-6) [OF al, of index num, folded e_def]
  obtain m1 where m1: "mem_write16 (base + 2) v m = Inr m1" using ok ram16.wr_defined by blast
  obtain m2 where m2: "mem_write32 (base + of_nat e) x m1 = Inr m2"
    using ok ram32.wr_defined unfolding e_def by blast
  obtain m3 where m3: "mem_write32 (base + of_nat e + 4) y m2 = Inr m3"
    using ok ram32.wr_defined unfolding e_def by blast
  have ge: "4 \<le> e" "e + 8 < 2 ^ 63" using used_entry_bound by (simp_all add: e_def used_entry_def)
  have sub: "window (base + of_nat e) 4 \<subseteq> window (base + of_nat e) 8"
      "window (base + of_nat e + 4) 4 \<subseteq> window (base + of_nat e) 8"
    using window_slice [of 0 4 8 "base + of_nat e"] window_slice [of 4 4 8 "base + of_nat e"] by simp_all
  have dis: "window (base + 2) 2 \<inter> window (base + of_nat e) 8 = {}"
      "window (base + of_nat e) 4 \<inter> window (base + of_nat e + 4) 4 = {}"
    using window_offset_disjoint [of 2 2 e 8 base] window_offset_disjoint [of e 4 "e + 4" 4 base] ge
    by (simp_all add: e4)
  note w1 = ram16.wr_window [OF m1 lanes(1)] and w2 = ram32.wr_window [OF m2 lanes(3)]
    and w3 = ram32.wr_window [OF m3 lanes(5)]
  have "b \<notin> window (base + of_nat e) 4" "b \<notin> window (base + of_nat e + 4) 4" if "b \<in> window (base + 2) 2" for b
    using that sub dis(1) by blast+
  with w2 w3 have keep: "ram_byte m3 b = ram_byte m1 b" if "b \<in> window (base + 2) 2" for b
    using that by simp
  have "mem_read16 (base + 2) m3 = mem_read16 (base + 2) m1"
    by (rule ram16.rd_window [OF lanes(1)]) (rule keep)
  moreover have "mem_read32 (base + of_nat e) m3 = mem_read32 (base + of_nat e) m2"
    by (rule ram32.rd_window [OF lanes(3)]) (use w3 dis in auto)
  moreover have "ram_byte m3 b = ram_byte m b" if "b \<notin> used_window base index num" for b
  proof -
    have "b \<notin> window (base + 2) 2" "b \<notin> window (base + of_nat e) 4" "b \<notin> window (base + of_nat e + 4) 4"
      using that sub unfolding used_window_def e_def [symmetric] by blast+
    then show ?thesis by (simp add: w1 w2 w3)
  qed
  moreover note ram16.rd_wr [OF m1 lanes(1)] ram32.rd_wr [OF m2 lanes(3)]
    ram32.rd_wr [OF m3 lanes(5)]
  ultimately show ?thesis using m1 m2 m3 unfolding e_def by auto
qed

lemma consume_desc:
  assumes "mem_read16 (base + 2) (memory (vm_emu s)) = Inr index"
    and "qs = v_queue (vm_dev s) ! queue_idx" "base = q_used_addr qs" "num = q_num qs"
    and "used_ring_ok base index num"
  shows "\<exists>m'. virtio_consume_desc queue_idx desc_idx desc_len s =
      Inr (set_irq 1 (s\<lparr>vm_emu := (vm_emu s)\<lparr>memory := m'\<rparr>,
        vm_dev := (vm_dev s)\<lparr>v_int_status := v_int_status (vm_dev s) OR 1\<rparr>\<rparr>)) \<and>
    mem_read16 (base + 2) m' = Inr (index + 1) \<and>
    mem_read32 (base + of_nat (used_entry index num)) m' = Inr (of_int desc_idx) \<and>
    mem_read32 (base + of_nat (used_entry index num) + 4) m' = Inr (of_int desc_len) \<and>
    (\<forall>b. b \<notin> used_window base index num \<longrightarrow> ram_byte m' b = ram_byte (memory (vm_emu s)) b)"
proof -
  let ?m = "memory (vm_emu s)"
  obtain m1 m2 m3 where w: "mem_write16 (base + 2) (ucast (ucast (ucast index + 1 :: u32) :: u16)) ?m = Inr m1"
      "mem_write32 (base + of_nat (used_entry index num)) (ucast (of_int desc_idx :: u32)) m1 = Inr m2"
      "mem_write32 (base + of_nat (used_entry index num) + 4) (ucast (of_int desc_len :: u32)) m2 = Inr m3"
      "mem_read16 (base + 2) m3 = Inr (ucast (ucast (ucast (ucast index + 1 :: u32) :: u16) :: u64))"
      "mem_read32 (base + of_nat (used_entry index num)) m3 = Inr (ucast (ucast (of_int desc_idx :: u32) :: u64))"
      "mem_read32 (base + of_nat (used_entry index num) + 4) m3 = Inr (ucast (ucast (of_int desc_len :: u32) :: u64))"
      "\<forall>b. b \<notin> used_window base index num \<longrightarrow> ram_byte m3 b = ram_byte ?m b"
    using used_ring_write [OF assms(5)] by blast
  have idx: "ucast (ucast (ucast (ucast index + 1 :: u32) :: u16) :: u64) = index + 1"
    by transfer (simp add: take_bit_eq_mod mod_simps mod_mod_cancel)
  have al: "base AND 3 = 0" using assms(5) by (simp add: used_ring_ok_def)
  have "virtio_consume_desc queue_idx desc_idx desc_len s =
      Inr (set_irq 1 (s\<lparr>vm_emu := (vm_emu s)\<lparr>memory := m3\<rparr>,
        vm_dev := (vm_dev s)\<lparr>v_int_status := v_int_status (vm_dev s) OR 1\<rparr>\<rparr>))"
    using assms(1) w(1-3) used_lanes(2,4,6) [OF al]
    unfolding virtio_consume_desc_def Let_def virtio_read16_def virtio_write16_def virtio_write32_def
      assms(2-4) [symmetric] used_entry_addr by simp
  moreover have "ucast (ucast x :: u64) = x" for x :: u32 by transfer simp
  ultimately show ?thesis using w(4-7) by (auto simp: idx)
qed

section \<open>The notification loop\<close>

text \<open>
  One round of the loop as a step: \<open>avail_entry\<close> is the descriptor the available ring names next,
  \<open>advance\<close> moves on to the following one. A round is stuck when looking at the chain or the device
  does not return.
\<close>

definition avail_entry :: "nat \<Rightarrow> 'd vm \<Rightarrow> u16 result" where
  "avail_entry queue_idx s = (let qs = v_queue (vm_dev s) ! queue_idx in
     virtio_read16 (q_avail_addr qs + 4 +
       ucast ((ucast (q_last_avail_idx qs) AND (q_num qs - 1)) * 2 :: u32)) (memory (vm_emu s)))"

definition advance :: "nat \<Rightarrow> 'd vm \<Rightarrow> 'd vm" where
  "advance queue_idx s = s\<lparr>vm_dev := upd_queue queue_idx (q_last_avail_idx_update (\<lambda>i. i + 1)) (vm_dev s)\<rparr>"

inductive serves :: "'d device_recv \<Rightarrow> nat \<Rightarrow> 'd vm \<Rightarrow> 'd vm \<Rightarrow> bool" for device_recv queue_idx where
  skipped: "avail_entry queue_idx s = Inr d \<Longrightarrow>
    get_desc_rw_size (vm_dev s) queue_idx (uint d) (memory (vm_emu s)) = Some (Inr None) \<Longrightarrow>
    serves device_recv queue_idx s (advance queue_idx s)"
| served: "avail_entry queue_idx s = Inr d \<Longrightarrow>
    get_desc_rw_size (vm_dev s) queue_idx (uint d) (memory (vm_emu s)) = Some (Inr (Some (r, w))) \<Longrightarrow>
    device_recv queue_idx (uint d) r w s = Some (Inr (ret, s')) \<Longrightarrow> 0 \<le> ret \<Longrightarrow>
    serves device_recv queue_idx s (advance queue_idx s')"

definition stuck :: "'d device_recv \<Rightarrow> nat \<Rightarrow> 'd vm \<Rightarrow> bool" where
  "stuck device_recv queue_idx s \<longleftrightarrow> (\<exists>d. avail_entry queue_idx s = Inr d \<and>
     (case get_desc_rw_size (vm_dev s) queue_idx (uint d) (memory (vm_emu s)) of
        None \<Rightarrow> True
      | Some (Inr (Some (r, w))) \<Rightarrow> device_recv queue_idx (uint d) r w s = None
      | _ \<Rightarrow> False))"

lemma notify_loop_round:
  "notify_loop device_recv queue_idx a s =
     (if q_last_avail_idx (v_queue (vm_dev s) ! queue_idx) = a then Some (Inr s)
      else case avail_entry queue_idx s of
         Inl h \<Rightarrow> Some (Inl h)
       | Inr d \<Rightarrow>
           (case get_desc_rw_size (vm_dev s) queue_idx (uint d) (memory (vm_emu s)) of
              None \<Rightarrow> None
            | Some (Inl h) \<Rightarrow> Some (Inl h)
            | Some (Inr None) \<Rightarrow> notify_loop device_recv queue_idx a (advance queue_idx s)
            | Some (Inr (Some (r, w))) \<Rightarrow>
                (case device_recv queue_idx (uint d) r w s of
                   None \<Rightarrow> None
                 | Some (Inl h) \<Rightarrow> Some (Inl h)
                 | Some (Inr (ret, s')) \<Rightarrow>
                     if ret < 0 then Some (Inr s')
                     else notify_loop device_recv queue_idx a (advance queue_idx s'))))"
  unfolding advance_def by (subst notify_loop.simps) (simp only: Let_def avail_entry_def)

lemma notify_loop_cases:
  assumes "q_last_avail_idx (v_queue (vm_dev s) ! queue_idx) \<noteq> a"
  obtains (round) s' where "serves device_recv queue_idx s s'"
      "notify_loop device_recv queue_idx a s = notify_loop device_recv queue_idx a s'"
    | (stuck) "stuck device_recv queue_idx s" "notify_loop device_recv queue_idx a s = None"
    | (halted) h where "notify_loop device_recv queue_idx a s = Some (Inl h)"
    | (declined) d r w ret s' where "device_recv queue_idx d r w s = Some (Inr (ret, s'))" "ret < 0"
      "notify_loop device_recv queue_idx a s = Some (Inr s')"
proof (cases "avail_entry queue_idx s")
  case (Inr d)
  let ?size = "get_desc_rw_size (vm_dev s) queue_idx (uint d) (memory (vm_emu s))"
  note r = notify_loop_round [of device_recv queue_idx a s]
  consider "?size = None" | h where "?size = Some (Inl h)" | "?size = Some (Inr None)"
    | r w where "?size = Some (Inr (Some (r, w)))" by (metis option.exhaust sum.exhaust prod.exhaust)
  then show thesis
  proof cases
    case (4 rs ws)
    consider "device_recv queue_idx (uint d) rs ws s = None"
      | h where "device_recv queue_idx (uint d) rs ws s = Some (Inl h)"
      | ret s' where "device_recv queue_idx (uint d) rs ws s = Some (Inr (ret, s'))"
      by (metis option.exhaust sum.exhaust prod.exhaust)
    then show thesis
    proof cases
      case 1
      then show thesis using 4 Inr assms r by (intro stuck) (simp_all add: stuck_def)
    next
      case (2 h)
      then show thesis using 4 Inr assms r by (intro halted [of h]) simp
    next
      case (3 ret s')
      show thesis
      proof (cases "ret < 0")
        case True
        then show thesis using 3 4 Inr assms r by (intro declined [OF 3]) simp_all
      next
        case False
        then show thesis
          using 3 4 Inr assms r serves.served [where device_recv = device_recv, OF Inr 4 3] by (intro round [of "advance queue_idx s'"]) simp_all
      qed
    qed
  qed (use Inr assms r stuck halted round serves.skipped [OF Inr] in \<open>auto simp: stuck_def\<close>)
qed (use assms halted notify_loop_round [of device_recv queue_idx a s] in simp)

lemma ring_distance:
  fixes i a :: u16
  assumes "i \<noteq> a"
  shows "unat (a - (i + 1)) < unat (a - i)"
proof -
  have eq: "1 + (a - (i + 1)) = a - i" by simp
  have "1 + (a - (i + 1)) \<noteq> 0" unfolding eq using assms by simp
  from unatSuc [OF this] show ?thesis unfolding eq by simp
qed

text \<open>The interrupt line of the device is up exactly while it has an interrupt to report.\<close>

definition line_ok :: "'d vm \<Rightarrow> bool" where
  "line_ok s \<longleftrightarrow> (plic_pending_irq (vm_emu s) \<longleftrightarrow> v_int_status (vm_dev s) \<noteq> 0)"

text \<open>What a run of the loop may change of the device.\<close>

definition advanced :: "nat \<Rightarrow> VIRTIODevice \<Rightarrow> VIRTIODevice \<Rightarrow> bool" where
  "advanced queue_idx d d' \<longleftrightarrow> (\<exists>i. d' = d\<lparr>v_int_status := v_int_status d',
     v_queue := (v_queue d)[queue_idx := (v_queue d ! queue_idx)\<lparr>q_last_avail_idx := i\<rparr>]\<rparr>)"

lemma advanced_refl: "advanced queue_idx d (d\<lparr>v_int_status := i\<rparr>)"
  unfolding advanced_def by (rule exI [of _ "q_last_avail_idx (v_queue d ! queue_idx)"]) simp

lemma advanced_trans:
  assumes "advanced queue_idx d d1" "advanced queue_idx d1 d2"
  shows "advanced queue_idx d d2"
proof -
  obtain i1 where d1: "d1 = d\<lparr>v_int_status := v_int_status d1,
      v_queue := (v_queue d)[queue_idx := (v_queue d ! queue_idx)\<lparr>q_last_avail_idx := i1\<rparr>]\<rparr>"
    using assms(1) unfolding advanced_def by blast
  obtain i2 where d2: "d2 = d1\<lparr>v_int_status := v_int_status d2,
      v_queue := (v_queue d1)[queue_idx := (v_queue d1 ! queue_idx)\<lparr>q_last_avail_idx := i2\<rparr>]\<rparr>"
    using assms(2) unfolding advanced_def by blast
  have "(v_queue d1)[queue_idx := (v_queue d1 ! queue_idx)\<lparr>q_last_avail_idx := i2\<rparr>] =
      (v_queue d)[queue_idx := (v_queue d ! queue_idx)\<lparr>q_last_avail_idx := i2\<rparr>]"
    by (subst (1 2) d1) (cases "queue_idx < length (v_queue d)"; simp add: not_less list_update_beyond)
  then have "d2 = d\<lparr>v_int_status := v_int_status d2,
      v_queue := (v_queue d)[queue_idx := (v_queue d ! queue_idx)\<lparr>q_last_avail_idx := i2\<rparr>]\<rparr>"
    by (subst d2) (subst d1, simp)
  then show ?thesis unfolding advanced_def by blast
qed

lemma advanced_advance: "advanced queue_idx (vm_dev s) (vm_dev (advance queue_idx s))"
proof -
  let ?q = "v_queue (vm_dev s) ! queue_idx"
  have q: "q_last_avail_idx_update (\<lambda>i. i + 1) ?q = ?q\<lparr>q_last_avail_idx := q_last_avail_idx ?q + 1\<rparr>"
    by (cases ?q) simp
  have "upd_queue queue_idx f d = d\<lparr>v_queue := (v_queue d)[queue_idx := f (v_queue d ! queue_idx)]\<rparr>" for f d
    by (cases d) simp
  then have "vm_dev (advance queue_idx s) = (vm_dev s)\<lparr>v_queue :=
      (v_queue (vm_dev s))[queue_idx := q_last_avail_idx_update (\<lambda>i. i + 1) ?q]\<rparr>"
    by (simp add: advance_def)
  then show ?thesis
    unfolding advanced_def q by (intro exI [of _ "q_last_avail_idx ?q + 1"]) simp
qed

text \<open>
  What the queue code relies on: of the registers, serving a request changes the interrupt status
  only, and the line follows it.
\<close>

locale queue_device =
  fixes device_recv :: "'d device_recv"
  assumes keeps_device: "device_recv queue_idx d r w s = Some (Inr (ret, s')) \<Longrightarrow>
    vm_dev s' = (vm_dev s)\<lparr>v_int_status := v_int_status (vm_dev s')\<rparr>"
    and keeps_line: "device_recv queue_idx d r w s = Some (Inr (ret, s')) \<Longrightarrow> line_ok s \<Longrightarrow> line_ok s'"
begin

lemma keeps_queue:
  assumes "device_recv queue_idx d r w s = Some (Inr (ret, s'))"
  shows "v_queue (vm_dev s') = v_queue (vm_dev s)"
  using arg_cong [OF keeps_device [OF assms], of v_queue] by simp

lemma round_advances:
  assumes "serves device_recv queue_idx s s'" "queue_idx < length (v_queue (vm_dev s))"
  shows "v_queue (vm_dev s') = (v_queue (vm_dev s))[queue_idx :=
    q_last_avail_idx_update (\<lambda>i. i + 1) (v_queue (vm_dev s) ! queue_idx)]"
  using assms
proof (cases rule: serves.cases)
  case (served d r w ret s1)
  then show ?thesis using assms(2) keeps_queue [OF served(4)] by (simp add: advance_def)
qed (simp add: advance_def)

lemma round_keeps:
  assumes "serves device_recv queue_idx s s'"
  shows "advanced queue_idx (vm_dev s) (vm_dev s') \<and> (line_ok s \<longrightarrow> line_ok s')"
  using assms
proof cases
  case (skipped d)
  then show ?thesis using advanced_advance by (simp add: advance_def line_ok_def)
next
  case (served d r w ret s1)
  have "advanced queue_idx (vm_dev s) (vm_dev s1)"
    using advanced_refl [of queue_idx "vm_dev s"] keeps_device [OF served(4)] by metis
  then show ?thesis
    using served(1) advanced_trans [OF _ advanced_advance] keeps_line [OF served(4)]
    by (auto simp: advance_def line_ok_def)
qed

text \<open>A run of the loop that returns is a sequence of rounds, and at most one declined request.\<close>

lemma loop_runs:
  assumes "queue_idx < length (v_queue (vm_dev s))" "notify_loop device_recv queue_idx a s = Some (Inr s')"
  obtains t where "(serves device_recv queue_idx)\<^sup>*\<^sup>* s t"
    "s' = t \<or> (\<exists>d r w ret. device_recv queue_idx d r w t = Some (Inr (ret, s')) \<and> ret < 0)"
proof -
  have "\<exists>t. (serves device_recv queue_idx)\<^sup>*\<^sup>* s t \<and>
      (s' = t \<or> (\<exists>d r w ret. device_recv queue_idx d r w t = Some (Inr (ret, s')) \<and> ret < 0))"
    using assms
  proof (induction "unat (a - q_last_avail_idx (v_queue (vm_dev s) ! queue_idx))" arbitrary: s rule: less_induct)
    case less
    show ?case
    proof (cases "q_last_avail_idx (v_queue (vm_dev s) ! queue_idx) = a")
      case True
      then show ?thesis using less.prems(2) by (auto simp: notify_loop_round)
    next
      case False
      then show ?thesis
      proof (cases rule: notify_loop_cases [OF False, of device_recv, case_names round stuck halted declined])
        case (round s1)
        note adv = round_advances [OF round(1) less.prems(1)]
        have "\<exists>t. (serves device_recv queue_idx)\<^sup>*\<^sup>* s1 t \<and>
            (s' = t \<or> (\<exists>d r w ret. device_recv queue_idx d r w t = Some (Inr (ret, s')) \<and> ret < 0))"
          by (rule less.hyps) (use less.prems round(2) ring_distance [OF False] in \<open>simp_all add: adv\<close>)
        then show ?thesis using round(1) converse_rtranclp_into_rtranclp by metis
      next
        case (declined d r w ret s1)
        then have "s1 = s'" using less.prems(2) by simp
        then show ?thesis using declined(1,2) by blast
      qed (use less.prems(2) in simp_all)
    qed
  qed
  then show thesis using that by blast
qed

lemma loop_keeps:
  assumes "queue_idx < length (v_queue (vm_dev s))" "notify_loop device_recv queue_idx a s = Some (Inr s')"
  shows "advanced queue_idx (vm_dev s) (vm_dev s') \<and> (line_ok s \<longrightarrow> line_ok s')"
proof -
  obtain t where t: "(serves device_recv queue_idx)\<^sup>*\<^sup>* s t"
      "s' = t \<or> (\<exists>d r w ret. device_recv queue_idx d r w t = Some (Inr (ret, s')) \<and> ret < 0)"
    by (rule loop_runs [OF assms])
  from t(1) have "advanced queue_idx (vm_dev s) (vm_dev t) \<and> (line_ok s \<longrightarrow> line_ok t)"
  proof induction
    case base
    then show ?case using advanced_refl [of queue_idx "vm_dev s" "v_int_status (vm_dev s)"] by simp
  next
    case (step t t')
    then show ?case using round_keeps [OF step.hyps(2)] advanced_trans by blast
  qed
  moreover have "advanced queue_idx (vm_dev t) (vm_dev s') \<and> (line_ok t \<longrightarrow> line_ok s')"
    if "device_recv queue_idx d r w t = Some (Inr (ret, s'))" for d r w ret
    using keeps_line [OF that] advanced_refl [of queue_idx "vm_dev t"] keeps_device [OF that] by metis
  ultimately show ?thesis using t(2) advanced_trans by blast
qed

lemma loop_ends:
  assumes "queue_idx < length (v_queue (vm_dev s))" "notify_loop device_recv queue_idx a s = None"
  shows "\<exists>k s'. k < unat (a - q_last_avail_idx (v_queue (vm_dev s) ! queue_idx)) \<and>
    (serves device_recv queue_idx ^^ k) s s' \<and> stuck device_recv queue_idx s'"
  using assms
proof (induction "unat (a - q_last_avail_idx (v_queue (vm_dev s) ! queue_idx))" arbitrary: s rule: less_induct)
  case less
  have nz: "q_last_avail_idx (v_queue (vm_dev s) ! queue_idx) \<noteq> a"
    using less.prems(2) by (auto simp: notify_loop_round)
  show ?case
  proof (cases "stuck device_recv queue_idx s")
    case False
    then obtain s' where s': "serves device_recv queue_idx s s'" "notify_loop device_recv queue_idx a s' = None"
      using less.prems(2) by (cases rule: notify_loop_cases [OF nz, of device_recv]) auto
    note adv = round_advances [OF s'(1) less.prems(1)]
    have "\<exists>k s''. k < unat (a - q_last_avail_idx (v_queue (vm_dev s') ! queue_idx)) \<and>
        (serves device_recv queue_idx ^^ k) s' s'' \<and> stuck device_recv queue_idx s''"
      by (rule less.hyps) (use less.prems(1) s'(2) ring_distance [OF nz] in \<open>simp_all add: adv\<close>)
    then obtain k s'' where k: "k < unat (a - (q_last_avail_idx (v_queue (vm_dev s) ! queue_idx) + 1))"
        "(serves device_recv queue_idx ^^ k) s' s''" "stuck device_recv queue_idx s''"
      using less.prems(1) by (auto simp: adv)
    have "(serves device_recv queue_idx ^^ Suc k) s s''" by (rule relpowp_Suc_I2 [OF s'(1) k(2)])
    then show ?thesis using k(1,3) ring_distance [OF nz] by (intro exI [of _ "Suc k"] exI [of _ s'']) simp
  next
    case True
    have "0 < unat (a - q_last_avail_idx (v_queue (vm_dev s) ! queue_idx))"
      using ring_distance [OF nz] by simp
    with True show ?thesis by (intro exI [of _ 0] exI [of _ s]) simp
  qed
qed

end

text \<open>A device that, once idle, takes every request and is idle again after it.\<close>

locale eager_device = queue_device device_recv for device_recv :: "'d device_recv" +
  fixes idle :: "'d \<Rightarrow> bool"
  assumes takes_all: "idle (vm_opaque s) \<Longrightarrow> device_recv queue_idx d r w s = Some (Inr (ret, s')) \<Longrightarrow>
    0 \<le> ret \<and> idle (vm_opaque s')"
begin

lemma loop_drains:
  assumes "queue_idx < length (v_queue (vm_dev s))" "idle (vm_opaque s)"
    and "notify_loop device_recv queue_idx a s = Some (Inr s')"
  shows "idle (vm_opaque s') \<and> v_queue (vm_dev s') =
    (v_queue (vm_dev s))[queue_idx := (v_queue (vm_dev s) ! queue_idx)\<lparr>q_last_avail_idx := a\<rparr>]"
  using assms
proof (induction "unat (a - q_last_avail_idx (v_queue (vm_dev s) ! queue_idx))" arbitrary: s rule: less_induct)
  case less
  show ?case
  proof (cases "q_last_avail_idx (v_queue (vm_dev s) ! queue_idx) = a")
    case True
    then have "s' = s" using less.prems(3) by (simp add: notify_loop_round)
    moreover have "(v_queue (vm_dev s) ! queue_idx)\<lparr>q_last_avail_idx := a\<rparr> = v_queue (vm_dev s) ! queue_idx"
      using True by simp
    ultimately show ?thesis using less.prems(2) by (simp only: list_update_id simp_thms)
  next
    case False
    then obtain s1 where s1: "serves device_recv queue_idx s s1"
        "notify_loop device_recv queue_idx a s1 = Some (Inr s')"
      using less.prems(3) takes_all [OF less.prems(2)]
      by (cases rule: notify_loop_cases [OF False, of device_recv]) (auto, fastforce)
    have "idle (vm_opaque s1)"
      using s1(1) takes_all [OF less.prems(2)] less.prems(2) by cases (auto simp: advance_def)
    note s1 = s1 this
    note adv = round_advances [OF s1(1) less.prems(1)]
    have "idle (vm_opaque s') \<and> v_queue (vm_dev s') =
        (v_queue (vm_dev s1))[queue_idx := (v_queue (vm_dev s1) ! queue_idx)\<lparr>q_last_avail_idx := a\<rparr>]"
      by (rule less.hyps) (use less.prems(1) s1 ring_distance [OF False] in \<open>simp_all add: adv\<close>)
    then show ?thesis using less.prems(1) by (simp add: adv)
  qed
qed

end

end
