(* ===== verification/Virtio_MMIO.thy ===== *)
theory Virtio_MMIO
  imports Virtio_Ring
begin

text \<open>
  The MMIO transport of \<^verbatim>\<open>temu/virtio.c\<close>: reset and initialisation of a device, its configuration
  space, and the registers the guest reads and writes, with the two calls \<^verbatim>\<open>emu.cpp\<close> makes to them.
\<close>

section \<open>Reset and initialisation\<close>

definition queue_reset :: "QueueState \<Rightarrow> QueueState" where
  "queue_reset qs = qs\<lparr>q_ready := 0, q_num := MAX_QUEUE_NUM, q_desc_addr := 0, q_avail_addr := 0,
     q_used_addr := 0, q_last_avail_idx := 0\<rparr>"

definition virtio_reset :: "VIRTIODevice \<Rightarrow> VIRTIODevice" where
  "virtio_reset s = s\<lparr>v_status := 0, v_queue_sel := 0, v_device_features_sel := 0, v_int_status := 0,
     v_queue := map queue_reset (v_queue s)\<rparr>"

text \<open>\<^verbatim>\<open>memset(s, 0, sizeof(*s))\<close>, then the branch without a PCI bus.\<close>

definition virtio_zero :: VIRTIODevice where
  "virtio_zero = \<lparr>v_int_status = 0, v_status = 0, v_device_features_sel = 0, v_queue_sel = 0,
     v_queue = replicate MAX_QUEUE \<lparr>q_ready = 0, q_num = 0, q_last_avail_idx = 0, q_desc_addr = 0,
       q_avail_addr = 0, q_used_addr = 0, q_manual_recv = False\<rparr>,
     v_device_id = 0, v_vendor_id = 0, v_device_features = 0, v_config_space_size = 0,
     v_config_space = replicate MAX_CONFIG_SPACE_SIZE 0\<rparr>"

definition virtio_init :: "u32 \<Rightarrow> u32 \<Rightarrow> VIRTIODevice" where
  "virtio_init device_id config_space_size = virtio_reset (virtio_zero\<lparr>v_device_id := device_id,
     v_vendor_id := 0xffff, v_config_space_size := config_space_size\<rparr>)"

section \<open>The configuration space\<close>

definition get_le16 :: "u8 list \<Rightarrow> nat \<Rightarrow> u16" where
  "get_le16 p i = ucast (p ! i) OR push_bit 8 (ucast (p ! (i + 1)))"

definition get_le32 :: "u8 list \<Rightarrow> nat \<Rightarrow> u32" where
  "get_le32 p i = ucast (p ! i) OR push_bit 8 (ucast (p ! (i + 1))) OR
     push_bit 16 (ucast (p ! (i + 2))) OR push_bit 24 (ucast (p ! (i + 3)))"

definition put_le16 :: "u8 list \<Rightarrow> nat \<Rightarrow> u16 \<Rightarrow> u8 list" where
  "put_le16 p i v = p[i := ucast v, i + 1 := ucast (drop_bit 8 v)]"

definition put_le32 :: "u8 list \<Rightarrow> nat \<Rightarrow> u32 \<Rightarrow> u8 list" where
  "put_le32 p i v = p[i := ucast v, i + 1 := ucast (drop_bit 8 v), i + 2 := ucast (drop_bit 16 v),
     i + 3 := ucast (drop_bit 24 v)]"

text \<open>Little-endian bytes read back.\<close>

lemma join_le16: "(ucast (ucast x :: u8) OR push_bit 8 (ucast (ucast (drop_bit 8 x) :: u8)) :: u16) = x"
  by (rule bit_word_eqI) (auto simp: bit_simps)

lemma join_le32:
  "(ucast (ucast x :: u8) OR push_bit 8 (ucast (ucast (drop_bit 8 x) :: u8)) OR
    push_bit 16 (ucast (ucast (drop_bit 16 x) :: u8)) OR push_bit 24 (ucast (ucast (drop_bit 24 x) :: u8)) :: u32) = x"
proof (rule bit_word_eqI)
  fix n assume n: "n < LENGTH(32)"
  have lane: "bit (push_bit k (ucast (ucast (drop_bit k x) :: u8)) :: u32) n \<longleftrightarrow> k \<le> n \<and> n < k + 8 \<and> bit x n" for k
    using n by (auto simp: bit_simps)
  have "bit (ucast (ucast x :: u8) :: u32) n \<longleftrightarrow> n < 8 \<and> bit x n" using lane [of 0] by simp
  then show "bit (ucast (ucast x :: u8) OR push_bit 8 (ucast (ucast (drop_bit 8 x) :: u8)) OR
    push_bit 16 (ucast (ucast (drop_bit 16 x) :: u8)) OR push_bit 24 (ucast (ucast (drop_bit 24 x) :: u8)) :: u32) n = bit x n"
    unfolding bit_or_iff lane using n by auto
qed

definition virtio_config_read :: "u32 \<Rightarrow> int \<Rightarrow> VIRTIODevice \<Rightarrow> u32 result" where
  "virtio_config_read offset size_log2 s =
     (if size_log2 = 0 then
        Inr (if offset < v_config_space_size s then ucast (v_config_space s ! unat offset) else 0)
      else if size_log2 = 1 then
        Inr (if offset < v_config_space_size s - 1 then ucast (get_le16 (v_config_space s) (unat offset)) else 0)
      else if size_log2 = 2 then
        Inr (if offset < v_config_space_size s - 3 then get_le32 (v_config_space s) (unat offset) else 0)
      else Inl Abort)"

text \<open>\<open>config_write\<close> is the callback of the device, if it has one.\<close>

definition virtio_config_write ::
    "('d vm \<Rightarrow> 'd vm) option \<Rightarrow> u32 \<Rightarrow> u32 \<Rightarrow> int \<Rightarrow> 'd vm \<Rightarrow> 'd vm" where
  "virtio_config_write config_write offset val size_log2 s =
     (let size = v_config_space_size (vm_dev s);
          written = (\<lambda>f. (case config_write of None \<Rightarrow> id | Some g \<Rightarrow> g)
            (s\<lparr>vm_dev := v_config_space_update f (vm_dev s)\<rparr>)) in
      if size_log2 = 0 then
        (if offset < size then written (\<lambda>p. p[unat offset := ucast val]) else s)
      else if size_log2 = 1 then
        (if offset < size - 1 then written (\<lambda>p. put_le16 p (unat offset) (ucast val)) else s)
      else if size_log2 = 2 then
        (if offset < size - 3 then written (\<lambda>p. put_le32 p (unat offset) val) else s)
      else s)"

section \<open>The registers\<close>

abbreviation VIRTIO_MMIO_MAGIC_VALUE :: u32 where "VIRTIO_MMIO_MAGIC_VALUE \<equiv> 0x000"
abbreviation VIRTIO_MMIO_VERSION :: u32 where "VIRTIO_MMIO_VERSION \<equiv> 0x004"
abbreviation VIRTIO_MMIO_DEVICE_ID :: u32 where "VIRTIO_MMIO_DEVICE_ID \<equiv> 0x008"
abbreviation VIRTIO_MMIO_VENDOR_ID :: u32 where "VIRTIO_MMIO_VENDOR_ID \<equiv> 0x00c"
abbreviation VIRTIO_MMIO_DEVICE_FEATURES :: u32 where "VIRTIO_MMIO_DEVICE_FEATURES \<equiv> 0x010"
abbreviation VIRTIO_MMIO_DEVICE_FEATURES_SEL :: u32 where "VIRTIO_MMIO_DEVICE_FEATURES_SEL \<equiv> 0x014"
abbreviation VIRTIO_MMIO_QUEUE_SEL :: u32 where "VIRTIO_MMIO_QUEUE_SEL \<equiv> 0x030"
abbreviation VIRTIO_MMIO_QUEUE_NUM_MAX :: u32 where "VIRTIO_MMIO_QUEUE_NUM_MAX \<equiv> 0x034"
abbreviation VIRTIO_MMIO_QUEUE_NUM :: u32 where "VIRTIO_MMIO_QUEUE_NUM \<equiv> 0x038"
abbreviation VIRTIO_MMIO_QUEUE_READY :: u32 where "VIRTIO_MMIO_QUEUE_READY \<equiv> 0x044"
abbreviation VIRTIO_MMIO_QUEUE_NOTIFY :: u32 where "VIRTIO_MMIO_QUEUE_NOTIFY \<equiv> 0x050"
abbreviation VIRTIO_MMIO_INTERRUPT_STATUS :: u32 where "VIRTIO_MMIO_INTERRUPT_STATUS \<equiv> 0x060"
abbreviation VIRTIO_MMIO_INTERRUPT_ACK :: u32 where "VIRTIO_MMIO_INTERRUPT_ACK \<equiv> 0x064"
abbreviation VIRTIO_MMIO_STATUS :: u32 where "VIRTIO_MMIO_STATUS \<equiv> 0x070"
abbreviation VIRTIO_MMIO_QUEUE_DESC_LOW :: u32 where "VIRTIO_MMIO_QUEUE_DESC_LOW \<equiv> 0x080"
abbreviation VIRTIO_MMIO_QUEUE_DESC_HIGH :: u32 where "VIRTIO_MMIO_QUEUE_DESC_HIGH \<equiv> 0x084"
abbreviation VIRTIO_MMIO_QUEUE_AVAIL_LOW :: u32 where "VIRTIO_MMIO_QUEUE_AVAIL_LOW \<equiv> 0x090"
abbreviation VIRTIO_MMIO_QUEUE_AVAIL_HIGH :: u32 where "VIRTIO_MMIO_QUEUE_AVAIL_HIGH \<equiv> 0x094"
abbreviation VIRTIO_MMIO_QUEUE_USED_LOW :: u32 where "VIRTIO_MMIO_QUEUE_USED_LOW \<equiv> 0x0a0"
abbreviation VIRTIO_MMIO_QUEUE_USED_HIGH :: u32 where "VIRTIO_MMIO_QUEUE_USED_HIGH \<equiv> 0x0a4"
abbreviation VIRTIO_MMIO_CONFIG :: u32 where "VIRTIO_MMIO_CONFIG \<equiv> 0x100"

definition virtio_mmio_read :: "u32 \<Rightarrow> int \<Rightarrow> VIRTIODevice \<Rightarrow> u32 result" where
  "virtio_mmio_read offset size_log2 s =
     (let q = v_queue s ! unat (v_queue_sel s) in
      if offset \<ge> VIRTIO_MMIO_CONFIG then virtio_config_read (offset - VIRTIO_MMIO_CONFIG) size_log2 s
      else if size_log2 = 2 then
        Inr (if offset = VIRTIO_MMIO_MAGIC_VALUE then 0x74726976
         else if offset = VIRTIO_MMIO_VERSION then 2
         else if offset = VIRTIO_MMIO_DEVICE_ID then v_device_id s
         else if offset = VIRTIO_MMIO_VENDOR_ID then v_vendor_id s
         else if offset = VIRTIO_MMIO_DEVICE_FEATURES then
           (if v_device_features_sel s = 0 then v_device_features s
            else if v_device_features_sel s = 1 then 1 else 0)
         else if offset = VIRTIO_MMIO_DEVICE_FEATURES_SEL then v_device_features_sel s
         else if offset = VIRTIO_MMIO_QUEUE_SEL then v_queue_sel s
         else if offset = VIRTIO_MMIO_QUEUE_NUM_MAX then MAX_QUEUE_NUM
         else if offset = VIRTIO_MMIO_QUEUE_NUM then q_num q
         else if offset = VIRTIO_MMIO_QUEUE_DESC_LOW then ucast (q_desc_addr q)
         else if offset = VIRTIO_MMIO_QUEUE_AVAIL_LOW then ucast (q_avail_addr q)
         else if offset = VIRTIO_MMIO_QUEUE_USED_LOW then ucast (q_used_addr q)
         else if offset = VIRTIO_MMIO_QUEUE_DESC_HIGH then ucast (drop_bit 32 (q_desc_addr q))
         else if offset = VIRTIO_MMIO_QUEUE_AVAIL_HIGH then ucast (drop_bit 32 (q_avail_addr q))
         else if offset = VIRTIO_MMIO_QUEUE_USED_HIGH then ucast (drop_bit 32 (q_used_addr q))
         else if offset = VIRTIO_MMIO_QUEUE_READY then q_ready q
         else if offset = VIRTIO_MMIO_INTERRUPT_STATUS then v_int_status s
         else if offset = VIRTIO_MMIO_STATUS then v_status s
         else 0)
      else Inr 0)"

definition set_low32 :: "u32 \<Rightarrow> u64 \<Rightarrow> u64" where
  "set_low32 val paddr = (paddr AND NOT 0xffffffff) OR ucast val"

definition set_high32 :: "u32 \<Rightarrow> u64 \<Rightarrow> u64" where
  "set_high32 val paddr = (paddr AND 0xffffffff) OR push_bit 32 (ucast val)"

definition virtio_mmio_write ::
    "'d device_recv \<Rightarrow> ('d vm \<Rightarrow> 'd vm) option \<Rightarrow> u32 \<Rightarrow> u32 \<Rightarrow> int \<Rightarrow> 'd vm \<Rightarrow> 'd vm result option" where
  "virtio_mmio_write device_recv config_write offset val size_log2 s =
     (let d = vm_dev s;
          ok = (\<lambda>d. Some (Inr (s\<lparr>vm_dev := d\<rparr>)));
          on_queue = (\<lambda>f. ok (upd_queue (unat (v_queue_sel d)) f d)) in
      if offset \<ge> VIRTIO_MMIO_CONFIG then
        Some (Inr (virtio_config_write config_write (offset - VIRTIO_MMIO_CONFIG) val size_log2 s))
      else if size_log2 = 2 then
        (if offset = VIRTIO_MMIO_DEVICE_FEATURES_SEL then ok (d\<lparr>v_device_features_sel := val\<rparr>)
         else if offset = VIRTIO_MMIO_QUEUE_SEL then
           (if val < of_nat MAX_QUEUE then ok (d\<lparr>v_queue_sel := val\<rparr>) else ok d)
         else if offset = VIRTIO_MMIO_QUEUE_NUM then
           (if val AND (val - 1) = 0 \<and> val > 0 then on_queue (q_num_update (\<lambda>_. val)) else ok d)
         else if offset = VIRTIO_MMIO_QUEUE_DESC_LOW then on_queue (q_desc_addr_update (set_low32 val))
         else if offset = VIRTIO_MMIO_QUEUE_AVAIL_LOW then on_queue (q_avail_addr_update (set_low32 val))
         else if offset = VIRTIO_MMIO_QUEUE_USED_LOW then on_queue (q_used_addr_update (set_low32 val))
         else if offset = VIRTIO_MMIO_QUEUE_DESC_HIGH then on_queue (q_desc_addr_update (set_high32 val))
         else if offset = VIRTIO_MMIO_QUEUE_AVAIL_HIGH then on_queue (q_avail_addr_update (set_high32 val))
         else if offset = VIRTIO_MMIO_QUEUE_USED_HIGH then on_queue (q_used_addr_update (set_high32 val))
         else if offset = VIRTIO_MMIO_STATUS then
           (let s = s\<lparr>vm_dev := d\<lparr>v_status := val\<rparr>\<rparr> in
            if val = 0
            then (let s = set_irq 0 s in Some (Inr (s\<lparr>vm_dev := virtio_reset (vm_dev s)\<rparr>)))
            else Some (Inr s))
         else if offset = VIRTIO_MMIO_QUEUE_READY then on_queue (q_ready_update (\<lambda>_. val AND 1))
         else if offset = VIRTIO_MMIO_QUEUE_NOTIFY then
           (if val < of_nat MAX_QUEUE then queue_notify device_recv (unat val) s else ok d)
         else if offset = VIRTIO_MMIO_INTERRUPT_ACK then
           (let d = d\<lparr>v_int_status := v_int_status d AND NOT val\<rparr>; s = s\<lparr>vm_dev := d\<rparr> in
            Some (Inr (if v_int_status d = 0 then set_irq 0 s else s)))
         else ok d)
      else ok d)"

section \<open>The calls of the main loop\<close>

text \<open>
  A load from the device reads the aligned pair of registers; a store passes the low half of the
  register. Offsets are cut to 32 bits by the call.
\<close>

abbreviation VIRTIO_BASE :: u64 where "VIRTIO_BASE \<equiv> 0x40010000"
abbreviation VIRTIO_SIZE :: u64 where "VIRTIO_SIZE \<equiv> 0x1000"

definition virtio_load :: "u64 \<Rightarrow> VIRTIODevice \<Rightarrow> u64 result" where
  "virtio_load load_addr_phy d =
     (let load_addr_phy_virt = load_addr_phy div 8 * 8 in
      andThen (virtio_mmio_read (ucast (load_addr_phy_virt - VIRTIO_BASE + 4)) 2 d) (\<lambda>hi.
      andThen (virtio_mmio_read (ucast (load_addr_phy_virt - VIRTIO_BASE)) 2 d) (\<lambda>lo.
      Inr (push_bit 32 (ucast hi) + ucast lo))))"

definition virtio_store ::
    "'d device_recv \<Rightarrow> ('d vm \<Rightarrow> 'd vm) option \<Rightarrow> u64 \<Rightarrow> u64 \<Rightarrow> 'd vm \<Rightarrow> 'd vm result option" where
  "virtio_store device_recv config_write store_addr_phy b s =
     virtio_mmio_write device_recv config_write (ucast (store_addr_phy - VIRTIO_BASE))
       (ucast (b AND 0xFFFFFFFF)) 2 s"

section \<open>The registers stay well-formed\<close>

text \<open>
  The invariant that keeps every access of the transport inside its arrays: eight queues of a power of
  two entries, a selected queue among them, and a configuration space that the size register does not
  exceed.
\<close>

definition queue_ok :: "QueueState \<Rightarrow> bool" where
  "queue_ok q \<longleftrightarrow> q_num q AND (q_num q - 1) = 0 \<and> q_num q \<noteq> 0"

definition mmio_ok :: "VIRTIODevice \<Rightarrow> bool" where
  "mmio_ok d \<longleftrightarrow> length (v_queue d) = MAX_QUEUE \<and> (\<forall>q \<in> set (v_queue d). queue_ok q) \<and>
     unat (v_queue_sel d) < MAX_QUEUE \<and> length (v_config_space d) = MAX_CONFIG_SPACE_SIZE \<and>
     3 < v_config_space_size d \<and> v_config_space_size d \<le> of_nat MAX_CONFIG_SPACE_SIZE"

lemma queue_reset_ok: "queue_ok (queue_reset q)"
  by (simp add: queue_ok_def queue_reset_def)

lemma virtio_init_ok:
  assumes "3 < n" "n \<le> of_nat MAX_CONFIG_SPACE_SIZE"
  shows "mmio_ok (virtio_init device_id n)"
  using assms by (simp add: mmio_ok_def virtio_init_def virtio_reset_def virtio_zero_def queue_reset_ok)

lemma virtio_reset_ok: "mmio_ok d \<Longrightarrow> mmio_ok (virtio_reset d)"
  by (auto simp: mmio_ok_def virtio_reset_def queue_reset_ok)

lemma upd_queue_ok:
  assumes "mmio_ok d" "i < MAX_QUEUE" "\<And>q. queue_ok q \<Longrightarrow> queue_ok (f q)"
  shows "mmio_ok (upd_queue i f d)"
proof -
  have "set ((v_queue d)[i := f (v_queue d ! i)]) \<subseteq> insert (f (v_queue d ! i)) (set (v_queue d))"
    by (rule set_update_subset_insert)
  then show ?thesis using assms by (auto simp: mmio_ok_def)
qed

lemma config_index_ok:
  assumes "mmio_ok d" "offset < v_config_space_size d - k" "k \<le> 3"
  shows "unat offset + unat k < length (v_config_space d)"
proof -
  have k: "k \<le> v_config_space_size d" using assms by (auto simp: mmio_ok_def)
  have "unat offset < unat (v_config_space_size d) - unat k"
    using assms(2) k by (simp add: word_less_nat_alt unat_sub)
  moreover have "unat (v_config_space_size d) \<le> MAX_CONFIG_SPACE_SIZE"
    using assms(1) by (simp add: mmio_ok_def word_le_nat_alt)
  ultimately show ?thesis using assms(1) by (simp add: mmio_ok_def)
qed

lemma advanced_ok: "advanced i d d' \<Longrightarrow> mmio_ok d \<Longrightarrow> i < MAX_QUEUE \<Longrightarrow> mmio_ok d'"
proof -
  assume a: "advanced i d d'" "mmio_ok d" "i < MAX_QUEUE"
  from a(1) obtain k where d': "d' = d\<lparr>v_int_status := v_int_status d',
      v_queue := (v_queue d)[i := (v_queue d ! i)\<lparr>q_last_avail_idx := k\<rparr>]\<rparr>"
    unfolding advanced_def by blast
  have "set ((v_queue d)[i := (v_queue d ! i)\<lparr>q_last_avail_idx := k\<rparr>]) \<subseteq>
      insert ((v_queue d ! i)\<lparr>q_last_avail_idx := k\<rparr>) (set (v_queue d))"
    by (rule set_update_subset_insert)
  then show "mmio_ok d'" using a(2,3) by (subst d') (auto simp: mmio_ok_def queue_ok_def)
qed

lemma set_irq_line:
  "line_ok (set_irq l s) \<longleftrightarrow> (l \<noteq> 0 \<longleftrightarrow> v_int_status (vm_dev s) \<noteq> 0)"
  by (simp add: line_ok_def set_irq_def plic_set_irq)

definition device_ok :: "'d vm \<Rightarrow> bool" where
  "device_ok s \<longleftrightarrow> mmio_ok (vm_dev s) \<and> line_ok s"

text \<open>A result that, if it is a state, has the property \<open>P\<close>.\<close>

definition stays :: "('d vm \<Rightarrow> bool) \<Rightarrow> 'd vm result option \<Rightarrow> bool" where
  "stays P r \<longleftrightarrow> (\<forall>s'. r = Some (Inr s') \<longrightarrow> P s')"

lemma stays_if: "(c \<Longrightarrow> stays P a) \<Longrightarrow> (\<not> c \<Longrightarrow> stays P b) \<Longrightarrow> stays P (if c then a else b)"
  by simp

lemma stays_state: "stays P (Some (Inr s)) \<longleftrightarrow> P s"
  by (simp add: stays_def)

lemma device_ok_regs:
  assumes "device_ok s"
  shows "device_ok (s\<lparr>vm_dev := (vm_dev s)\<lparr>v_device_features_sel := val\<rparr>\<rparr>)"
    "device_ok (s\<lparr>vm_dev := (vm_dev s)\<lparr>v_status := val\<rparr>\<rparr>)" "device_ok (s\<lparr>vm_dev := vm_dev s\<rparr>)"
    "val < of_nat MAX_QUEUE \<Longrightarrow> device_ok (s\<lparr>vm_dev := (vm_dev s)\<lparr>v_queue_sel := val\<rparr>\<rparr>)"
  using assms by (simp_all add: device_ok_def mmio_ok_def line_ok_def word_less_nat_alt)

lemma device_ok_queue:
  assumes "device_ok s" "\<And>q. queue_ok q \<Longrightarrow> queue_ok (f q)"
  shows "device_ok (s\<lparr>vm_dev := upd_queue (unat (v_queue_sel (vm_dev s))) f (vm_dev s)\<rparr>)"
proof -
  have "unat (v_queue_sel (vm_dev s)) < MAX_QUEUE" using assms(1) by (simp add: device_ok_def mmio_ok_def)
  from upd_queue_ok [OF _ this, of "vm_dev s" f] assms show ?thesis by (simp add: device_ok_def line_ok_def)
qed

lemma device_ok_reset:
  assumes "device_ok s"
  shows "device_ok ((set_irq 0 (s\<lparr>vm_dev := (vm_dev s)\<lparr>v_status := 0\<rparr>\<rparr>))\<lparr>vm_dev := virtio_reset ((vm_dev s)\<lparr>v_status := 0\<rparr>)\<rparr>)"
proof -
  have "mmio_ok ((vm_dev s)\<lparr>v_status := 0\<rparr>)" using assms by (simp add: device_ok_def mmio_ok_def)
  from virtio_reset_ok [OF this] show ?thesis
    by (simp add: device_ok_def line_ok_def set_irq_def plic_set_irq virtio_reset_def)
qed

lemma device_ok_ack:
  assumes "device_ok s" "d = (vm_dev s)\<lparr>v_int_status := v_int_status (vm_dev s) AND NOT val\<rparr>"
  shows "device_ok (if v_int_status d = 0 then set_irq 0 (s\<lparr>vm_dev := d\<rparr>) else s\<lparr>vm_dev := d\<rparr>)"
proof -
  have "mmio_ok d" using assms by (simp add: device_ok_def mmio_ok_def)
  moreover have "line_ok (s\<lparr>vm_dev := d\<rparr>)" if "v_int_status d \<noteq> 0"
    using assms that by (auto simp: line_ok_def device_ok_def)
  moreover have "vm_dev (set_irq 0 (s\<lparr>vm_dev := d\<rparr>)) = d" by (simp add: set_irq_def)
  ultimately show ?thesis by (simp add: device_ok_def set_irq_line)
qed

text \<open>A write to the configuration space, with a callback that keeps the registers well-formed.\<close>

definition keeps_config :: "('d vm \<Rightarrow> 'd vm) option \<Rightarrow> bool" where
  "keeps_config config_write \<longleftrightarrow>
     (case config_write of None \<Rightarrow> True | Some g \<Rightarrow> \<forall>s. device_ok s \<longrightarrow> device_ok (g s))"

lemma keeps_config_None [simp]: "keeps_config None"
  by (simp add: keeps_config_def)

lemma config_write_ok:
  assumes "keeps_config config_write" "device_ok s"
  shows "device_ok (virtio_config_write config_write offset val k s)"
proof -
  have "device_ok ((case config_write of None \<Rightarrow> id | Some g \<Rightarrow> g) t)" if "device_ok t" for t
    using assms(1) that by (simp add: keeps_config_def split: option.splits)
  moreover have "device_ok (s\<lparr>vm_dev := v_config_space_update f (vm_dev s)\<rparr>)"
    if "\<And>p. length (f p) = length p" for f
    using assms(2) that by (simp add: device_ok_def mmio_ok_def line_ok_def)
  ultimately show ?thesis
    using assms(2) by (simp add: virtio_config_write_def put_le16_def put_le32_def Let_def)
qed

context queue_device
begin

lemma notify_keeps:
  assumes "device_ok s" "i < MAX_QUEUE"
  shows "stays device_ok (queue_notify device_recv i s)"
proof (cases "q_manual_recv (v_queue (vm_dev s) ! i)")
  case True
  with assms show ?thesis by (simp add: queue_notify_def stays_state)
next
  case False
  have "stays device_ok (notify_loop device_recv i a s)" for a
    using loop_keeps [of i s a] assms advanced_ok by (auto simp: mmio_ok_def device_ok_def stays_def)
  with False show ?thesis by (auto simp: queue_notify_def Let_def stays_def split: sum.splits)
qed

lemma mmio_write_keeps:
  assumes "device_ok s" "keeps_config config_write"
  shows "stays device_ok (virtio_mmio_write device_recv config_write offset val k s)"
proof -
  have lt: "unat val < MAX_QUEUE" if "val < of_nat MAX_QUEUE" using that by (simp add: word_less_nat_alt)
  note queue = device_ok_queue [OF assms(1)]
  have reset: "device_ok ((set_irq 0 (s\<lparr>vm_dev := (vm_dev s)\<lparr>v_status := 0\<rparr>\<rparr>))\<lparr>vm_dev :=
      virtio_reset (vm_dev (set_irq 0 (s\<lparr>vm_dev := (vm_dev s)\<lparr>v_status := 0\<rparr>\<rparr>)))\<rparr>)"
    using device_ok_reset [OF assms(1)] by (simp add: set_irq_def)
  show ?thesis
    unfolding virtio_mmio_write_def Let_def
    by (intro stays_if; (unfold stays_state)?;
        (rule device_ok_ack [OF assms(1) refl] | (rule queue; simp add: queue_ok_def word_gt_0) |
          simp add: assms config_write_ok device_ok_regs [OF assms(1)] notify_keeps [OF assms(1)] lt reset))
qed

end

context eager_device
begin

lemma notify_idle:
  assumes "mmio_ok (vm_dev s)" "idle (vm_opaque s)" "i < MAX_QUEUE"
  shows "stays (\<lambda>s. idle (vm_opaque s)) (queue_notify device_recv i s)"
proof -
  have "stays (\<lambda>s. idle (vm_opaque s)) (notify_loop device_recv i a s)" for a
    using loop_drains [of i s a] assms by (auto simp: mmio_ok_def stays_def)
  then show ?thesis using assms(2) by (auto simp: queue_notify_def Let_def stays_def split: sum.splits)
qed

lemma mmio_write_idle:
  assumes "mmio_ok (vm_dev s)" "idle (vm_opaque s)"
  shows "stays (\<lambda>s. idle (vm_opaque s)) (virtio_mmio_write device_recv None offset val k s)"
proof -
  have lt: "unat val < MAX_QUEUE" if "val < of_nat MAX_QUEUE" using that by (simp add: word_less_nat_alt)
  show ?thesis
    unfolding virtio_mmio_write_def Let_def
    by (intro stays_if; (unfold stays_state)?;
        simp add: assms(2) notify_idle [OF assms] lt set_irq_def virtio_config_write_def Let_def)
qed

end

section \<open>The notification register\<close>

text \<open>Its address: \<^verbatim>\<open>VIRTIO_BASE + VIRTIO_MMIO_QUEUE_NOTIFY\<close>.\<close>

abbreviation VIRTIO_NOTIFY :: u64 where "VIRTIO_NOTIFY \<equiv> 0x40010050"

lemma store_notifies:
  assumes "i < MAX_QUEUE"
  shows "virtio_store device_recv config_write VIRTIO_NOTIFY (of_nat i) s = queue_notify device_recv i s"
proof -
  consider "i = 0" | "i = 1" | "i = 2" | "i = 3" | "i = 4" | "i = 5" | "i = 6" | "i = 7" using assms by linarith
  then show ?thesis by cases (simp_all add: virtio_store_def virtio_mmio_write_def Let_def)
qed

lemma store_notifies_low:
  "virtio_store device_recv config_write VIRTIO_NOTIFY 0 s = queue_notify device_recv 0 s"
  "virtio_store device_recv config_write VIRTIO_NOTIFY 1 s = queue_notify device_recv (Suc 0) s"
  using store_notifies [of 0 device_recv config_write s] store_notifies [of 1 device_recv config_write s] by simp_all

section \<open>Queue addresses\<close>

lemma set_high_low32: "set_high32 hi (set_low32 lo a) = push_bit 32 (ucast hi) OR ucast lo"
  by (rule bit_word_eqI)
    (auto simp: set_high32_def set_low32_def bit_simps mask_numerals dest: bit_imp_le_length)

lemma set_halves: "set_high32 (ucast (drop_bit 32 v)) (set_low32 (ucast v) a) = v"
  unfolding set_high_low32 by (rule bit_word_eqI) (auto simp: bit_simps)

lemma join_halves: "push_bit 32 (ucast (ucast (drop_bit 32 v) :: u32)) + ucast (ucast v :: u32) = v" for v :: u64
proof -
  have "push_bit 32 (ucast (ucast (drop_bit 32 v) :: u32)) + ucast (ucast v :: u32) =
      (push_bit 32 (ucast (ucast (drop_bit 32 v) :: u32)) OR ucast (ucast v :: u32) :: u64)"
    by (rule plus_eq_orI) (auto simp: bit_simps)
  also have "\<dots> = v" by (rule bit_word_eqI) (auto simp: bit_simps)
  finally show ?thesis .
qed

end
