(* ===== verification/Virtio_Serve.thy ===== *)
theory Virtio_Serve
  imports Virtio_MMIO
begin

text \<open>
  What the devices of \<^verbatim>\<open>temu/virtio.c\<close> share: the accesses a device makes to the machine, the answer to
  a request, and what a well-formed request is. The contents of memory that \<^verbatim>\<open>malloc\<close> returns are an
  argument, \<open>junk\<close>.
\<close>

definition malloc_bytes :: "(nat \<Rightarrow> u8) \<Rightarrow> int \<Rightarrow> u8 list" where
  "malloc_bytes junk n = map junk [0..<nat n]"

section \<open>The interrupt signal\<close>

lemma set_irq_simps [simp]:
  "vm_dev (set_irq l s) = vm_dev s" "vm_opaque (set_irq l s) = vm_opaque s"
  "memory (vm_emu (set_irq l s)) = memory (vm_emu s)"
  "SEIP (vm_emu (set_irq l s)) = of_bool (l \<noteq> 0)"
  by (simp_all add: set_irq_def plic_set_irq)

lemma or_1_not_0: "x OR 1 \<noteq> 0" for x :: u32
proof
  assume "x OR 1 = 0"
  from arg_cong [OF this, of "\<lambda>w. bit w 0"] show False by (simp add: bit_simps)
qed

section \<open>What the device leaves alone\<close>

text \<open>
  Of the hart, a device can change RAM and, through its line, the pending bits; nothing else.
\<close>

definition bus_access :: "emu \<Rightarrow> emu \<Rightarrow> bool" where
  "bus_access e e' \<longleftrightarrow> (\<exists>m p b. (b = SEIP e \<or> b \<le> 1) \<and>
     e' = upd_mip (ip_SEIP_update (\<lambda>_. b)) (e\<lparr>memory := m, plic_pending_irq := p\<rparr>))"

lemma bus_access_refl: "bus_access e e"
  unfolding bus_access_def by (intro exI [of _ "memory e"] exI [of _ "plic_pending_irq e"] exI [of _ "SEIP e"]) simp

lemma bus_access_trans: "bus_access e e1 \<Longrightarrow> bus_access e1 e2 \<Longrightarrow> bus_access e e2"
proof -
  assume "bus_access e e1" "bus_access e1 e2"
  then obtain m p b m' p' b' where "b = SEIP e \<or> b \<le> 1" "b' = SEIP e1 \<or> b' \<le> 1"
      and e: "e1 = upd_mip (ip_SEIP_update (\<lambda>_. b)) (e\<lparr>memory := m, plic_pending_irq := p\<rparr>)"
        "e2 = upd_mip (ip_SEIP_update (\<lambda>_. b')) (e1\<lparr>memory := m', plic_pending_irq := p'\<rparr>)"
    unfolding bus_access_def by blast
  then have "b' = SEIP e \<or> b' \<le> 1" by auto
  then show "bus_access e e2"
    unfolding bus_access_def by (intro exI [of _ m'] exI [of _ p'] exI [of _ b']) (simp add: e)
qed

lemma bus_access_memory: "bus_access e (e\<lparr>memory := m\<rparr>)"
  unfolding bus_access_def by (intro exI [of _ m] exI [of _ "plic_pending_irq e"] exI [of _ "SEIP e"]) simp

lemma bus_access_irq: "bus_access (vm_emu s) (vm_emu (set_irq l s))"
  unfolding bus_access_def set_irq_def plic_set_irq
  by (intro exI [of _ "memory (vm_emu s)"] exI [of _ "l \<noteq> 0"] exI [of _ "of_bool (l \<noteq> 0)"]) simp

lemma bus_access_keeps:
  assumes "bus_access e e'"
  shows "cycle_count e' = cycle_count e" "cycle (csrs e') = cycle (csrs e)" "csr_ok (csrs e) \<Longrightarrow> csr_ok (csrs e')"
    "PC e' = PC e" "reg_file e' = reg_file e" "cp e' = cp e" "faults e' = faults e"
  using assms by (auto simp: bus_access_def csr_ok_def mip_ok_SEIP mip_ok_def)

lemma consume_desc_bus: "virtio_consume_desc queue_idx d n s = Inr s' \<Longrightarrow> bus_access (vm_emu s) (vm_emu s')"
proof -
  assume "virtio_consume_desc queue_idx d n s = Inr s'"
  then obtain m i where "s' = set_irq 1 (s\<lparr>vm_emu := (vm_emu s)\<lparr>memory := m\<rparr>, vm_dev := (vm_dev s)\<lparr>v_int_status := i\<rparr>\<rparr>)"
    by (auto simp: virtio_consume_desc_def Let_def andThen_Inr_iff)
  then show ?thesis
    using bus_access_trans [OF bus_access_memory] bus_access_irq
      [of "s\<lparr>vm_emu := (vm_emu s)\<lparr>memory := m\<rparr>, vm_dev := (vm_dev s)\<lparr>v_int_status := i\<rparr>\<rparr>" 1] by simp
qed

text \<open>A device that, of the hart, touches only what a bus access may.\<close>

locale bus_device = queue_device device_recv for device_recv :: "'d device_recv" +
  assumes recv_bus: "device_recv queue_idx d r w s = Some (Inr (ret, s')) \<Longrightarrow> bus_access (vm_emu s) (vm_emu s')"
begin

lemma serves_bus: "serves device_recv queue_idx s s' \<Longrightarrow> bus_access (vm_emu s) (vm_emu s')"
  by (erule serves.cases) (auto simp: advance_def bus_access_refl dest: recv_bus)

lemma notify_bus:
  assumes "mmio_ok (vm_dev s)" "i < MAX_QUEUE"
  shows "stays (\<lambda>s'. bus_access (vm_emu s) (vm_emu s')) (queue_notify device_recv i s)"
proof -
  have "bus_access (vm_emu s) (vm_emu s')" if "notify_loop device_recv i a s = Some (Inr s')" for a s'
  proof -
    have "i < length (v_queue (vm_dev s))" using assms by (simp add: mmio_ok_def)
    from loop_runs [OF this that] obtain t where t: "(serves device_recv i)\<^sup>*\<^sup>* s t"
        "s' = t \<or> (\<exists>d r w ret. device_recv i d r w t = Some (Inr (ret, s')) \<and> ret < 0)" by blast
    from t(1) have "bus_access (vm_emu s) (vm_emu t)"
      by induction (auto intro: bus_access_refl bus_access_trans serves_bus)
    then show ?thesis using t(2) bus_access_trans recv_bus by blast
  qed
  then show ?thesis by (auto simp: queue_notify_def Let_def stays_def bus_access_refl split: sum.splits if_splits)
qed

lemma store_bus:
  assumes "mmio_ok (vm_dev s)"
  shows "stays (\<lambda>s'. bus_access (vm_emu s) (vm_emu s')) (virtio_store device_recv None a b s)"
proof -
  have lt: "unat val < MAX_QUEUE" if "val < of_nat MAX_QUEUE" for val :: u32 using that by (simp add: word_less_nat_alt)
  have irq: "bus_access (vm_emu s) (vm_emu (set_irq 0 (s\<lparr>vm_dev := d\<rparr>)))" for d
    using bus_access_irq [of "s\<lparr>vm_dev := d\<rparr>" 0] by simp
  show ?thesis
    unfolding virtio_store_def virtio_mmio_write_def Let_def
    by (intro stays_if; (unfold stays_state)?;
        simp add: assms bus_access_refl irq notify_bus lt virtio_config_write_def Let_def)
qed

end

section \<open>Results that may not return\<close>

text \<open>What follows a computation that may not return or may end the process.\<close>

definition andDo :: "'a result option \<Rightarrow> ('a \<Rightarrow> 'b result option) \<Rightarrow> 'b result option" where
  "andDo r f = (case r of None \<Rightarrow> None | Some (Inl h) \<Rightarrow> Some (Inl h) | Some (Inr x) \<Rightarrow> f x)"

lemma andDo_simps [simp]: "andDo None f = None" "andDo (Some (Inl h)) f = Some (Inl h)" "andDo (Some (Inr x)) f = f x"
  by (simp_all add: andDo_def)

lemma andDo_Inr_iff: "andDo r f = Some (Inr y) \<longleftrightarrow> (\<exists>x. r = Some (Inr x) \<and> f x = Some (Inr y))"
  by (auto simp: andDo_def split: option.splits sum.splits)

lemma andDo_None_iff: "andDo r f = None \<longleftrightarrow> r = None \<or> (\<exists>x. r = Some (Inr x) \<and> f x = None)"
  by (auto simp: andDo_def split: option.splits sum.splits)

section \<open>Answering a request\<close>

text \<open>
  The scheme of the devices: \<open>count\<close> bytes of \<open>buf\<close> to the chain, whether they fit or not, and then the
  used ring.
\<close>

definition to_queue :: "nat \<Rightarrow> int \<Rightarrow> int \<Rightarrow> u8 list \<Rightarrow> int \<Rightarrow> 'd vm \<Rightarrow> 'd vm result option" where
  "to_queue queue_idx desc_idx offset buf count s =
     andDo (memcpy_to_queue (vm_dev s) queue_idx desc_idx offset buf count (memory (vm_emu s))) (\<lambda>(_, _, m).
     Some (Inr (s\<lparr>vm_emu := (vm_emu s)\<lparr>memory := m\<rparr>\<rparr>)))"

definition answer :: "nat \<Rightarrow> int \<Rightarrow> u8 list \<Rightarrow> int \<Rightarrow> 'd vm \<Rightarrow> 'd vm result option" where
  "answer queue_idx desc_idx buf len s =
     andDo (to_queue queue_idx desc_idx 0 buf len s) (\<lambda>s.
     Some (virtio_consume_desc queue_idx desc_idx len s))"

text \<open>Of the device only the interrupt status changes, and the line is up.\<close>

definition replied :: "'d vm \<Rightarrow> 'd vm \<Rightarrow> bool" where
  "replied s s' \<longleftrightarrow> vm_dev s' = (vm_dev s)\<lparr>v_int_status := v_int_status (vm_dev s')\<rparr> \<and>
     line_ok s' \<and> bus_access (vm_emu s) (vm_emu s')"

lemma consume_desc_replied:
  assumes "virtio_consume_desc queue_idx desc_idx desc_len s = Inr s'"
  shows "replied s s'" "vm_opaque s' = vm_opaque s"
  using assms consume_desc_bus [OF assms]
  by (auto simp: virtio_consume_desc_def Let_def andThen_Inr_iff replied_def line_ok_def or_1_not_0 set_irq_def
      plic_set_irq)

lemma replied_refl: "line_ok s \<Longrightarrow> replied s s"
  by (simp add: replied_def bus_access_refl)

lemma to_queue_frame:
  assumes "to_queue queue_idx desc_idx offset buf count s = Some (Inr s')"
  obtains m where "s' = s\<lparr>vm_emu := (vm_emu s)\<lparr>memory := m\<rparr>\<rparr>"
  using assms by (auto simp: to_queue_def andDo_Inr_iff)

lemma answer_replied:
  assumes "answer queue_idx desc_idx buf len s = Some (Inr s')"
  shows "replied s s'" "vm_opaque s' = vm_opaque s"
proof -
  from assms obtain m where m: "virtio_consume_desc queue_idx desc_idx len (s\<lparr>vm_emu := (vm_emu s)\<lparr>memory := m\<rparr>\<rparr>) = Inr s'"
    by (auto simp: answer_def andDo_Inr_iff elim: to_queue_frame)
  from consume_desc_replied [OF this] show "replied s s'" "vm_opaque s' = vm_opaque s"
    using bus_access_trans [OF bus_access_memory [of "vm_emu s" m]] by (simp_all add: replied_def)
qed

lemma replied_opaque [simp]: "replied (vm_opaque_update f s) = replied s"
  by (rule ext) (simp add: replied_def)

section \<open>Well-formed requests\<close>

text \<open>
  A request as the driver should make it: descriptor \<open>d\<close> starts a chain of buffers the device reads
  (\<open>rs\<close>) and then buffers it writes (\<open>ws\<close>), all in RAM; the latter lie apart from each other, from the
  descriptor table and from the part of the used ring the answer goes to.
\<close>

definition request_ok :: "'d vm \<Rightarrow> nat \<Rightarrow> u16 \<Rightarrow> VIRTIODesc list \<Rightarrow> VIRTIODesc list \<Rightarrow> u16 \<Rightarrow> bool" where
  "request_ok s queue_idx d rs ws index \<longleftrightarrow>
     (let m = memory (vm_emu s); dev = vm_dev s; qs = v_queue dev ! queue_idx in
      (\<exists>d0. get_desc dev queue_idx (uint d) m = Inr d0 \<and> chain dev queue_idx m d0 (rs @ ws)) \<and>
      (\<forall>x \<in> set rs. write_flag x = 0 \<and> desc_in_ram x) \<and> (\<forall>x \<in> set ws. write_flag x \<noteq> 0 \<and> desc_in_ram x) \<and>
      chain_len rs < 2 ^ 31 \<and> chain_len ws < 2 ^ 31 \<and> separate dev queue_idx ws \<and>
      mem_read16 (q_used_addr qs + 2) m = Inr index \<and> used_ring_ok (q_used_addr qs) index (q_num qs) \<and>
      (\<forall>x \<in> set ws. desc_window x \<inter> used_window (q_used_addr qs) index (q_num qs) = {}))"

text \<open>
  The answer: \<open>bs\<close> in the buffers, the descriptor and the length in the used ring, whose index has
  advanced, and the interrupt raised; no other byte of RAM has changed.
\<close>

definition answered ::
    "'d vm \<Rightarrow> nat \<Rightarrow> u16 \<Rightarrow> int \<Rightarrow> u16 \<Rightarrow> VIRTIODesc list \<Rightarrow> u8 list \<Rightarrow> 'd vm \<Rightarrow> bool" where
  "answered s queue_idx d len index ws bs s' \<longleftrightarrow>
     (let m = memory (vm_emu s); m' = memory (vm_emu s'); qs = v_queue (vm_dev s) ! queue_idx;
          base = q_used_addr qs; entry = base + of_nat (used_entry index (q_num qs)) in
      payload m' ws = bs \<and> mem_read16 (base + 2) m' = Inr (index + 1) \<and>
      mem_read32 entry m' = Inr (ucast d) \<and> mem_read32 (entry + 4) m' = Inr (of_int len) \<and>
      (\<forall>b. b \<notin> (\<Union>x \<in> set ws. desc_window x) \<union> used_window base index (q_num qs) \<longrightarrow>
        ram_byte m' b = ram_byte m b) \<and>
      SEIP (vm_emu s') = 1 \<and> v_int_status (vm_dev s') = v_int_status (vm_dev s) OR 1)"

lemma request_opaque [simp]:
  "request_ok (vm_opaque_update f s) = request_ok s"
  "answered (vm_opaque_update f s) = answered s"
  by (simp_all add: request_ok_def answered_def fun_eq_iff)

abbreviation with_ram :: "memory \<Rightarrow> 'd vm \<Rightarrow> 'd vm" where
  "with_ram m s \<equiv> s\<lparr>vm_emu := (vm_emu s)\<lparr>memory := m\<rparr>\<rparr>"

text \<open>Writing to the buffers leaves the request as it is.\<close>

lemma request_after:
  assumes "request_ok s queue_idx d rs ws index"
    and "\<And>b. b \<notin> (\<Union>x \<in> set ws. desc_window x) \<Longrightarrow> ram_byte m b = ram_byte (memory (vm_emu s)) b"
  shows "request_ok (with_ram m s) queue_idx d rs ws index"
proof -
  define qs where "qs = v_queue (vm_dev s) ! queue_idx"
  define base num where "base = q_used_addr qs" and "num = q_num qs"
  note ok = assms(1) [unfolded request_ok_def Let_def, folded qs_def, folded base_def num_def]
  have table: "ram_byte m b = ram_byte (memory (vm_emu s)) b" if "b \<in> table_window (vm_dev s) queue_idx" for b
    by (rule assms(2)) (use ok that in \<open>auto simp: separate_def\<close>)
  have "get_desc (vm_dev s) queue_idx (uint i) m = get_desc (vm_dev s) queue_idx (uint i) (memory (vm_emu s))" for i :: u16
    by (rule get_desc_cong) (use table in auto)
  moreover have "chain (vm_dev s) queue_idx m d0 xs" if "chain (vm_dev s) queue_idx (memory (vm_emu s)) d0 xs" for d0 xs
    using chain_cong [OF that] table by metis
  moreover have al: "base AND 3 = 0" using ok by (simp add: used_ring_ok_def)
  have "mem_read16 (base + 2) m = mem_read16 (base + 2) (memory (vm_emu s))"
    by (rule ram16.rd_window [OF used_lanes(1) [OF al]], rule assms(2)) (use ok in \<open>auto simp: used_window_def\<close>)
  ultimately show ?thesis
    using ok unfolding request_ok_def Let_def
    by (auto simp: qs_def [symmetric] base_def [symmetric] num_def [symmetric])
qed

lemma scatter_ok:
  assumes "request_ok s queue_idx d rs ws index" "0 \<le> offset" "offset + count \<le> chain_len ws" "int (length buf) = count"
  obtains m where "to_queue queue_idx (uint d) offset buf count s = Some (Inr (with_ram m s))"
    "payload m ws = splice (nat offset) buf (payload (memory (vm_emu s)) ws)"
    "\<And>b. b \<notin> (\<Union>x \<in> set ws. desc_window x) \<Longrightarrow> ram_byte m b = ram_byte (memory (vm_emu s)) b"
    "request_ok (with_ram m s) queue_idx d rs ws index"
proof (cases "count = 0")
  case True
  then have "to_queue queue_idx (uint d) offset buf count s = Some (Inr (with_ram (memory (vm_emu s)) s))"
    by (simp add: to_queue_def memcpy_to_queue_def memcpy_to_from_queue_def)
  moreover have "buf = []" using True assms(4) by simp
  ultimately show thesis using that [of "memory (vm_emu s)"] assms(1) by (simp add: splice_def)
next
  case False
  let ?m = "memory (vm_emu s)"
  note ok = assms(1) [unfolded request_ok_def Let_def]
  from ok obtain d0 where d0: "get_desc (vm_dev s) queue_idx (uint d) ?m = Inr d0"
      "chain (vm_dev s) queue_idx ?m d0 (rs @ ws)" by blast
  have "\<exists>m'. memcpy_to_queue (vm_dev s) queue_idx (uint d) offset buf count ?m = Some (Inr (0, buf, m')) \<and>
      payload m' ws = splice (nat offset) buf (payload ?m ws) \<and>
      (\<forall>b. b \<notin> (\<Union>x \<in> set ws. desc_window x) \<longrightarrow> ram_byte m' b = ram_byte ?m b)"
    by (rule copy_scatters [OF d0]) (use ok assms(2-4) False in auto)
  then obtain m where m: "memcpy_to_queue (vm_dev s) queue_idx (uint d) offset buf count ?m = Some (Inr (0, buf, m))"
      "payload m ws = splice (nat offset) buf (payload ?m ws)"
      "\<And>b. b \<notin> (\<Union>x \<in> set ws. desc_window x) \<Longrightarrow> ram_byte m b = ram_byte ?m b" by auto
  show thesis
    by (rule that [OF _ m(2,3) request_after [OF assms(1) m(3)]]) (simp add: to_queue_def m(1))
qed

lemma consume_ok:
  assumes "request_ok s queue_idx d rs ws index"
  obtains s' where "virtio_consume_desc queue_idx (uint d) len s = Inr s'" "vm_opaque s' = vm_opaque s"
    "answered s queue_idx d len index ws (payload (memory (vm_emu s)) ws) s'"
proof -
  define qs where "qs = v_queue (vm_dev s) ! queue_idx"
  define base num where "base = q_used_addr qs" and "num = q_num qs"
  note ok = assms(1) [unfolded request_ok_def Let_def, folded qs_def, folded base_def num_def]
  have ring: "used_ring_ok base index num" and apart: "\<forall>x \<in> set ws. desc_window x \<inter> used_window base index num = {}"
    and idx: "mem_read16 (base + 2) (memory (vm_emu s)) = Inr index"
    using ok by blast+
  from consume_desc [OF idx, of qs queue_idx num "uint d" len] ring
  obtain m2 where m2: "virtio_consume_desc queue_idx (uint d) len s =
      Inr (set_irq 1 (s\<lparr>vm_emu := (vm_emu s)\<lparr>memory := m2\<rparr>,
        vm_dev := (vm_dev s)\<lparr>v_int_status := v_int_status (vm_dev s) OR 1\<rparr>\<rparr>))"
    "mem_read16 (base + 2) m2 = Inr (index + 1)"
    "mem_read32 (base + of_nat (used_entry index num)) m2 = Inr (ucast d)"
    "mem_read32 (base + of_nat (used_entry index num) + 4) m2 = Inr (of_int len)"
    "\<And>b. b \<notin> used_window base index num \<Longrightarrow> ram_byte m2 b = ram_byte (memory (vm_emu s)) b"
    by (auto simp: qs_def base_def num_def)
  have "payload m2 ws = payload (memory (vm_emu s)) ws"
    by (rule payload_cong, rule m2(5)) (use apart in auto)
  then have "answered s queue_idx d len index ws (payload (memory (vm_emu s)) ws)
      (set_irq 1 (s\<lparr>vm_emu := (vm_emu s)\<lparr>memory := m2\<rparr>,
        vm_dev := (vm_dev s)\<lparr>v_int_status := v_int_status (vm_dev s) OR 1\<rparr>\<rparr>))"
    using m2(2-5) unfolding answered_def Let_def qs_def [symmetric] base_def [symmetric] num_def [symmetric]
    by auto
  then show thesis using m2(1) by (intro that) simp_all
qed

lemma answered_after:
  assumes "answered (with_ram m s) queue_idx d len index ws bs s'"
    and "\<And>b. b \<notin> (\<Union>x \<in> set ws. desc_window x) \<Longrightarrow> ram_byte m b = ram_byte (memory (vm_emu s)) b"
  shows "answered s queue_idx d len index ws bs s'"
  using assms by (simp add: answered_def Let_def)

lemma answer_ok:
  assumes "request_ok s queue_idx d rs ws index" "0 \<le> len" "len \<le> chain_len ws" "int (length buf) = len"
  shows "\<exists>s'. answer queue_idx (uint d) buf len s = Some (Inr s') \<and> vm_opaque s' = vm_opaque s \<and>
    answered s queue_idx d len index ws (splice 0 buf (payload (memory (vm_emu s)) ws)) s'"
proof -
  obtain m where m: "to_queue queue_idx (uint d) 0 buf len s = Some (Inr (with_ram m s))"
      "payload m ws = splice 0 buf (payload (memory (vm_emu s)) ws)"
      "\<And>b. b \<notin> (\<Union>x \<in> set ws. desc_window x) \<Longrightarrow> ram_byte m b = ram_byte (memory (vm_emu s)) b"
      "request_ok (with_ram m s) queue_idx d rs ws index"
    using scatter_ok [OF assms(1), of 0 len buf] assms(2-4) by auto
  obtain s' where "virtio_consume_desc queue_idx (uint d) len (with_ram m s) = Inr s'" "vm_opaque s' = vm_opaque s"
      "answered (with_ram m s) queue_idx d len index ws (payload m ws) s'"
    using consume_ok [OF m(4), of len] by auto
  then show ?thesis using m(1,2) answered_after [OF _ m(3)] by (auto simp: answer_def)
qed

lemma gather_request:
  assumes "request_ok s queue_idx d rs ws index" "0 \<le> offset" "offset + int (length buf) \<le> chain_len rs"
  shows "memcpy_from_queue (vm_dev s) buf queue_idx (uint d) offset (int (length buf)) (memory (vm_emu s)) =
    Some (Inr (0, take (length buf) (drop (nat offset) (payload (memory (vm_emu s)) rs)), memory (vm_emu s)))"
proof (cases "buf = []")
  case True
  then show ?thesis by (simp add: memcpy_from_queue_def memcpy_to_from_queue_def)
next
  case False
  from assms(1) obtain d0 where "get_desc (vm_dev s) queue_idx (uint d) (memory (vm_emu s)) = Inr d0"
      "chain (vm_dev s) queue_idx (memory (vm_emu s)) d0 (rs @ ws)"
    unfolding request_ok_def Let_def by blast
  from copy_gathers [OF this, of offset "int (length buf)" buf] show ?thesis
    using assms False unfolding request_ok_def Let_def by auto
qed

context queue_device
begin

text \<open>A notification with one request in the available ring.\<close>

lemma notify_one:
  assumes "queue_idx < length (v_queue (vm_dev s))" "\<not> q_manual_recv (v_queue (vm_dev s) ! queue_idx)"
    and "virtio_read16 (q_avail_addr (v_queue (vm_dev s) ! queue_idx) + 2) (memory (vm_emu s)) =
      Inr (q_last_avail_idx (v_queue (vm_dev s) ! queue_idx) + 1)"
    and "avail_entry queue_idx s = Inr d"
    and "get_desc_rw_size (vm_dev s) queue_idx (uint d) (memory (vm_emu s)) = Some (Inr (Some (r, w)))"
    and "device_recv queue_idx (uint d) r w s = Some (Inr (ret, s'))" "0 \<le> ret"
  shows "queue_notify device_recv queue_idx s = Some (Inr (advance queue_idx s'))"
proof -
  let ?a = "q_last_avail_idx (v_queue (vm_dev s) ! queue_idx) + 1"
  have "?a \<noteq> q_last_avail_idx (v_queue (vm_dev s) ! queue_idx)" by simp
  then have "notify_loop device_recv queue_idx ?a s = notify_loop device_recv queue_idx ?a (advance queue_idx s')"
    using assms(4-7) by (subst notify_loop_round) simp
  also have "\<dots> = Some (Inr (advance queue_idx s'))"
    using assms(1) keeps_queue [OF assms(6)] by (subst notify_loop_round) (simp add: advance_def)
  finally show ?thesis using assms(2,3) by (simp add: queue_notify_def)
qed

end

text \<open>The size of a request is what the loop computes.\<close>

lemma request_sizes:
  assumes "request_ok s queue_idx d rs ws index"
  shows "get_desc_rw_size (vm_dev s) queue_idx (uint d) (memory (vm_emu s)) =
    Some (Inr (Some (chain_len rs, chain_len ws)))"
proof -
  from assms obtain d0 where d0: "get_desc (vm_dev s) queue_idx (uint d) (memory (vm_emu s)) = Inr d0"
      "chain (vm_dev s) queue_idx (memory (vm_emu s)) d0 (rs @ ws)"
    unfolding request_ok_def Let_def by blast
  have ws: "\<forall>x \<in> set ws. write_flag x \<noteq> 0" "ws = [] \<or> write_flag (hd ws) \<noteq> 0"
    and rs: "\<forall>x \<in> set rs. write_flag x = 0"
    and len: "chain_len rs < 2 ^ 31" "chain_len ws < 2 ^ 31"
    using assms unfolding request_ok_def Let_def by auto
  show ?thesis
    using rw_size_chain [OF d0(2) rs len ws(2)] d0(1) ws(1) by (simp add: get_desc_rw_size_def)
qed

text \<open>
  The contracts of \<open>queue_device\<close> and \<open>bus_device\<close> for a device that leaves a request alone or answers it.
\<close>

lemma bus_deviceI:
  assumes "\<And>queue_idx d r w s ret s'. device_recv queue_idx d r w s = Some (Inr (ret, s')) \<Longrightarrow>
    vm_emu s' = vm_emu s \<and> vm_dev s' = vm_dev s \<or> replied s s'"
  shows "bus_device device_recv"
proof unfold_locales
  fix queue_idx d r w s ret s'
  assume "device_recv queue_idx d r w s = Some (Inr (ret, s'))"
  note cases = assms [OF this]
  show "vm_dev s' = (vm_dev s)\<lparr>v_int_status := v_int_status (vm_dev s')\<rparr>" using cases by (auto simp: replied_def)
  show "line_ok s'" if "line_ok s" using cases that by (auto simp: replied_def line_ok_def)
  show "bus_access (vm_emu s) (vm_emu s')" using cases by (auto simp: replied_def bus_access_refl)
qed

section \<open>Sending to the driver\<close>

text \<open>
  The devices that send data of their own take a chain from the available ring of a queue with
  \<^verbatim>\<open>manual_recv\<close>: the next one, if the queue is ready and the driver has put one there.
\<close>

definition next_avail :: "nat \<Rightarrow> 'd vm \<Rightarrow> int option result" where
  "next_avail queue_idx s =
     (let qs = v_queue (vm_dev s) ! queue_idx in
      if q_ready qs = 0 then Inr None
      else andThen (virtio_read16 (q_avail_addr qs + 2) (memory (vm_emu s))) (\<lambda>avail_idx.
        if q_last_avail_idx qs = avail_idx then Inr None
        else andThen (avail_entry queue_idx s) (\<lambda>desc_idx. Inr (Some (uint desc_idx)))))"

text \<open>Both \<^verbatim>\<open>can_write\<close> functions.\<close>

definition can_send :: "'d vm \<Rightarrow> bool result" where
  "can_send s =
     (let qs = v_queue (vm_dev s) ! 0 in
      if q_ready qs = 0 then Inr False
      else andThen (virtio_read16 (q_avail_addr qs + 2) (memory (vm_emu s))) (\<lambda>avail_idx.
        Inr (q_last_avail_idx qs \<noteq> avail_idx)))"

lemma can_send_iff: "next_avail 0 s = Inr (Some d) \<Longrightarrow> can_send s = Inr True"
  "next_avail 0 s = Inr None \<Longrightarrow> can_send s = Inr False"
  by (auto simp: next_avail_def can_send_def Let_def andThen_Inr_iff split: if_splits)

lemma advance_simps [simp]: "vm_emu (advance i s) = vm_emu s" "vm_opaque (advance i s) = vm_opaque s"
  "v_int_status (vm_dev (advance i s)) = v_int_status (vm_dev s)"
  by (simp_all add: advance_def)

lemma advance_queue:
  "i < length (v_queue (vm_dev s)) \<Longrightarrow>
   v_queue (vm_dev (advance i s)) ! i = (v_queue (vm_dev s) ! i)\<lparr>q_last_avail_idx := q_last_avail_idx (v_queue (vm_dev s) ! i) + 1\<rparr>"
  by (simp add: advance_def)

lemma advance_ok: "device_ok s \<Longrightarrow> i < MAX_QUEUE \<Longrightarrow> device_ok (advance i s)"
  using advanced_ok [OF advanced_advance, of s i] by (simp add: device_ok_def line_ok_def)

lemma replied_ok: "device_ok s \<Longrightarrow> replied s s' \<Longrightarrow> device_ok s'"
proof -
  assume s: "device_ok s" "replied s s'"
  have "mmio_ok ((vm_dev s)\<lparr>v_int_status := i\<rparr>)" for i using s(1) by (simp add: device_ok_def mmio_ok_def)
  then show "device_ok s'" using s(2) by (metis replied_def device_ok_def)
qed

lemma with_ram_ok: "device_ok s \<Longrightarrow> device_ok (with_ram m s)"
  by (simp add: device_ok_def line_ok_def)

end
