(* ===== verification/Block_File.thy ===== *)
theory Block_File
  imports Virtio_Queue
begin

text \<open>
  The disk of \<^verbatim>\<open>temu/temu.c\<close>: a file of sectors, opened read-only, read-write or as a snapshot whose
  writes stay in memory. The file is its bytes and a position; errors of the host's file system are
  not modelled. The interface \<open>sector_store\<close> states what the block device may rely on.
\<close>

section \<open>Files\<close>

datatype BlockDeviceModeEnum = BF_MODE_RO | BF_MODE_RW | BF_MODE_SNAPSHOT

record BlockDeviceFile =
  bf_f :: "u8 list option"
  bf_pos :: nat
  bf_nb_sectors :: int
  bf_mode :: BlockDeviceModeEnum
  bf_sector_table :: "u64 \<Rightarrow> u8 list option"

abbreviation SECTOR_SIZE :: nat where "SECTOR_SIZE \<equiv> 512"

text \<open>
  \<^verbatim>\<open>fseek(f, offset, SEEK_SET)\<close> fails on a negative offset and leaves the position; \<^verbatim>\<open>fread\<close> reads at
  most what the file has; \<^verbatim>\<open>fwrite\<close> past the end fills the gap with zeros.
\<close>

definition f_seek :: "u64 \<Rightarrow> BlockDeviceFile \<Rightarrow> BlockDeviceFile" where
  "f_seek offset bf = (if sint offset < 0 then bf else bf\<lparr>bf_pos := unat offset\<rparr>)"

definition f_read :: "nat \<Rightarrow> BlockDeviceFile \<Rightarrow> u8 list \<times> BlockDeviceFile" where
  "f_read n bf =
     (let bs = take n (drop (bf_pos bf) (the (bf_f bf))) in (bs, bf\<lparr>bf_pos := bf_pos bf + length bs\<rparr>))"

definition f_write :: "u8 list \<Rightarrow> BlockDeviceFile \<Rightarrow> BlockDeviceFile" where
  "f_write bs bf =
     (if bs = [] then bf
      else let c = the (bf_f bf); p = bf_pos bf in
        bf\<lparr>bf_f := Some (take p c @ replicate (p - length c) 0 @ bs @ drop (p + length bs) c),
           bf_pos := p + length bs\<rparr>)"

definition bf_get_sector_count :: "BlockDeviceFile \<Rightarrow> int" where
  "bf_get_sector_count bf = bf_nb_sectors bf"

text \<open>Writing \<open>bs\<close> at position \<open>p\<close> of a buffer that is too small is undefined behaviour.\<close>

definition buf_put :: "nat \<Rightarrow> u8 list \<Rightarrow> u8 list \<Rightarrow> u8 list result" where
  "buf_put p bs buf =
     (if p + length bs \<le> length buf then Inr (take p buf @ bs @ drop (p + length bs) buf)
      else Inl BadPointer)"

text \<open>
  The loop of the snapshot mode. The table has \<^verbatim>\<open>nb_sectors\<close> entries, and the code does not test
  \<^verbatim>\<open>sector_num\<close> before it looks there.
\<close>

primrec snapshot_read ::
    "nat \<Rightarrow> u64 \<Rightarrow> nat \<Rightarrow> u8 list \<Rightarrow> BlockDeviceFile \<Rightarrow> (u8 list \<times> BlockDeviceFile) result" where
  "snapshot_read 0 sector_num p buf bf = Inr (buf, bf)"
| "snapshot_read (Suc n) sector_num p buf bf =
     (if uint sector_num \<ge> bf_nb_sectors bf then Inl BadPointer
      else
        (let (bs, bf) = (case bf_sector_table bf sector_num of
               None \<Rightarrow> f_read SECTOR_SIZE (f_seek (sector_num * of_nat SECTOR_SIZE) bf)
             | Some sec \<Rightarrow> (sec, bf)) in
         andThen (buf_put p bs buf) (\<lambda>buf.
         snapshot_read n (sector_num + 1) (p + SECTOR_SIZE) buf bf)))"

definition bf_read_async ::
    "u64 \<Rightarrow> u8 list \<Rightarrow> int \<Rightarrow> BlockDeviceFile \<Rightarrow> (int \<times> u8 list \<times> BlockDeviceFile) result" where
  "bf_read_async sector_num buf n bf =
     (if bf_f bf = None then Inr (-1, buf, bf)
      else if bf_mode bf = BF_MODE_SNAPSHOT then
        andThen (snapshot_read (nat n) sector_num 0 buf bf) (\<lambda>(buf, bf). Inr (0, buf, bf))
      else
        (let (bs, bf) = f_read (unat (of_int (n * int SECTOR_SIZE) :: u64))
               (f_seek (sector_num * of_nat SECTOR_SIZE) bf) in
         andThen (buf_put 0 bs buf) (\<lambda>buf. Inr (0, buf, bf))))"

primrec snapshot_write :: "nat \<Rightarrow> u64 \<Rightarrow> u8 list \<Rightarrow> BlockDeviceFile \<Rightarrow> BlockDeviceFile result" where
  "snapshot_write 0 sector_num buf bf = Inr bf"
| "snapshot_write (Suc n) sector_num buf bf =
     (if uint sector_num \<ge> bf_nb_sectors bf then Inl BadPointer
      else snapshot_write n (sector_num + 1) (drop SECTOR_SIZE buf)
        (bf\<lparr>bf_sector_table := (bf_sector_table bf)(sector_num \<mapsto> take SECTOR_SIZE buf)\<rparr>))"

text \<open>The buffer must hold the \<open>n\<close> sectors.\<close>

definition bf_write_async :: "u64 \<Rightarrow> u8 list \<Rightarrow> int \<Rightarrow> BlockDeviceFile \<Rightarrow> (int \<times> BlockDeviceFile) result" where
  "bf_write_async sector_num buf n bf =
     (case bf_mode bf of
        BF_MODE_RO \<Rightarrow> Inr (-1, bf)
      | BF_MODE_RW \<Rightarrow>
          (let cnt = unat (of_int (n * int SECTOR_SIZE) :: u64) in
           if length buf < cnt then Inl BadPointer
           else Inr (0, f_write (take cnt buf) (f_seek (sector_num * of_nat SECTOR_SIZE) bf)))
      | BF_MODE_SNAPSHOT \<Rightarrow>
          if sector_num + of_int n > of_int (bf_nb_sectors bf) then Inr (-1, bf)
          else if length buf < nat n * SECTOR_SIZE then Inl BadPointer
          else andThen (snapshot_write (nat n) sector_num buf bf) (\<lambda>bf. Inr (0, bf)))"

text \<open>\<open>content\<close> is the file, which exists (\<^verbatim>\<open>exit(1)\<close> otherwise).\<close>

definition block_device_init :: "u8 list option \<Rightarrow> BlockDeviceModeEnum \<Rightarrow> BlockDeviceFile result" where
  "block_device_init content mode =
     (case content of
        None \<Rightarrow> Inl (Exit 1)
      | Some c \<Rightarrow> Inr \<lparr>bf_f = Some c, bf_pos = length c, bf_nb_sectors = int (length c) div 512,
          bf_mode = mode, bf_sector_table = (\<lambda>_. None)\<rparr>)"

section \<open>A disk of sectors\<close>

text \<open>Cutting a list into chunks and putting them together again.\<close>

lemma chunks: "length buf = k * n \<Longrightarrow> concat (map (\<lambda>i. take k (drop (k * i) buf)) [0..<n]) = buf"
proof (induction n arbitrary: buf)
  case (Suc n)
  have "concat (map (\<lambda>i. take k (drop (k * i) (take (k * n) buf))) [0..<n]) = take (k * n) buf"
    by (rule Suc.IH) (use Suc.prems in simp)
  moreover have "map (\<lambda>i. take k (drop (k * i) (take (k * n) buf))) [0..<n] =
      map (\<lambda>i. take k (drop (k * i) buf)) [0..<n]"
  proof (rule map_cong, simp, unfold set_upt atLeastLessThan_iff, elim conjE)
    fix i assume "i < n"
    then have "k * i + k \<le> k * n" by (metis Suc_leI mult_Suc_right mult_le_mono2 add.commute)
    then show "take k (drop (k * i) (take (k * n) buf)) = take k (drop (k * i) buf)"
      by (simp add: take_drop min_absorb2 add.commute)
  qed
  ultimately have "concat (map (\<lambda>i. take k (drop (k * i) buf)) [0..<n]) = take (k * n) buf" by simp
  then show ?case using Suc.prems by simp
qed simp

text \<open>
  The interface: an array of sectors that reads and writes runs of them. \<open>disk s i\<close> is the content of
  sector \<open>i\<close> of the \<open>sectors s\<close> there are; \<open>rd\<close> and \<open>wr\<close> are the operations of a block device.
\<close>

locale sector_store =
  fixes ok :: "'s \<Rightarrow> bool" and writable :: "'s \<Rightarrow> bool" and sectors :: "'s \<Rightarrow> nat"
    and disk :: "'s \<Rightarrow> nat \<Rightarrow> u8 list"
    and rd :: "u64 \<Rightarrow> u8 list \<Rightarrow> int \<Rightarrow> 's \<Rightarrow> (int \<times> u8 list \<times> 's) result"
    and wr :: "u64 \<Rightarrow> u8 list \<Rightarrow> int \<Rightarrow> 's \<Rightarrow> (int \<times> 's) result"
  assumes sector_length: "ok s \<Longrightarrow> i < sectors s \<Longrightarrow> length (disk s i) = SECTOR_SIZE"
    and rd_sectors: "ok s \<Longrightarrow> unat sec + n \<le> sectors s \<Longrightarrow> SECTOR_SIZE * n \<le> length buf \<Longrightarrow>
      \<exists>s'. rd sec buf (int n) s =
          Inr (0, concat (map (disk s) [unat sec..<unat sec + n]) @ drop (SECTOR_SIZE * n) buf, s') \<and>
        ok s' \<and> writable s' = writable s \<and> sectors s' = sectors s \<and> disk s' = disk s"
    and wr_sectors: "ok s \<Longrightarrow> writable s \<Longrightarrow> unat sec + n \<le> sectors s \<Longrightarrow> length buf = SECTOR_SIZE * n \<Longrightarrow>
      \<exists>s'. wr sec buf (int n) s = Inr (0, s') \<and> ok s' \<and> writable s' \<and> sectors s' = sectors s \<and>
        (\<forall>i < sectors s. disk s' i = (if unat sec \<le> i \<and> i < unat sec + n
          then take SECTOR_SIZE (drop (SECTOR_SIZE * (i - unat sec)) buf) else disk s i))"
begin

lemma read_after_write:
  assumes "ok s" "writable s" "unat sec + n \<le> sectors s" "length buf = SECTOR_SIZE * n"
    and "length buf' = SECTOR_SIZE * n"
  shows "\<exists>s' s''. wr sec buf (int n) s = Inr (0, s') \<and> rd sec buf' (int n) s' = Inr (0, buf, s'') \<and> ok s''"
proof -
  obtain s' where s': "wr sec buf (int n) s = Inr (0, s')" "ok s'" "sectors s' = sectors s"
      "\<And>i. i < sectors s \<Longrightarrow> disk s' i = (if unat sec \<le> i \<and> i < unat sec + n
        then take SECTOR_SIZE (drop (SECTOR_SIZE * (i - unat sec)) buf) else disk s i)"
    using wr_sectors [OF assms(1-4)] by blast
  obtain s'' where s'': "ok s''" "rd sec buf' (int n) s' =
      Inr (0, concat (map (disk s') [unat sec..<unat sec + n]) @ drop (SECTOR_SIZE * n) buf', s'')"
    using rd_sectors [OF s'(2), of sec n buf'] assms(3,5) s'(3) by auto
  have "[unat sec..<unat sec + n] = map (\<lambda>i. i + unat sec) [0..<n]"
    by (simp only: map_add_upt add.commute [of "unat sec"])
  then have "map (disk s') [unat sec..<unat sec + n] =
      map (\<lambda>i. take SECTOR_SIZE (drop (SECTOR_SIZE * i) buf)) [0..<n]"
    using assms(3) by (simp add: s'(4))
  then have "concat (map (disk s') [unat sec..<unat sec + n]) = buf"
    by (simp only: chunks [OF assms(4)])
  with s'(1) s'' assms(5) show ?thesis by simp
qed

end

section \<open>The disk file provides it\<close>

definition bf_ok :: "BlockDeviceFile \<Rightarrow> bool" where
  "bf_ok bf \<longleftrightarrow> (case bf_f bf of None \<Rightarrow> False
     | Some c \<Rightarrow> bf_nb_sectors bf = int (length c) div 512 \<and> length c < 2 ^ 63) \<and>
     (\<forall>i sec. bf_sector_table bf i = Some sec \<longrightarrow> length sec = SECTOR_SIZE)"

definition bf_writable :: "BlockDeviceFile \<Rightarrow> bool" where
  "bf_writable bf \<longleftrightarrow> bf_mode bf \<noteq> BF_MODE_RO"

definition bf_sectors :: "BlockDeviceFile \<Rightarrow> nat" where
  "bf_sectors bf = nat (bf_get_sector_count bf)"

definition bf_disk :: "BlockDeviceFile \<Rightarrow> nat \<Rightarrow> u8 list" where
  "bf_disk bf i = (case (if bf_mode bf = BF_MODE_SNAPSHOT then bf_sector_table bf (of_nat i) else None) of
     Some sec \<Rightarrow> sec
   | None \<Rightarrow> take SECTOR_SIZE (drop (SECTOR_SIZE * i) (the (bf_f bf))))"

lemma bf_init_ok:
  assumes "length c < 2 ^ 63"
  shows "\<exists>bf. block_device_init (Some c) mode = Inr bf \<and> bf_ok bf \<and> bf_writable bf = (mode \<noteq> BF_MODE_RO) \<and>
    bf_sectors bf = length c div 512 \<and> (\<forall>i. bf_disk bf i = take SECTOR_SIZE (drop (SECTOR_SIZE * i) c))"
  using assms by (simp add: block_device_init_def bf_ok_def bf_writable_def bf_sectors_def bf_disk_def
      bf_get_sector_count_def nat_div_distrib)

lemma bf_okE:
  assumes "bf_ok bf"
  obtains c where "bf_f bf = Some c" "bf_sectors bf = length c div 512" "length c < 2 ^ 63"
    "bf_nb_sectors bf = int (length c div 512)"
    "\<And>i sec. bf_sector_table bf i = Some sec \<Longrightarrow> length sec = SECTOR_SIZE"
  using assms by (auto simp: bf_ok_def bf_sectors_def bf_get_sector_count_def nat_div_distrib zdiv_int
      split: option.splits)

lemma sector_fits: "i \<le> length c div 512 \<Longrightarrow> SECTOR_SIZE * i \<le> length c"
  by (simp add: less_eq_div_iff_mult_less_eq mult.commute)

lemma sector_in_file: "i < length c div 512 \<Longrightarrow> SECTOR_SIZE * i + SECTOR_SIZE \<le> length c"
  using sector_fits [of "Suc i" c] by simp

lemma bf_sector_length:
  assumes "bf_ok bf" "i < bf_sectors bf"
  shows "length (bf_disk bf i) = SECTOR_SIZE"
  using assms(1)
proof (rule bf_okE)
  fix c assume c: "bf_f bf = Some c" "bf_sectors bf = length c div 512"
    "\<And>i sec. bf_sector_table bf i = Some sec \<Longrightarrow> length sec = SECTOR_SIZE"
  have "SECTOR_SIZE * i + SECTOR_SIZE \<le> length c" using sector_in_file [of i c] assms(2) by (simp only: c(2))
  with c(1,3) show ?thesis by (auto simp: bf_disk_def split: option.splits)
qed

lemma bf_pos_irrelevant [simp]:
  "bf_ok (bf\<lparr>bf_pos := k\<rparr>) = bf_ok bf" "bf_disk (bf\<lparr>bf_pos := k\<rparr>) = bf_disk bf"
  "bf_sectors (bf\<lparr>bf_pos := k\<rparr>) = bf_sectors bf" "bf_writable (bf\<lparr>bf_pos := k\<rparr>) = bf_writable bf"
  by (simp_all add: bf_ok_def bf_disk_def bf_sectors_def bf_get_sector_count_def bf_writable_def
      fun_eq_iff cong: option.case_cong)

text \<open>A sector number inside the file has a valid position.\<close>

lemma seek_sector:
  assumes "unat sec \<le> length c div 512" "length c < 2 ^ 63"
  shows "f_seek (sec * of_nat SECTOR_SIZE) bf = bf\<lparr>bf_pos := SECTOR_SIZE * unat sec\<rparr>"
proof -
  have "512 * unat sec \<le> length c" using assms(1) by (rule sector_fits)
  with assms(2) have lt: "512 * unat sec < 2 ^ 63" by linarith
  have k: "unat (of_nat SECTOR_SIZE :: u64) = 512" by simp
  have "unat (sec * of_nat SECTOR_SIZE) = unat sec * unat (of_nat SECTOR_SIZE :: u64)"
    by (rule unat_mult_lem [THEN iffD1]) (use lt in \<open>simp only: k\<close>, simp)
  then have u: "unat (sec * of_nat SECTOR_SIZE) = 512 * unat sec" by (simp only: k mult.commute)
  then have "uint (sec * of_nat SECTOR_SIZE) < 2 ^ 63"
    using lt unfolding uint_nat by (simp only: flip: of_nat_less_iff [where 'a = int]) simp
  then have "sint (sec * of_nat SECTOR_SIZE) = uint (sec * of_nat SECTOR_SIZE)"
    unfolding sint_uint by (intro signed_take_bit_int_eq_self) (simp_all add: order_trans [OF _ uint_ge_0])
  then show ?thesis
    using u uint_ge_0 [of "sec * of_nat SECTOR_SIZE"] unfolding f_seek_def by (simp only: not_less [symmetric]) simp
qed

lemma file_run:
  assumes "SECTOR_SIZE * (j + n) \<le> length c"
  shows "concat (map (\<lambda>i. take SECTOR_SIZE (drop (SECTOR_SIZE * i) c)) [j..<j + n]) =
    take (SECTOR_SIZE * n) (drop (SECTOR_SIZE * j) c)"
proof -
  define buf where "buf = take (SECTOR_SIZE * n) (drop (SECTOR_SIZE * j) c)"
  have len: "length buf = SECTOR_SIZE * n" using assms by (simp add: buf_def)
  have "[j..<j + n] = map (\<lambda>i. i + j) [0..<n]" by (simp only: map_add_upt add.commute [of j])
  then have "map (\<lambda>i. take SECTOR_SIZE (drop (SECTOR_SIZE * i) c)) [j..<j + n] =
      map (\<lambda>i. take SECTOR_SIZE (drop (SECTOR_SIZE * i) buf)) [0..<n]"
    by (auto simp: buf_def drop_take min_def algebra_simps)
  then show ?thesis by (simp only: chunks [OF len] buf_def [symmetric])
qed

lemma sector_succ:
  assumes "unat (sec :: u64) + Suc n \<le> k" "k < 2 ^ 63"
  shows "unat (sec + 1) = Suc (unat sec)"
proof -
  have "unat (sec + 1) = unat sec + unat (1 :: u64)"
    by (rule unat_add_lem [THEN iffD1]) (use assms in simp)
  then show ?thesis by simp
qed

lemma snapshot_read_ok:
  assumes "bf_ok bf" "bf_mode bf = BF_MODE_SNAPSHOT" "unat sec + n \<le> bf_sectors bf"
    and "p + SECTOR_SIZE * n \<le> length buf"
  shows "\<exists>k. snapshot_read n sec p buf bf =
    Inr (take p buf @ concat (map (bf_disk bf) [unat sec..<unat sec + n]) @ drop (p + SECTOR_SIZE * n) buf,
      bf\<lparr>bf_pos := k\<rparr>)"
  using assms
proof (induction n arbitrary: sec p buf bf)
  case 0
  show ?case by (rule exI [of _ "bf_pos bf"]) simp
next
  case (Suc n)
  obtain c where c: "bf_f bf = Some c" "bf_sectors bf = length c div 512" "length c < 2 ^ 63"
      "bf_nb_sectors bf = int (length c div 512)"
    using Suc.prems(1) by (rule bf_okE)
  have "length c div 512 \<le> length c" by (rule div_le_dividend)
  then have k: "length c div 512 < 2 ^ 63" using c(3) by linarith
  have lt: "unat sec < bf_sectors bf" using Suc.prems(3) by simp
  define bs where "bs = bf_disk bf (unat sec)"
  have len: "length bs = SECTOR_SIZE" using bf_sector_length [OF Suc.prems(1) lt] by (simp only: bs_def)
  have seek: "f_seek (sec * of_nat SECTOR_SIZE) bf = bf\<lparr>bf_pos := SECTOR_SIZE * unat sec\<rparr>"
    by (rule seek_sector [OF _ c(3)]) (use lt c(2) in linarith)
  obtain k1 where got: "(case bf_sector_table bf sec of
       None \<Rightarrow> f_read SECTOR_SIZE (f_seek (sec * of_nat SECTOR_SIZE) bf) | Some t \<Rightarrow> (t, bf)) = (bs, bf\<lparr>bf_pos := k1\<rparr>)"
  proof (cases "bf_sector_table bf sec")
    case None
    then show ?thesis
      using that [of "SECTOR_SIZE * unat sec + length bs"] Suc.prems(2) c(1)
      unfolding seek bs_def by (simp add: f_read_def bf_disk_def Let_def)
  next
    case (Some t)
    then show ?thesis using that [of "bf_pos bf"] Suc.prems(2) by (simp add: bs_def bf_disk_def)
  qed
  define buf1 where "buf1 = take p buf @ bs @ drop (p + SECTOR_SIZE) buf"
  have put: "buf_put p bs buf = Inr buf1" using len Suc.prems(4) by (simp add: buf_put_def buf1_def)
  have in_table: "\<not> uint sec \<ge> bf_nb_sectors bf"
    using lt unfolding c(2,4) uint_nat of_nat_le_iff by linarith
  have sec1: "unat (sec + 1) = Suc (unat sec)"
    using Suc.prems(3) k unfolding c(2) by (rule sector_succ)
  have room: "p + SECTOR_SIZE + SECTOR_SIZE * n \<le> length buf1" using len Suc.prems(4) by (simp add: buf1_def)
  obtain k2 where "snapshot_read n (sec + 1) (p + SECTOR_SIZE) buf1 (bf\<lparr>bf_pos := k1\<rparr>) =
      Inr (take (p + SECTOR_SIZE) buf1 @ concat (map (bf_disk bf) [Suc (unat sec)..<Suc (unat sec) + n]) @
        drop (p + SECTOR_SIZE + SECTOR_SIZE * n) buf1, bf\<lparr>bf_pos := k2\<rparr>)"
    using Suc.IH [of "bf\<lparr>bf_pos := k1\<rparr>" "sec + 1", OF _ _ _ room] Suc.prems(1-3) by (auto simp: sec1)
  moreover have "take (p + SECTOR_SIZE) buf1 = take p buf @ bs"
      "drop (p + SECTOR_SIZE + SECTOR_SIZE * n) buf1 = drop (p + SECTOR_SIZE * Suc n) buf"
    using len Suc.prems(4) by (simp_all add: buf1_def ac_simps)
  moreover have "[unat sec..<unat sec + Suc n] = unat sec # [Suc (unat sec)..<Suc (unat sec) + n]"
    by (simp only: upt_conv_Cons less_add_Suc1 add_Suc add_Suc_right)
  ultimately have "snapshot_read (Suc n) sec p buf bf =
      Inr (take p buf @ concat (map (bf_disk bf) [unat sec..<unat sec + Suc n]) @ drop (p + SECTOR_SIZE * Suc n) buf,
        bf\<lparr>bf_pos := k2\<rparr>)"
    using in_table put got by (simp only: snapshot_read.simps if_False Let_def split_beta fst_conv snd_conv
        andThen_simps list.map concat.simps append_assoc bs_def [symmetric])
  then show ?case by blast
qed

lemma bf_read_sectors:
  assumes "bf_ok bf" "unat sec + n \<le> bf_sectors bf" "SECTOR_SIZE * n \<le> length buf"
  shows "\<exists>bf'. bf_read_async sec buf (int n) bf =
      Inr (0, concat (map (bf_disk bf) [unat sec..<unat sec + n]) @ drop (SECTOR_SIZE * n) buf, bf') \<and>
    bf_ok bf' \<and> bf_writable bf' = bf_writable bf \<and> bf_sectors bf' = bf_sectors bf \<and> bf_disk bf' = bf_disk bf"
proof -
  obtain c where c: "bf_f bf = Some c" "bf_sectors bf = length c div 512" "length c < 2 ^ 63"
    using assms(1) by (rule bf_okE)
  show ?thesis
  proof (cases "bf_mode bf = BF_MODE_SNAPSHOT")
    case True
    obtain k where "snapshot_read n sec 0 buf bf =
        Inr (concat (map (bf_disk bf) [unat sec..<unat sec + n]) @ drop (SECTOR_SIZE * n) buf, bf\<lparr>bf_pos := k\<rparr>)"
      using snapshot_read_ok [OF assms(1) True assms(2), of 0 buf] assms(3) by auto
    then show ?thesis using assms(1) True c(1) by (simp add: bf_read_async_def)
  next
    case False
    have fits: "SECTOR_SIZE * (unat sec + n) \<le> length c"
      by (rule sector_fits) (use assms(2) c(2) in simp)
    have "int n * int SECTOR_SIZE = int (SECTOR_SIZE * n)" by simp
    then have cnt: "unat (of_int (int n * int SECTOR_SIZE) :: u64) = SECTOR_SIZE * n"
      using fits c(3) by (simp only: of_int_of_nat_eq unsigned_of_nat of_nat_id) (rule take_bit_nat_eq_self, simp)
    have "bf_disk bf = (\<lambda>i. take SECTOR_SIZE (drop (SECTOR_SIZE * i) c))"
      using False c(1) by (simp add: bf_disk_def fun_eq_iff)
    then have run: "concat (map (bf_disk bf) [unat sec..<unat sec + n]) = take (SECTOR_SIZE * n) (drop (SECTOR_SIZE * unat sec) c)"
      using file_run [OF fits] by (simp only:)
    have "f_seek (sec * of_nat SECTOR_SIZE) bf = bf\<lparr>bf_pos := SECTOR_SIZE * unat sec\<rparr>"
      by (rule seek_sector [OF _ c(3)]) (use assms(2) c(2) in linarith)
    moreover have "length (take (SECTOR_SIZE * n) (drop (SECTOR_SIZE * unat sec) c)) = SECTOR_SIZE * n"
      using fits by simp
    ultimately show ?thesis
      using assms False c(1) unfolding bf_read_async_def cnt run
      by (simp add: f_read_def buf_put_def Let_def del: length_take)
  qed
qed

lemma snapshot_write_ok:
  assumes "bf_ok bf" "unat sec + n \<le> bf_sectors bf"
  shows "snapshot_write n sec buf bf = Inr (bf\<lparr>bf_sector_table := \<lambda>i.
    if unat sec \<le> unat i \<and> unat i < unat sec + n
    then Some (take SECTOR_SIZE (drop (SECTOR_SIZE * (unat i - unat sec)) buf)) else bf_sector_table bf i\<rparr>)"
proof -
  obtain c where "bf_f bf = Some c" and c: "bf_sectors bf = length c div 512" "length c < 2 ^ 63"
      "bf_nb_sectors bf = int (length c div 512)"
    using assms(1) by (rule bf_okE)
  have "length c div 512 \<le> length c" by (rule div_le_dividend)
  then have k: "length c div 512 < 2 ^ 63" using c(2) by linarith
  have "snapshot_write n sec buf bf' = Inr (bf'\<lparr>bf_sector_table := \<lambda>i.
      if unat sec \<le> unat i \<and> unat i < unat sec + n
      then Some (take SECTOR_SIZE (drop (SECTOR_SIZE * (unat i - unat sec)) buf)) else bf_sector_table bf' i\<rparr>)"
    if "bf_nb_sectors bf' = int (length c div 512)" "unat sec + n \<le> length c div 512" for bf'
    using that
  proof (induction n arbitrary: sec buf bf')
    case 0
    have "(unat sec \<le> unat i \<and> unat i < unat sec + 0) = False" for i :: u64 by auto
    then show ?case by (simp only: snapshot_write.simps if_False) simp
  next
    case (Suc n)
    have sec1: "unat (sec + 1) = Suc (unat sec)" using Suc.prems(2) k by (rule sector_succ)
    have in_table: "\<not> uint sec \<ge> bf_nb_sectors bf'"
      using Suc.prems(2) unfolding Suc.prems(1) uint_nat of_nat_le_iff by linarith
    let ?bf = "bf'\<lparr>bf_sector_table := (bf_sector_table bf')(sec \<mapsto> take SECTOR_SIZE buf)\<rparr>"
    have "snapshot_write (Suc n) sec buf bf' = snapshot_write n (sec + 1) (drop SECTOR_SIZE buf) ?bf"
      using in_table by simp
    also have "\<dots> = Inr (?bf\<lparr>bf_sector_table := \<lambda>i. if Suc (unat sec) \<le> unat i \<and> unat i < Suc (unat sec) + n
        then Some (take SECTOR_SIZE (drop (SECTOR_SIZE * (unat i - Suc (unat sec))) (drop SECTOR_SIZE buf)))
        else bf_sector_table ?bf i\<rparr>)"
      unfolding sec1 [symmetric] by (rule Suc.IH) (use Suc.prems in \<open>simp_all add: sec1\<close>)
    also have "\<dots> = Inr (bf'\<lparr>bf_sector_table := \<lambda>i.
        if unat sec \<le> unat i \<and> unat i < unat sec + Suc n
        then Some (take SECTOR_SIZE (drop (SECTOR_SIZE * (unat i - unat sec)) buf)) else bf_sector_table bf' i\<rparr>)"
    proof -
      have "(if Suc (unat sec) \<le> unat i \<and> unat i < Suc (unat sec) + n
          then Some (take SECTOR_SIZE (drop (SECTOR_SIZE * (unat i - Suc (unat sec))) (drop SECTOR_SIZE buf)))
          else bf_sector_table ?bf i) =
        (if unat sec \<le> unat i \<and> unat i < unat sec + Suc n
          then Some (take SECTOR_SIZE (drop (SECTOR_SIZE * (unat i - unat sec)) buf)) else bf_sector_table bf' i)" for i
      proof (cases "i = sec")
        case False
        then have ne: "unat i \<noteq> unat sec" by (simp add: word_unat_eq_iff)
        have "SECTOR_SIZE * (unat i - Suc (unat sec)) + SECTOR_SIZE = SECTOR_SIZE * (unat i - unat sec)" if "unat sec < unat i"
          using that by (simp add: Suc_diff_Suc [symmetric])
        with False ne show ?thesis by auto
      qed simp
      then show ?thesis by simp
    qed
    finally show ?case .
  qed
  with c assms(2) show ?thesis by simp
qed

text \<open>Overwriting a run of sectors of the file.\<close>

lemma file_put:
  assumes "SECTOR_SIZE * (j + n) \<le> length c" "length buf = SECTOR_SIZE * n"
    and "c' = take (SECTOR_SIZE * j) c @ buf @ drop (SECTOR_SIZE * j + length buf) c"
  shows "take SECTOR_SIZE (drop (SECTOR_SIZE * i) c') = (if j \<le> i \<and> i < j + n
    then take SECTOR_SIZE (drop (SECTOR_SIZE * (i - j)) buf) else take SECTOR_SIZE (drop (SECTOR_SIZE * i) c))"
proof -
  consider "i < j" | "j \<le> i" "i < j + n" | "j + n \<le> i" by linarith
  then show ?thesis
  proof cases
    case 1
    then have "SECTOR_SIZE * i + SECTOR_SIZE \<le> SECTOR_SIZE * j" by simp
    with 1 assms show ?thesis by (simp add: drop_take)
  next
    case 2
    then obtain k where k: "i = j + k" "k < n" using le_Suc_ex by auto
    then have "SECTOR_SIZE * k + SECTOR_SIZE \<le> SECTOR_SIZE * n" by simp
    with k assms show ?thesis by (simp add: distrib_left)
  next
    case 3
    then obtain k where k: "i = j + n + k" using le_Suc_ex by auto
    with assms show ?thesis by (simp add: distrib_left ac_simps)
  qed
qed

lemma bf_write_sectors:
  assumes "bf_ok bf" "bf_writable bf" "unat sec + n \<le> bf_sectors bf" "length buf = SECTOR_SIZE * n"
  shows "\<exists>bf'. bf_write_async sec buf (int n) bf = Inr (0, bf') \<and> bf_ok bf' \<and> bf_writable bf' \<and>
    bf_sectors bf' = bf_sectors bf \<and>
    (\<forall>i < bf_sectors bf. bf_disk bf' i = (if unat sec \<le> i \<and> i < unat sec + n
      then take SECTOR_SIZE (drop (SECTOR_SIZE * (i - unat sec)) buf) else bf_disk bf i))"
proof -
  obtain c where c: "bf_f bf = Some c" "bf_sectors bf = length c div 512" "length c < 2 ^ 63"
      "bf_nb_sectors bf = int (length c div 512)"
      "\<And>i sec. bf_sector_table bf i = Some sec \<Longrightarrow> length sec = SECTOR_SIZE"
    using assms(1) by (rule bf_okE) (rule that)
  have "length c div 512 \<le> length c" by (rule div_le_dividend)
  then have k: "length c div 512 < 2 ^ 63" using c(3) by linarith
  show ?thesis
  proof (cases "bf_mode bf")
    case BF_MODE_RO
    with assms(2) show ?thesis by (simp add: bf_writable_def)
  next
    case BF_MODE_RW
    have fits: "SECTOR_SIZE * (unat sec + n) \<le> length c"
      by (rule sector_fits) (use assms(3) c(2) in simp)
    have "int n * int SECTOR_SIZE = int (SECTOR_SIZE * n)" by simp
    then have cnt: "unat (of_int (int n * int SECTOR_SIZE) :: u64) = length buf"
      using fits c(3) assms(4)
      by (simp only: of_int_of_nat_eq unsigned_of_nat of_nat_id) (rule take_bit_nat_eq_self, simp)
    define c' where "c' = take (SECTOR_SIZE * unat sec) c @ buf @ drop (SECTOR_SIZE * unat sec + length buf) c"
    have len: "length c' = length c" using fits assms(4) by (simp add: c'_def)
    have seek: "f_seek (sec * of_nat SECTOR_SIZE) bf = bf\<lparr>bf_pos := SECTOR_SIZE * unat sec\<rparr>"
      by (rule seek_sector [OF _ c(3)]) (use assms(3) c(2) in linarith)
    have "f_write buf (bf\<lparr>bf_pos := SECTOR_SIZE * unat sec\<rparr>) =
        bf\<lparr>bf_f := Some c', bf_pos := SECTOR_SIZE * unat sec + length buf\<rparr>"
      using fits c(1) by (auto simp: f_write_def c'_def Let_def)
    then have wr: "bf_write_async sec buf (int n) bf =
        Inr (0, bf\<lparr>bf_f := Some c', bf_pos := SECTOR_SIZE * unat sec + length buf\<rparr>)"
      unfolding bf_write_async_def cnt seek by (simp add: BF_MODE_RW Let_def)
    have "bf_disk (bf\<lparr>bf_f := Some c', bf_pos := x\<rparr>) i = (if unat sec \<le> i \<and> i < unat sec + n
      then take SECTOR_SIZE (drop (SECTOR_SIZE * (i - unat sec)) buf) else bf_disk bf i)" for i x
      using file_put [OF fits assms(4) c'_def, of i] by (simp add: bf_disk_def BF_MODE_RW c(1))
    moreover have "bf_ok (bf\<lparr>bf_f := Some c', bf_pos := x\<rparr>)" "bf_writable (bf\<lparr>bf_f := Some c', bf_pos := x\<rparr>)"
        "bf_sectors (bf\<lparr>bf_f := Some c', bf_pos := x\<rparr>) = bf_sectors bf" for x
      using c len by (simp_all add: bf_ok_def bf_writable_def bf_sectors_def bf_get_sector_count_def BF_MODE_RW zdiv_int)
    ultimately show ?thesis using wr by auto
  next
    case BF_MODE_SNAPSHOT
    have "unat (sec + of_int (int n)) = unat sec + unat (of_nat n :: u64)"
      unfolding of_int_of_nat_eq
      by (rule unat_add_lem [THEN iffD1]) (use assms(3) k in \<open>simp add: c(2) unsigned_of_nat take_bit_nat_eq_self\<close>)
    moreover have "unat (of_nat n :: u64) = n" "unat (of_int (bf_nb_sectors bf) :: u64) = length c div 512"
      using assms(3) k by (simp_all add: c(2,4) unsigned_of_nat take_bit_nat_eq_self)
    ultimately have le: "\<not> sec + of_int (int n) > of_int (bf_nb_sectors bf)"
      using assms(3) unfolding c(2) word_less_nat_alt by linarith
    define bf' where "bf' = bf\<lparr>bf_sector_table := \<lambda>i. if unat sec \<le> unat i \<and> unat i < unat sec + n
      then Some (take SECTOR_SIZE (drop (SECTOR_SIZE * (unat i - unat sec)) buf)) else bf_sector_table bf i\<rparr>"
    have wr: "bf_write_async sec buf (int n) bf = Inr (0, bf')"
      using snapshot_write_ok [OF assms(1,3), of buf] le assms(4)
      by (simp add: bf_write_async_def BF_MODE_SNAPSHOT bf'_def)
    have "bf_disk bf' i = (if unat sec \<le> i \<and> i < unat sec + n
      then take SECTOR_SIZE (drop (SECTOR_SIZE * (i - unat sec)) buf) else bf_disk bf i)"
      if "i < bf_sectors bf" for i
    proof -
      have "unat (of_nat i :: u64) = i"
        using that k by (simp add: c(2) unsigned_of_nat take_bit_nat_eq_self)
      then show ?thesis by (simp add: bf_disk_def bf'_def BF_MODE_SNAPSHOT split: option.split)
    qed
    moreover have "length (take SECTOR_SIZE (drop (SECTOR_SIZE * (j - unat sec)) buf)) = SECTOR_SIZE"
      if "unat sec \<le> j" "j < unat sec + n" for j
    proof -
      have "SECTOR_SIZE * Suc (j - unat sec) \<le> SECTOR_SIZE * n"
        by (rule mult_le_mono2) (use that in simp)
      then show ?thesis using assms(4) by simp
    qed
    then have "bf_ok bf'" using c by (auto simp: bf_ok_def bf'_def zdiv_int)
    moreover have "bf_writable bf'" "bf_sectors bf' = bf_sectors bf"
      using assms(2) by (simp_all add: bf'_def bf_writable_def bf_sectors_def bf_get_sector_count_def)
    ultimately show ?thesis using wr by blast
  qed
qed

interpretation disk_file: sector_store bf_ok bf_writable bf_sectors bf_disk bf_read_async bf_write_async
  by unfold_locales (fact bf_sector_length bf_read_sectors bf_write_sectors)+

end
