(* ===== verification/Virtio_Block.thy ===== *)
theory Virtio_Block
  imports Virtio_Serve Block_File
begin

text \<open>
  The block device of \<^verbatim>\<open>temu/virtio.c\<close> on the disk of \<open>Block_File\<close>: requests, their completion, and
  what a well-formed read or write request does to the disk, to guest RAM and to the used ring.
\<close>

section \<open>The block device\<close>

record BlockRequest =
  rq_type :: u32
  rq_buf :: "u8 list"
  rq_write_size :: int
  rq_queue_idx :: nat
  rq_desc_idx :: int

record VIRTIOBlockDevice =
  blk_bs :: BlockDeviceFile
  blk_req_in_progress :: bool
  blk_req :: BlockRequest

record BlockRequestHeader =
  h_type :: u32
  h_ioprio :: u32
  h_sector_num :: u64

definition header_of_bytes :: "u8 list \<Rightarrow> BlockRequestHeader" where
  "header_of_bytes bs = \<lparr>h_type = ucast (le_bytes (take 4 bs)),
     h_ioprio = ucast (le_bytes (take 4 (drop 4 bs))), h_sector_num = le_bytes (take 8 (drop 8 bs))\<rparr>"

abbreviation VIRTIO_BLK_T_IN :: u32 where "VIRTIO_BLK_T_IN \<equiv> 0"
abbreviation VIRTIO_BLK_T_OUT :: u32 where "VIRTIO_BLK_T_OUT \<equiv> 1"
abbreviation VIRTIO_BLK_S_OK :: u8 where "VIRTIO_BLK_S_OK \<equiv> 0"
abbreviation VIRTIO_BLK_S_IOERR :: u8 where "VIRTIO_BLK_S_IOERR \<equiv> 1"

type_synonym bvm = "VIRTIOBlockDevice vm"

text \<open>The answer: the data (for a read) and the status go to the chain, then the used ring.\<close>

definition reply :: "u8 list \<Rightarrow> int \<Rightarrow> bvm \<Rightarrow> bvm result option" where
  "reply buf len s =
     answer (rq_queue_idx (blk_req (vm_opaque s))) (rq_desc_idx (blk_req (vm_opaque s))) buf len s"

definition virtio_block_req_end :: "int \<Rightarrow> bvm \<Rightarrow> bvm result option" where
  "virtio_block_req_end ret s =
     (let r = blk_req (vm_opaque s); st = (if ret < 0 then VIRTIO_BLK_S_IOERR else VIRTIO_BLK_S_OK) in
      if rq_type r = VIRTIO_BLK_T_IN then
        (let i = rq_write_size r - 1 in
         if i < 0 \<or> int (length (rq_buf r)) \<le> i then Some (Inl BadPointer)
         else reply ((rq_buf r)[nat i := st]) (rq_write_size r) s)
      else if rq_type r = VIRTIO_BLK_T_OUT then reply [st] 1 s
      else Some (Inl Abort))"

abbreviation upd_req :: "(BlockRequest \<Rightarrow> BlockRequest) \<Rightarrow> bvm \<Rightarrow> bvm" where
  "upd_req f \<equiv> vm_opaque_update (blk_req_update f)"

definition virtio_block_recv_request :: "(nat \<Rightarrow> u8) \<Rightarrow> VIRTIOBlockDevice device_recv" where
  "virtio_block_recv_request junk queue_idx desc_idx read_size write_size s =
     (if blk_req_in_progress (vm_opaque s) then Some (Inr (-1, s))
      else case memcpy_from_queue (vm_dev s) (malloc_bytes junk 16) queue_idx desc_idx 0 16
          (memory (vm_emu s)) of
        None \<Rightarrow> None
      | Some (Inl h) \<Rightarrow> Some (Inl h)
      | Some (Inr (ret, hb, _)) \<Rightarrow>
          if ret < 0 then Some (Inr (0, s))
          else
            (let h = header_of_bytes hb;
                 s = upd_req (\<lambda>r. r\<lparr>rq_type := h_type h, rq_queue_idx := queue_idx, rq_desc_idx := desc_idx\<rparr>) s;
                 done = (\<lambda>r. map_option (map_sum id (\<lambda>s. (0, s))) r);
                 finish_req = (\<lambda>ret s. if ret > 0
                   then Some (Inr (vm_opaque_update (blk_req_in_progress_update (\<lambda>_. True)) s))
                   else virtio_block_req_end ret s) in
             if h_type h = VIRTIO_BLK_T_IN then
               (case bf_read_async (h_sector_num h) (malloc_bytes junk write_size)
                   ((write_size - 1) sdiv int SECTOR_SIZE) (blk_bs (vm_opaque s)) of
                  Inl e \<Rightarrow> Some (Inl e)
                | Inr (ret, buf, bf) \<Rightarrow>
                    done (finish_req ret (upd_req (\<lambda>r. r\<lparr>rq_buf := buf, rq_write_size := write_size\<rparr>)
                      (vm_opaque_update (blk_bs_update (\<lambda>_. bf)) s))))
             else if h_type h = VIRTIO_BLK_T_OUT then
               (if write_size < 1 then Some (Inl Abort)
                else
                  (let len = to_int32 (uint (of_int read_size - 16 :: u64)) in
                   case memcpy_from_queue (vm_dev s) (malloc_bytes junk len) queue_idx desc_idx 16 len
                       (memory (vm_emu s)) of
                     None \<Rightarrow> None
                   | Some (Inl e) \<Rightarrow> Some (Inl e)
                   | Some (Inr (_, buf, _)) \<Rightarrow>
                       (case bf_write_async (h_sector_num h) buf (len sdiv int SECTOR_SIZE)
                           (blk_bs (vm_opaque s)) of
                          Inl e \<Rightarrow> Some (Inl e)
                        | Inr (ret, bf) \<Rightarrow>
                            done (finish_req ret (vm_opaque_update (blk_bs_update (\<lambda>_. bf)) s)))))
             else Some (Inr (0, s))))"

text \<open>The completion callback of an asynchronous request.\<close>

definition virtio_block_req_cb :: "(nat \<Rightarrow> u8) \<Rightarrow> int \<Rightarrow> bvm \<Rightarrow> bvm result option" where
  "virtio_block_req_cb junk ret s =
     (case virtio_block_req_end ret s of
        None \<Rightarrow> None
      | Some (Inl h) \<Rightarrow> Some (Inl h)
      | Some (Inr s) \<Rightarrow>
          (let s = vm_opaque_update (blk_req_in_progress_update (\<lambda>_. False)) s in
           queue_notify (virtio_block_recv_request junk) (rq_queue_idx (blk_req (vm_opaque s))) s))"

definition virtio_block_init :: "BlockDeviceFile \<Rightarrow> VIRTIODevice \<times> VIRTIOBlockDevice" where
  "virtio_block_init bs =
     (let d = virtio_init 2 8; nb_sectors = of_int (bf_get_sector_count bs) :: u64;
          d = v_config_space_update (\<lambda>p. put_le32 p 0 (ucast nb_sectors)) d;
          d = v_config_space_update (\<lambda>p. put_le32 p 4 (ucast (drop_bit 32 nb_sectors))) d in
      (d, \<lparr>blk_bs = bs, blk_req_in_progress = False,
           blk_req = \<lparr>rq_type = 0, rq_buf = [], rq_write_size = 0, rq_queue_idx = 0, rq_desc_idx = 0\<rparr>\<rparr>))"

section \<open>Requests leave the queues alone and the device idle\<close>

lemma req_end_replied:
  assumes "virtio_block_req_end ret s = Some (Inr s')"
  shows "replied s s' \<and> vm_opaque s' = vm_opaque s"
  using assms by (auto simp: virtio_block_req_end_def reply_def Let_def dest: answer_replied split: if_splits)

text \<open>The file of the disk answers at once.\<close>

lemma bf_synchronous:
  "bf_read_async sec buf n bf = Inr (ret, buf', bf') \<Longrightarrow> ret \<le> 0"
  "bf_write_async sec buf n bf = Inr (ret, bf') \<Longrightarrow> ret \<le> 0"
  by (auto simp: bf_read_async_def bf_write_async_def andThen_Inr_iff Let_def split_beta
      split: if_splits BlockDeviceModeEnum.splits)

lemma finished_iff: "map_sum id (Pair r) z = Inr (ret, s') \<longleftrightarrow> ret = r \<and> z = Inr s'"
  by (cases z) auto

lemma recv_request_cases:
  assumes "virtio_block_recv_request junk queue_idx desc_idx r w s = Some (Inr (ret, s'))"
  obtains (busy) "blk_req_in_progress (vm_opaque s)" "s' = s"
    | (dropped) "\<not> blk_req_in_progress (vm_opaque s)" "ret = 0" "vm_emu s' = vm_emu s" "vm_dev s' = vm_dev s"
      "\<not> blk_req_in_progress (vm_opaque s')"
    | (finished) "\<not> blk_req_in_progress (vm_opaque s)" "ret = 0" "replied s s'"
      "\<not> blk_req_in_progress (vm_opaque s')"
  using assms
  by (auto simp: virtio_block_recv_request_def Let_def finished_iff dest!: bf_synchronous req_end_replied
      split: option.splits sum.splits prod.splits if_splits)

interpretation block: eager_device "virtio_block_recv_request junk" "\<lambda>b. \<not> blk_req_in_progress b"
proof unfold_locales
  fix queue_idx d r w s ret s'
  assume recv: "virtio_block_recv_request junk queue_idx d r w s = Some (Inr (ret, s'))"
  show "vm_dev s' = (vm_dev s)\<lparr>v_int_status := v_int_status (vm_dev s')\<rparr>"
    using recv by (cases rule: recv_request_cases) (simp_all add: replied_def)
  show "line_ok s'" if "line_ok s"
    using recv that by (cases rule: recv_request_cases) (simp_all add: replied_def line_ok_def)
  show "0 \<le> ret \<and> \<not> blk_req_in_progress (vm_opaque s')" if "\<not> blk_req_in_progress (vm_opaque s)"
    using recv that by (cases rule: recv_request_cases) (simp_all add: replied_def)
qed

interpretation block_bus: bus_device "virtio_block_recv_request junk" for junk
proof unfold_locales
  fix queue_idx d r w s ret s'
  assume "virtio_block_recv_request junk queue_idx d r w s = Some (Inr (ret, s'))"
  then show "bus_access (vm_emu s) (vm_emu s')"
    by (cases rule: recv_request_cases) (simp_all add: replied_def bus_access_refl)
qed

section \<open>The device in operation\<close>

text \<open>
  The states of the block device after any sequence of stores of the hart to its registers, from its
  initialisation with the interrupt line down. In between, the hart and the other devices may change
  anything in the machine but the line.
\<close>

definition block_start :: "emu \<Rightarrow> BlockDeviceFile \<Rightarrow> bvm" where
  "block_start e bs = \<lparr>vm_emu = e, vm_dev = fst (virtio_block_init bs), vm_opaque = snd (virtio_block_init bs)\<rparr>"

inductive device_reach :: "BlockDeviceFile \<Rightarrow> bvm \<Rightarrow> bool" for bs where
  start: "\<not> plic_pending_irq e \<Longrightarrow> device_reach bs (block_start e bs)"
| store: "device_reach bs s \<Longrightarrow>
    virtio_store (virtio_block_recv_request junk) None addr b s = Some (Inr s') \<Longrightarrow> device_reach bs s'"
| hart: "device_reach bs s \<Longrightarrow> plic_pending_irq e = plic_pending_irq (vm_emu s) \<Longrightarrow>
    device_reach bs (s\<lparr>vm_emu := e\<rparr>)"

lemma block_start_ok:
  assumes "\<not> plic_pending_irq e"
  shows "device_ok (block_start e bs)" "\<not> blk_req_in_progress (vm_opaque (block_start e bs))"
proof -
  have "mmio_ok (virtio_init 2 8)" by (rule virtio_init_ok) simp_all
  then show "device_ok (block_start e bs)"
    using assms by (simp add: device_ok_def mmio_ok_def line_ok_def block_start_def virtio_block_init_def Let_def
        put_le32_def virtio_init_def virtio_reset_def virtio_zero_def)
  show "\<not> blk_req_in_progress (vm_opaque (block_start e bs))"
    by (simp add: block_start_def virtio_block_init_def Let_def)
qed

lemma device_reach_ok:
  assumes "device_reach bs s"
  shows "device_ok s \<and> \<not> blk_req_in_progress (vm_opaque s)"
  using assms
proof induction
  case (start e)
  then show ?case using block_start_ok by blast
next
  case (store s junk addr b s')
  note st = store.hyps(2) [unfolded virtio_store_def]
  have "device_ok s'" using block.mmio_write_keeps [OF _ keeps_config_None] st store.IH unfolding stays_def by blast
  moreover have "\<not> blk_req_in_progress (vm_opaque s')"
    using block.mmio_write_idle st store.IH unfolding stays_def device_ok_def by blast
  ultimately show ?case ..
next
  case (hart s e)
  then show ?case by (simp add: device_ok_def line_ok_def)
qed

section \<open>Serving a request\<close>

lemma sdiv_sectors: "int (SECTOR_SIZE * n) sdiv int SECTOR_SIZE = int n"
  by (cases n) (simp_all add: signed_divide_int_def sgn_if)

abbreviation request_header :: "'d vm \<Rightarrow> VIRTIODesc list \<Rightarrow> BlockRequestHeader" where
  "request_header s rs \<equiv> header_of_bytes (take 16 (payload (memory (vm_emu s)) rs))"

abbreviation request_disk :: "bvm \<Rightarrow> BlockDeviceFile" where
  "request_disk s \<equiv> blk_bs (vm_opaque s)"

lemma recv_header:
  assumes "request_ok s queue_idx d rs ws index" "16 \<le> chain_len rs"
  shows "memcpy_from_queue (vm_dev s) (malloc_bytes junk 16) queue_idx (uint d) 0 16 (memory (vm_emu s)) =
    Some (Inr (0, take 16 (payload (memory (vm_emu s)) rs), memory (vm_emu s)))"
  using gather_request [OF assms(1), of 0 "malloc_bytes junk 16"] assms(2) by (simp add: malloc_bytes_def)

lemma read_request:
  assumes "request_ok s queue_idx d rs ws index" "\<not> blk_req_in_progress (vm_opaque s)" "16 \<le> chain_len rs"
    and "h_type (request_header s rs) = VIRTIO_BLK_T_IN" "chain_len ws = int (SECTOR_SIZE * n + 1)"
    and "bf_ok (request_disk s)" "sec = h_sector_num (request_header s rs)"
    and "unat sec + n \<le> bf_sectors (request_disk s)"
  shows "\<exists>s'. virtio_block_recv_request junk queue_idx (uint d) (chain_len rs) (chain_len ws) s = Some (Inr (0, s')) \<and>
    answered s queue_idx d (chain_len ws) index ws
      (concat (map (bf_disk (request_disk s)) [unat sec..<unat sec + n]) @ [VIRTIO_BLK_S_OK]) s' \<and>
    bf_ok (request_disk s') \<and> bf_disk (request_disk s') = bf_disk (request_disk s) \<and>
    bf_sectors (request_disk s') = bf_sectors (request_disk s)"
proof -
  define buf where "buf = malloc_bytes junk (chain_len ws)"
  have len: "length buf = SECTOR_SIZE * n + 1" by (simp add: buf_def malloc_bytes_def assms(5))
  define data where "data = concat (map (bf_disk (request_disk s)) [unat sec..<unat sec + n])"
  obtain bf where bf: "bf_read_async sec buf (int n) (request_disk s) = Inr (0, data @ drop (SECTOR_SIZE * n) buf, bf)"
      "bf_ok bf" "bf_sectors bf = bf_sectors (request_disk s)" "bf_disk bf = bf_disk (request_disk s)"
    using bf_read_sectors [OF assms(6,8), of buf] len by (auto simp: data_def)
  have "map (length \<circ> bf_disk (request_disk s)) [unat sec..<unat sec + n] =
      map (\<lambda>_. SECTOR_SIZE) [unat sec..<unat sec + n]"
    using bf_sector_length [OF assms(6)] assms(8) by auto
  then have dlen: "length data = SECTOR_SIZE * n"
    by (simp add: data_def length_concat map_map [symmetric] sum_list_triv del: map_map)
  let ?h = "request_header s rs"
  define s1 where "s1 = upd_req (\<lambda>r. r\<lparr>rq_buf := data @ drop (SECTOR_SIZE * n) buf, rq_write_size := chain_len ws\<rparr>)
    (vm_opaque_update (blk_bs_update (\<lambda>_. bf))
      (upd_req (\<lambda>r. r\<lparr>rq_type := h_type ?h, rq_queue_idx := queue_idx, rq_desc_idx := uint d\<rparr>) s))"
  have full: "(data @ drop (SECTOR_SIZE * n) buf)[SECTOR_SIZE * n := VIRTIO_BLK_S_OK] = data @ [VIRTIO_BLK_S_OK]"
  proof -
    have "length (drop (SECTOR_SIZE * n) buf) = Suc 0" using len by simp
    then obtain b where "drop (SECTOR_SIZE * n) buf = [b]" unfolding length_Suc_conv by auto
    then show ?thesis by (simp add: list_update_append dlen)
  qed
  have "splice 0 (data @ [VIRTIO_BLK_S_OK]) (payload (memory (vm_emu s)) ws) = data @ [VIRTIO_BLK_S_OK]"
    by (simp add: splice_def dlen length_payload assms(5))
  moreover have "request_ok s1 queue_idx d rs ws index" "answered s1 = answered s" "vm_emu s1 = vm_emu s"
    using assms(1) by (simp_all add: s1_def)
  ultimately obtain s' where s': "reply (data @ [VIRTIO_BLK_S_OK]) (chain_len ws) s1 = Some (Inr s')"
      "vm_opaque s' = vm_opaque s1" "answered s queue_idx d (chain_len ws) index ws (data @ [VIRTIO_BLK_S_OK]) s'"
    using answer_ok [of s1 queue_idx d rs ws index "chain_len ws" "data @ [VIRTIO_BLK_S_OK]"]
    by (auto simp: reply_def s1_def dlen assms(5))
  have req_end: "virtio_block_req_end 0 s1 = Some (Inr s')"
    using s'(1) full by (simp add: virtio_block_req_end_def s1_def dlen len assms(4,5) nat_add_distrib nat_mult_distrib)
  have "(chain_len ws - 1) sdiv int SECTOR_SIZE = int n"
    using sdiv_sectors [of n] by (simp add: assms(5))
  with bf(1) req_end assms(2,4) recv_header [OF assms(1,3), of junk]
  have "virtio_block_recv_request junk queue_idx (uint d) (chain_len rs) (chain_len ws) s = Some (Inr (0, s'))"
    unfolding virtio_block_recv_request_def assms(7) by (simp add: buf_def s1_def)
  then show ?thesis using s'(2,3) bf(2-4) by (auto simp: s1_def data_def)
qed

lemma out_length:
  assumes "chain_len rs = int (16 + k)" "chain_len rs < 2 ^ 31"
  shows "to_int32 (uint (of_int (chain_len rs) - 16 :: u64)) = int k"
proof -
  have "(of_int (chain_len rs) - 16 :: u64) = of_nat k" by (simp add: assms(1))
  moreover have "k < 2 ^ 31" using assms by simp
  ultimately have "uint (of_int (chain_len rs) - 16 :: u64) = int k"
    by (simp add: unsigned_of_nat take_bit_nat_eq_self)
  then show ?thesis using \<open>k < 2 ^ 31\<close> by (simp only:) (rule to_int32_id, simp_all)
qed

text \<open>What a write request leaves on the disk, for every mode.\<close>

lemma write_disk:
  assumes "bf_ok bf" "unat sec + n \<le> bf_sectors bf" "length buf = SECTOR_SIZE * n"
  shows "\<exists>bf'. bf_write_async sec buf (int n) bf = Inr (if bf_writable bf then 0 else -1, bf') \<and> bf_ok bf' \<and>
    bf_sectors bf' = bf_sectors bf \<and>
    (\<forall>i < bf_sectors bf. bf_disk bf' i = (if bf_writable bf \<and> unat sec \<le> i \<and> i < unat sec + n
      then take SECTOR_SIZE (drop (SECTOR_SIZE * (i - unat sec)) buf) else bf_disk bf i))"
proof (cases "bf_writable bf")
  case True
  then show ?thesis using bf_write_sectors [OF assms(1) True assms(2,3)] by auto
next
  case False
  then have "bf_write_async sec buf (int n) bf = Inr (-1, bf)" by (simp add: bf_writable_def bf_write_async_def)
  then show ?thesis using False assms(1) by auto
qed

lemma write_request:
  assumes "request_ok s queue_idx d rs ws index" "\<not> blk_req_in_progress (vm_opaque s)"
    and "chain_len rs = int (16 + SECTOR_SIZE * n)" "h_type (request_header s rs) = VIRTIO_BLK_T_OUT"
    and "1 \<le> chain_len ws" "bf_ok (request_disk s)" "sec = h_sector_num (request_header s rs)"
    and "unat sec + n \<le> bf_sectors (request_disk s)"
  shows "\<exists>s'. virtio_block_recv_request junk queue_idx (uint d) (chain_len rs) (chain_len ws) s = Some (Inr (0, s')) \<and>
    answered s queue_idx d 1 index ws
      ((if bf_writable (request_disk s) then VIRTIO_BLK_S_OK else VIRTIO_BLK_S_IOERR) #
        drop 1 (payload (memory (vm_emu s)) ws)) s' \<and>
    bf_ok (request_disk s') \<and> bf_sectors (request_disk s') = bf_sectors (request_disk s) \<and>
    (\<forall>i < bf_sectors (request_disk s). bf_disk (request_disk s') i =
      (if bf_writable (request_disk s) \<and> unat sec \<le> i \<and> i < unat sec + n
       then take SECTOR_SIZE (drop (SECTOR_SIZE * (i - unat sec)) (drop 16 (payload (memory (vm_emu s)) rs)))
       else bf_disk (request_disk s) i))"
proof -
  define data where "data = drop 16 (payload (memory (vm_emu s)) rs)"
  have dlen: "length data = SECTOR_SIZE * n"
    by (simp add: data_def length_payload assms(3) nat_add_distrib nat_mult_distrib)
  define ret :: int where "ret = (if bf_writable (request_disk s) then 0 else -1)"
  define st where "st = (if ret < 0 then VIRTIO_BLK_S_IOERR else VIRTIO_BLK_S_OK)"
  obtain bf where bf: "bf_write_async sec data (int n) (request_disk s) = Inr (ret, bf)" "bf_ok bf"
      "bf_sectors bf = bf_sectors (request_disk s)"
      "\<forall>i < bf_sectors (request_disk s). bf_disk bf i =
        (if bf_writable (request_disk s) \<and> unat sec \<le> i \<and> i < unat sec + n
         then take SECTOR_SIZE (drop (SECTOR_SIZE * (i - unat sec)) data) else bf_disk (request_disk s) i)"
    using write_disk [OF assms(6,8) dlen] by (auto simp: ret_def)
  let ?h = "request_header s rs"
  let ?s0 = "upd_req (\<lambda>r. r\<lparr>rq_type := h_type ?h, rq_queue_idx := queue_idx, rq_desc_idx := uint d\<rparr>) s"
  define s1 where "s1 = vm_opaque_update (blk_bs_update (\<lambda>_. bf)) ?s0"
  have s1: "request_ok s1 queue_idx d rs ws index" "answered s1 = answered s" "vm_emu s1 = vm_emu s"
    using assms(1) by (simp_all add: s1_def)
  obtain s' where s': "reply [st] 1 s1 = Some (Inr s')" "vm_opaque s' = vm_opaque s1"
      "answered s queue_idx d 1 index ws (st # drop 1 (payload (memory (vm_emu s)) ws)) s'"
    using answer_ok [OF s1(1), of 1 "[st]"] assms(5) s1(2,3) by (auto simp: reply_def s1_def splice_def)
  have lt: "chain_len rs < 2 ^ 31" using assms(1) by (simp add: request_ok_def Let_def)
  have len: "to_int32 (uint (of_int (chain_len rs) - 16 :: u64)) = int (SECTOR_SIZE * n)"
    by (rule out_length [OF assms(3) lt])
  have "length (malloc_bytes junk (int (SECTOR_SIZE * n))) = SECTOR_SIZE * n"
    by (simp only: malloc_bytes_def length_map length_upt nat_int)
  with gather_request [OF assms(1), of 16 "malloc_bytes junk (int (SECTOR_SIZE * n))"] dlen
  have got: "memcpy_from_queue (vm_dev s) (malloc_bytes junk (int (SECTOR_SIZE * n))) queue_idx (uint d) 16
      (int (SECTOR_SIZE * n)) (memory (vm_emu s)) = Some (Inr (0, data, memory (vm_emu s)))"
    by (simp add: data_def assms(3))
  have req_end: "virtio_block_req_end ret s1 = Some (Inr s')"
    using s'(1) by (simp add: virtio_block_req_end_def s1_def assms(4) st_def)
  have "ret \<le> 0" by (simp add: ret_def)
  have head: "16 \<le> chain_len rs" by (simp add: assms(3))
  have "virtio_block_recv_request junk queue_idx (uint d) (chain_len rs) (chain_len ws) s = Some (Inr (0, s'))"
    using bf(1) req_end assms(2,4,5) recv_header [OF assms(1) head, of junk] got \<open>ret \<le> 0\<close> sdiv_sectors [of n]
    unfolding virtio_block_recv_request_def assms(7) by (simp add: Let_def len s1_def)
  moreover have "st = (if bf_writable (request_disk s) then VIRTIO_BLK_S_OK else VIRTIO_BLK_S_IOERR)"
    by (simp add: st_def ret_def)
  ultimately show ?thesis using s'(2,3) bf(2-4) by (auto simp: s1_def data_def)
qed

end
