(* ===== verification/Virtio_Spec.thy ===== *)
theory Virtio_Spec
  imports Virtio_Block
begin

text \<open>
  What the virtio devices promise, on top of \<open>Virtio_Block\<close>, and one concrete guest memory on which the
  promises are tried: a read request (descriptors 0 and 1), a write request (2, 3 and 4), a
  descriptor linked to itself (5), and the instruction \<^verbatim>\<open>sw x2, 0(x1)\<close> at \<^verbatim>\<open>0x80600000\<close>.
\<close>

section \<open>A concrete guest\<close>

definition demo_mem :: memory where
  "demo_mem = (\<lambda>_. 0)(
     0 := 0x80100000, 1 := 0x0001000100000010, 2 := 0x80200000, 3 := 0x0000000200000201,
     4 := 0x80100010, 5 := 0x0003000100000010, 6 := 0x80100800, 7 := 0x0004000100000200,
     8 := 0x80201000, 9 := 0x0000000200000001, 10 := 0x80100000, 11 := 0x0005000100000001,
     0x20002 := 1, 0x80000 := 0x0000000000010000, 0xA0000 := 0x0000000500010000, 0xC0000 := 0x000000000020A023)"

definition demo_queue :: "u64 \<Rightarrow> QueueState" where
  "demo_queue avail = \<lparr>q_ready = 1, q_num = 16, q_last_avail_idx = 0, q_desc_addr = 0x80000000,
     q_avail_addr = avail, q_used_addr = 0x80300000, q_manual_recv = False\<rparr>"

definition demo_dev :: VIRTIODevice where
  "demo_dev = v_queue_update (\<lambda>qs. qs[0 := demo_queue 0x80400000, 1 := demo_queue 0x80500000]) (virtio_init 2 8)"

definition demo_desc :: "int \<Rightarrow> VIRTIODesc" where
  "demo_desc i =
     (if i = 0 then \<lparr>d_addr = 0x80100000, d_len = 16, d_flags = 1, d_next = 1\<rparr>
      else if i = 1 then \<lparr>d_addr = 0x80200000, d_len = 513, d_flags = 2, d_next = 0\<rparr>
      else if i = 2 then \<lparr>d_addr = 0x80100010, d_len = 16, d_flags = 1, d_next = 3\<rparr>
      else if i = 3 then \<lparr>d_addr = 0x80100800, d_len = 512, d_flags = 1, d_next = 4\<rparr>
      else if i = 4 then \<lparr>d_addr = 0x80201000, d_len = 1, d_flags = 2, d_next = 0\<rparr>
      else \<lparr>d_addr = 0x80100000, d_len = 1, d_flags = 1, d_next = 5\<rparr>)"

definition demo_disk :: BlockDeviceFile where
  "demo_disk = \<lparr>bf_f = Some (replicate 512 7), bf_pos = 512, bf_nb_sectors = 1, bf_mode = BF_MODE_RW,
     bf_sector_table = (\<lambda>_. None)\<rparr>"

definition demo_vm :: bvm where
  "demo_vm = \<lparr>vm_emu = (emu_init demo_mem 0)\<lparr>memory := demo_mem\<rparr>, vm_dev = demo_dev, vm_opaque = snd (virtio_block_init demo_disk)\<rparr>"

lemma demo_get_desc:
  "get_desc demo_dev 0 0 demo_mem = Inr (demo_desc 0)" "get_desc demo_dev 0 1 demo_mem = Inr (demo_desc 1)"
  "get_desc demo_dev 0 2 demo_mem = Inr (demo_desc 2)" "get_desc demo_dev 0 3 demo_mem = Inr (demo_desc 3)"
  "get_desc demo_dev 0 4 demo_mem = Inr (demo_desc 4)" "get_desc demo_dev 1 5 demo_mem = Inr (demo_desc 5)"
  by code_simp+

lemma demo_flags:
  "has_next (demo_desc 0)" "\<not> has_next (demo_desc 1)" "has_next (demo_desc 2)" "has_next (demo_desc 3)"
  "\<not> has_next (demo_desc 4)" "has_next (demo_desc 5)"
  "write_flag (demo_desc 0) = 0" "write_flag (demo_desc 1) = 2" "write_flag (demo_desc 2) = 0"
  "write_flag (demo_desc 3) = 0" "write_flag (demo_desc 4) = 2" "write_flag (demo_desc 5) = 0"
  by code_simp+

lemma demo_chain_read: "chain demo_dev 0 demo_mem (demo_desc 0) [demo_desc 0, demo_desc 1]"
  using demo_get_desc demo_flags
  by (intro chain.link [of _ _ _ _ "demo_desc 1"] chain.last) (simp_all add: demo_desc_def)

lemma demo_chain_write: "chain demo_dev 0 demo_mem (demo_desc 2) [demo_desc 2, demo_desc 3, demo_desc 4]"
proof (rule chain.link)
  show "has_next (demo_desc 2)" by (rule demo_flags)
  show "get_desc demo_dev 0 (uint (d_next (demo_desc 2))) demo_mem = Inr (demo_desc 3)"
    using demo_get_desc(4) by (simp add: demo_desc_def)
  show "chain demo_dev 0 demo_mem (demo_desc 3) [demo_desc 3, demo_desc 4]"
    using demo_get_desc(5) demo_flags
    by (intro chain.link [of _ _ _ _ "demo_desc 4"] chain.last) (simp_all add: demo_desc_def)
qed

lemma ram_regionI:
  assumes "unat (a - DRAM_BASE) + n \<le> 2 ^ 31"
  shows "ram_region a n"
  unfolding ram_region_def in_ram_def
proof (intro allI impI)
  fix i assume i: "i < n"
  have eq: "a + of_nat i - DRAM_BASE = (a - DRAM_BASE) + of_nat i" by simp
  have "unat ((a - DRAM_BASE) + of_nat i) = unat (a - DRAM_BASE) + unat (of_nat i :: u64)"
    by (rule unat_add_lem [THEN iffD1]) (use i assms in \<open>simp add: unsigned_of_nat take_bit_nat_eq_self\<close>)
  moreover have "unat (of_nat i :: u64) = i" using i assms by (simp add: unsigned_of_nat take_bit_nat_eq_self)
  ultimately have "unat (a + of_nat i - DRAM_BASE) < 2 ^ 31" unfolding eq using i assms by linarith
  then show "ram_index (a + of_nat i) < MEM_WORDS"
    unfolding word_less_nat_alt ram_index_unat MEM_WORDS_def by (simp add: div_less_iff_less_mult)
qed

lemma demo_in_ram: "desc_in_ram (demo_desc i)"
  unfolding desc_in_ram_def by (rule ram_regionI) (simp add: demo_desc_def)

lemma demo_buffers:
  "d_addr (demo_desc 1) = 0x80200000" "d_len (demo_desc 1) = 513"
  "d_addr (demo_desc 4) = 0x80201000" "d_len (demo_desc 4) = 1"
  "d_len (demo_desc 0) = 16" "d_len (demo_desc 2) = 16" "d_len (demo_desc 3) = 512"
  "d_next (demo_desc 5) = 5"
  by code_simp+

lemma demo_queues: "v_queue demo_dev ! 0 = demo_queue 0x80400000" "v_queue demo_dev ! Suc 0 = demo_queue 0x80500000"
  "length (v_queue demo_dev) = 8"
  by (simp_all add: demo_dev_def virtio_init_def virtio_reset_def virtio_zero_def)

lemma demo_memory: "memory (vm_emu demo_vm) = demo_mem" "vm_dev demo_vm = demo_dev"
  by (simp_all add: demo_vm_def)

lemma demo_windows:
  assumes "i = 1 \<or> i = 4"
  shows "desc_window (demo_desc i) \<inter> table_window demo_dev 0 = {}"
    "desc_window (demo_desc i) \<inter> used_window 0x80300000 0 16 = {}"
proof -
  have "window 0x80000000 (16 * 2 ^ 16) \<inter> desc_window (demo_desc i) = {}"
    by (rule window_disjoint) (use assms demo_buffers in auto)
  moreover have "q_desc_addr (v_queue demo_dev ! 0) = 0x80000000"
    by (simp add: demo_queues demo_queue_def)
  ultimately show "desc_window (demo_desc i) \<inter> table_window demo_dev 0 = {}"
    by (simp add: table_window_def Int_commute)
  have "desc_window (demo_desc i) \<inter> window (0x80300000 + 2) 2 = {}"
    by (rule window_disjoint) (use assms demo_buffers in auto)
  moreover have "desc_window (demo_desc i) \<inter> window (0x80300000 + of_nat (used_entry 0 16)) 8 = {}"
    by (rule window_disjoint) (use assms demo_buffers in \<open>auto simp: used_entry_def\<close>)
  ultimately show "desc_window (demo_desc i) \<inter> used_window 0x80300000 0 16 = {}"
    by (simp add: used_window_def Int_Un_distrib)
qed

lemma demo_ring: "mem_read16 (0x80300000 + 2) demo_mem = Inr 0" "used_ring_ok 0x80300000 0 16"
proof -
  show "mem_read16 (0x80300000 + 2) demo_mem = Inr 0" by code_simp
  show "used_ring_ok 0x80300000 0 16"
    by (simp add: used_ring_ok_def used_entry_def in_ram_def ram_index_def MEM_WORDS_def)
qed

lemma demo_request_read: "request_ok demo_vm 0 0 [demo_desc 0] [demo_desc 1] 0"
  unfolding request_ok_def Let_def
  using demo_get_desc(1) demo_chain_read demo_flags demo_in_ram demo_buffers demo_windows [of 1] demo_ring
  by (simp add: demo_vm_def demo_queues demo_queue_def separate_def)

lemma demo_request_write: "request_ok demo_vm 0 2 [demo_desc 2, demo_desc 3] [demo_desc 4] 0"
  unfolding request_ok_def Let_def
  using demo_get_desc(3) demo_chain_write demo_flags demo_in_ram demo_buffers demo_windows [of 4] demo_ring
  by (simp add: demo_vm_def demo_queues demo_queue_def separate_def)

lemma demo_headers:
  "header_of_bytes (desc_bytes demo_mem (demo_desc 0)) = \<lparr>h_type = 0, h_ioprio = 0, h_sector_num = 0\<rparr>"
  "header_of_bytes (desc_bytes demo_mem (demo_desc 2)) = \<lparr>h_type = 1, h_ioprio = 0, h_sector_num = 0\<rparr>"
  by code_simp+

lemma demo_disk_ok: "bf_ok demo_disk" "bf_writable demo_disk" "bf_sectors demo_disk = 1"
  "request_disk demo_vm = demo_disk" "\<not> blk_req_in_progress (vm_opaque demo_vm)"
  by (simp_all add: bf_ok_def bf_writable_def bf_sectors_def bf_get_sector_count_def demo_disk_def demo_vm_def
      virtio_block_init_def Let_def)

lemma demo_device_ok: "device_ok demo_vm"
proof -
  have "mmio_ok demo_dev" by code_simp
  moreover have "v_int_status demo_dev = 0" by code_simp
  ultimately show ?thesis by (simp add: device_ok_def line_ok_def demo_vm_def emu_init_def)
qed

section \<open>Further facts\<close>

text \<open>
  On a chain of read buffers followed by write buffers the sizes are the sums of their lengths; a chain
  in which a read buffer follows a write buffer is refused.
\<close>

theorem chain_sizes:
  assumes "get_desc dev queue_idx desc_idx m = Inr d" "chain dev queue_idx m d (rs @ ws)"
    and "\<forall>x \<in> set rs. write_flag x = 0" "chain_len rs < 2 ^ 31" "chain_len ws < 2 ^ 31"
    and "ws = [] \<or> write_flag (hd ws) \<noteq> 0"
  shows "get_desc_rw_size dev queue_idx desc_idx m =
    Some (Inr (if \<forall>x \<in> set ws. write_flag x \<noteq> 0 then Some (chain_len rs, chain_len ws) else None))"
  using rw_size_chain [OF assms(2-6)] assms(1) by (simp add: get_desc_rw_size_def)

theorem chain_sizes_witness:
  "get_desc_rw_size demo_dev 0 2 demo_mem = Some (Inr (Some (528, 1)))"
  using chain_sizes [of demo_dev 0 2 demo_mem "demo_desc 2" "[demo_desc 2, demo_desc 3]" "[demo_desc 4]"]
    demo_get_desc(3) demo_chain_write demo_flags by (simp add: demo_buffers)

text \<open>
  Whatever the driver stores in the registers of the block device and whatever requests it makes, there
  are always eight queues, each of a number of entries that is a power of two, the selected one is among
  them, the configuration space covers what the size register admits, the interrupt line is up exactly
  while the device reports an interrupt, and no request is left in progress.
\<close>

theorem device_invariant:
  assumes "device_reach bs s"
  shows "length (v_queue (vm_dev s)) = 8 \<and>
    (\<forall>q \<in> set (v_queue (vm_dev s)). q_num q \<noteq> 0 \<and> q_num q AND (q_num q - 1) = 0) \<and>
    v_queue_sel (vm_dev s) < 8 \<and>
    uint (v_config_space_size (vm_dev s)) \<le> int (length (v_config_space (vm_dev s))) \<and>
    (plic_pending_irq (vm_emu s) \<longleftrightarrow> v_int_status (vm_dev s) \<noteq> 0) \<and>
    \<not> blk_req_in_progress (vm_opaque s)"
  using device_reach_ok [OF assms]
  by (simp add: device_ok_def mmio_ok_def line_ok_def queue_ok_def word_less_nat_alt word_le_def)

theorem device_invariant_witness:
  "\<exists>s. device_reach demo_disk s \<and> v_queue_sel (vm_dev s) = 3 \<and> length (v_queue (vm_dev s)) = 8 \<and>
    \<not> plic_pending_irq (vm_emu s)"
proof -
  let ?start = "block_start (emu_init demo_mem 0) demo_disk"
  let ?s = "?start\<lparr>vm_dev := (vm_dev ?start)\<lparr>v_queue_sel := 3\<rparr>\<rparr>"
  have reach: "device_reach demo_disk ?start" by (rule device_reach.start) (simp add: emu_init_def)
  have "virtio_store (virtio_block_recv_request (\<lambda>_. 0)) None 0x40010030 3 ?start = Some (Inr ?s)"
    by (simp add: virtio_store_def virtio_mmio_write_def)
  then have s: "device_reach demo_disk ?s" by (rule device_reach.store [OF reach])
  have "v_int_status (vm_dev ?s) = 0"
    by (simp add: block_start_def virtio_block_init_def virtio_init_def virtio_reset_def virtio_zero_def Let_def)
  with device_invariant [OF s] have "\<not> plic_pending_irq (vm_emu ?s)" "length (v_queue (vm_dev ?s)) = 8"
    by blast+
  with s show ?thesis by (intro exI [of _ ?s]) simp
qed

section \<open>Properties\<close>

text \<open>
  C12: a well-formed request to read \<open>n\<close> sectors that are on the disk is answered: the write buffers hold
  these sectors and the status byte 0, the used ring the descriptor and the length of the answer, the
  interrupt is raised, and neither the disk nor any other byte of RAM has changed.
\<close>

theorem block_read_request:
  assumes "request_ok s queue_idx d rs ws index" "\<not> blk_req_in_progress (vm_opaque s)" "16 \<le> chain_len rs"
    and "h_type (request_header s rs) = VIRTIO_BLK_T_IN" "chain_len ws = int (SECTOR_SIZE * n + 1)"
    and "bf_ok (request_disk s)" "sec = h_sector_num (request_header s rs)"
    and "unat sec + n \<le> bf_sectors (request_disk s)"
  shows "\<exists>s'. virtio_block_recv_request junk queue_idx (uint d) (chain_len rs) (chain_len ws) s = Some (Inr (0, s')) \<and>
    answered s queue_idx d (chain_len ws) index ws
      (concat (map (bf_disk (request_disk s)) [unat sec..<unat sec + n]) @ [VIRTIO_BLK_S_OK]) s' \<and>
    bf_disk (request_disk s') = bf_disk (request_disk s)"
  using read_request [OF assms] by blast

theorem block_read_request_witness:
  "\<exists>s'. virtio_block_recv_request (\<lambda>_. 0) 0 0 16 513 demo_vm = Some (Inr (0, s')) \<and>
    answered demo_vm 0 0 513 0 [demo_desc 1] (replicate 512 7 @ [0]) s'"
proof -
  have "bf_disk demo_disk 0 = replicate 512 7" by (simp add: bf_disk_def demo_disk_def)
  then show ?thesis
    using block_read_request [OF demo_request_read, of 1 0 "\<lambda>_. 0"]
    by (auto simp: demo_buffers demo_headers demo_disk_ok demo_memory)
qed

text \<open>
  C13: a well-formed request to write \<open>n\<close> sectors that are on the disk puts the bytes after the header into
  these sectors and into no other, if the disk may be written; the status byte, the first of the write
  buffers, is 0 then and 1 otherwise. The used ring receives the descriptor, the interrupt is raised, and
  no other byte of RAM changes.
\<close>

theorem block_write_request:
  assumes "request_ok s queue_idx d rs ws index" "\<not> blk_req_in_progress (vm_opaque s)"
    and "chain_len rs = int (16 + SECTOR_SIZE * n)" "h_type (request_header s rs) = VIRTIO_BLK_T_OUT"
    and "1 \<le> chain_len ws" "bf_ok (request_disk s)" "sec = h_sector_num (request_header s rs)"
    and "unat sec + n \<le> bf_sectors (request_disk s)"
  shows "\<exists>s'. virtio_block_recv_request junk queue_idx (uint d) (chain_len rs) (chain_len ws) s = Some (Inr (0, s')) \<and>
    answered s queue_idx d 1 index ws
      ((if bf_writable (request_disk s) then VIRTIO_BLK_S_OK else VIRTIO_BLK_S_IOERR) #
        drop 1 (payload (memory (vm_emu s)) ws)) s' \<and>
    (\<forall>i < bf_sectors (request_disk s). bf_disk (request_disk s') i =
      (if bf_writable (request_disk s) \<and> unat sec \<le> i \<and> i < unat sec + n
       then take SECTOR_SIZE (drop (SECTOR_SIZE * (i - unat sec)) (drop 16 (payload (memory (vm_emu s)) rs)))
       else bf_disk (request_disk s) i))"
  using write_request [OF assms] by blast

theorem block_write_request_witness:
  "\<exists>s'. virtio_block_recv_request (\<lambda>_. 0) 0 2 528 1 demo_vm = Some (Inr (0, s')) \<and>
    answered demo_vm 0 2 1 0 [demo_desc 4] [0] s' \<and>
    bf_disk (request_disk s') 0 = desc_bytes demo_mem (demo_desc 3)"
proof -
  have "length (desc_bytes demo_mem (demo_desc 4)) = Suc 0" "length (desc_bytes demo_mem (demo_desc 3)) = 512"
    by (simp_all add: demo_buffers)
  then show ?thesis
    using block_write_request [OF demo_request_write, of 1 0 "\<lambda>_. 0"]
    by (auto simp: demo_buffers demo_headers demo_disk_ok demo_memory)
qed

text \<open>
  C16: gathering \<open>count\<close> bytes at \<open>offset\<close> from a chain whose first buffers, \<open>rs\<close>, are to be read gives these
  bytes of the concatenated buffers, however descriptors and pages divide them, and leaves RAM alone.
\<close>

theorem queue_gather:
  assumes "get_desc dev queue_idx desc_idx m = Inr d" "chain dev queue_idx m d (rs @ ws)"
    and "\<forall>x \<in> set rs. write_flag x = 0 \<and> desc_in_ram x" "chain_len rs < 2 ^ 31"
    and "0 \<le> offset" "0 < count" "offset + count \<le> chain_len rs" "int (length buf) = count"
  shows "memcpy_from_queue dev buf queue_idx desc_idx offset count m =
    Some (Inr (0, take (nat count) (drop (nat offset) (payload m rs)), m))"
  using copy_gathers [OF assms] .

theorem queue_gather_witness:
  "memcpy_from_queue demo_dev [0, 0, 0, 0] 0 2 14 4 demo_mem =
    Some (Inr (0, take 4 (drop 14 (payload demo_mem [demo_desc 2, demo_desc 3])), demo_mem))"
  using queue_gather [of demo_dev 0 2 demo_mem "demo_desc 2" "[demo_desc 2, demo_desc 3]" "[demo_desc 4]" 14 4
      "[0, 0, 0, 0]"] demo_get_desc(3) demo_chain_write demo_flags demo_in_ram
  by (simp add: demo_buffers del: payload_simps)

text \<open>
  C17: scattering a buffer at \<open>offset\<close> into the write buffers \<open>ws\<close> of a chain replaces these bytes of the
  concatenated buffers and nothing else in RAM, provided the write buffers lie apart from each other and
  from the descriptor table the loop is reading.
\<close>

theorem queue_scatter:
  assumes "get_desc dev queue_idx desc_idx m = Inr d" "chain dev queue_idx m d (rs @ ws)"
    and "\<forall>x \<in> set rs. write_flag x = 0" "\<forall>x \<in> set ws. write_flag x \<noteq> 0 \<and> desc_in_ram x"
    and "chain_len ws < 2 ^ 31" "separate dev queue_idx ws"
    and "0 \<le> offset" "0 < count" "offset + count \<le> chain_len ws" "int (length buf) = count"
  shows "\<exists>m'. memcpy_to_queue dev queue_idx desc_idx offset buf count m = Some (Inr (0, buf, m')) \<and>
    payload m' ws = splice (nat offset) buf (payload m ws) \<and>
    (\<forall>b. b \<notin> (\<Union>x \<in> set ws. desc_window x) \<longrightarrow> ram_byte m' b = ram_byte m b)"
  using copy_scatters [OF assms] .

theorem queue_scatter_witness:
  "\<exists>m'. memcpy_to_queue demo_dev 0 0 512 [9] 1 demo_mem = Some (Inr (0, [9], m')) \<and>
    payload m' [demo_desc 1] = splice 512 [9] (payload demo_mem [demo_desc 1])"
  using queue_scatter [of demo_dev 0 0 demo_mem "demo_desc 0" "[demo_desc 0]" "[demo_desc 1]" 512 1 "[9]"]
    demo_get_desc(1) demo_chain_read demo_flags demo_in_ram demo_windows [of 1]
  by (auto simp: demo_buffers separate_def simp del: payload_simps)



text \<open>
  C36: when a notification of the idle block device returns, the queue has caught up with the index the
  driver had published, the other queues are untouched and the device is idle again: no request stays
  behind.
\<close>

theorem notify_drains:
  assumes "device_ok s" "\<not> blk_req_in_progress (vm_opaque s)" "i < MAX_QUEUE"
    and "\<not> q_manual_recv (v_queue (vm_dev s) ! i)"
    and "virtio_read16 (q_avail_addr (v_queue (vm_dev s) ! i) + 2) (memory (vm_emu s)) = Inr a"
    and "virtio_store (virtio_block_recv_request junk) None VIRTIO_NOTIFY (of_nat i) s = Some (Inr s')"
  shows "v_queue (vm_dev s') = (v_queue (vm_dev s))[i := (v_queue (vm_dev s) ! i)\<lparr>q_last_avail_idx := a\<rparr>] \<and>
    \<not> blk_req_in_progress (vm_opaque s')"
proof -
  have "notify_loop (virtio_block_recv_request junk) i a s = Some (Inr s')"
    using assms(3-6) by (simp add: store_notifies queue_notify_def)
  then show ?thesis using block.loop_drains [of i s junk a s'] assms(1-3) by (simp add: device_ok_def mmio_ok_def)
qed

theorem notify_drains_witness:
  "\<exists>s'. virtio_store (virtio_block_recv_request (\<lambda>_. 0)) None 0x40010050 0 demo_vm = Some (Inr s') \<and>
    q_last_avail_idx (v_queue (vm_dev s') ! 0) = 1"
proof -
  let ?f = "virtio_block_recv_request (\<lambda>_. 0)"
  have ring: "virtio_read16 (0x80400000 + 2) demo_mem = Inr 1" "virtio_read16 (0x80400000 + 4) demo_mem = Inr 0"
    by code_simp+
  obtain s1 where s1: "?f 0 0 16 513 demo_vm = Some (Inr (0, s1))"
    using read_request [OF demo_request_read, of 1 0 "\<lambda>_. 0"]
    by (auto simp: demo_buffers demo_headers demo_disk_ok demo_memory)
  have size: "get_desc_rw_size demo_dev 0 0 demo_mem = Some (Inr (Some (16, 513)))"
    using rw_size_chain [of demo_dev 0 demo_mem "demo_desc 0" "[demo_desc 0]" "[demo_desc 1]"]
      demo_get_desc(1) demo_chain_read demo_flags by (simp add: get_desc_rw_size_def demo_buffers)
  have "v_queue (vm_dev (advance 0 s1)) ! 0 = (demo_queue 0x80400000)\<lparr>q_last_avail_idx := 1\<rparr>"
    using block.keeps_queue [OF s1] by (simp add: advance_def demo_vm_def demo_queues demo_queue_def)
  then have "notify_loop ?f 0 1 (advance 0 s1) = Some (Inr (advance 0 s1))"
    by (simp add: notify_loop_round)
  then have "notify_loop ?f 0 1 demo_vm = Some (Inr (advance 0 s1))"
    using s1 size ring
    by (simp add: notify_loop_round [of ?f 0 1 demo_vm] avail_entry_def demo_memory demo_queues demo_queue_def)
  then have "virtio_store ?f None VIRTIO_NOTIFY (of_nat 0) demo_vm = Some (Inr (advance 0 s1))"
    using ring by (simp add: store_notifies_low queue_notify_def demo_vm_def demo_queues demo_queue_def)
  with notify_drains [OF demo_device_ok demo_disk_ok(5) _ _ _ this, of 1] ring show ?thesis
    by (auto simp: demo_vm_def demo_queues demo_queue_def)
qed

text \<open>
  C37: a store to the notification register returns unless one of the pending requests, which fewer than
  their number of rounds reach, has a chain that does not end: the loop itself stops after as many rounds
  as the available ring has new entries.
\<close>

theorem notify_returns:
  assumes "device_ok s" "i < MAX_QUEUE"
    and "virtio_read16 (q_avail_addr (v_queue (vm_dev s) ! i) + 2) (memory (vm_emu s)) = Inr a"
    and "virtio_store (virtio_block_recv_request junk) None VIRTIO_NOTIFY (of_nat i) s = None"
  shows "\<exists>k s'. k < unat (a - q_last_avail_idx (v_queue (vm_dev s) ! i)) \<and>
    (serves (virtio_block_recv_request junk) i ^^ k) s s' \<and> stuck (virtio_block_recv_request junk) i s'"
proof -
  have "queue_notify (virtio_block_recv_request junk) i s = None" using assms(2,4) by (simp add: store_notifies)
  then have "notify_loop (virtio_block_recv_request junk) i a s = None"
    using assms(3) by (auto simp: queue_notify_def Let_def split: if_splits)
  then show ?thesis using block.loop_ends assms(1,2) by (simp add: device_ok_def mmio_ok_def)
qed

theorem notify_returns_witness:
  "\<exists>s'. (serves (virtio_block_recv_request (\<lambda>_. 0)) 1 ^^ 0) demo_vm s' \<and>
    stuck (virtio_block_recv_request (\<lambda>_. 0)) 1 s'"
proof -
  have one: "virtio_read16 (0x80500000 + 2) demo_mem = Inr 1" "virtio_read16 (0x80500000 + 4) demo_mem = Inr 5"
    by code_simp+
  have size: "get_desc_rw_size demo_dev 1 5 demo_mem = None"
    using rw_size_read_diverges [of "{demo_desc 5}" demo_dev 1 demo_mem "demo_desc 5" 0] demo_get_desc(6) demo_flags
    by (simp add: get_desc_rw_size_def demo_buffers)
  have "virtio_store (virtio_block_recv_request (\<lambda>_. 0)) None VIRTIO_NOTIFY (of_nat 1) demo_vm = None"
    using one size by (simp add: store_notifies_low queue_notify_def notify_loop_round avail_entry_def demo_vm_def
        demo_queues demo_queue_def)
  from notify_returns [OF demo_device_ok _ _ this, of 1] one show ?thesis
    by (auto simp: demo_vm_def demo_queues demo_queue_def)
qed

text \<open>
  C38: if the available ring names a descriptor from which the links stay in a set \<open>C\<close> of descriptors to be
  read, the guest's store to the notification register never returns, whatever the device.
\<close>

theorem cyclic_chain_hangs:
  assumes "i < MAX_QUEUE" "\<not> q_manual_recv (v_queue (vm_dev s) ! i)"
    and "virtio_read16 (q_avail_addr (v_queue (vm_dev s) ! i) + 2) (memory (vm_emu s)) = Inr a"
    and "q_last_avail_idx (v_queue (vm_dev s) ! i) \<noteq> a" "avail_entry i s = Inr k"
    and "get_desc (vm_dev s) i (uint k) (memory (vm_emu s)) = Inr d" "d \<in> C"
    and "\<And>x. x \<in> C \<Longrightarrow> write_flag x = 0 \<and> has_next x \<and>
      (\<exists>y \<in> C. get_desc (vm_dev s) i (uint (d_next x)) (memory (vm_emu s)) = Inr y)"
  shows "virtio_store device_recv config_write VIRTIO_NOTIFY (of_nat i) s = None"
proof -
  have "get_desc_rw_size (vm_dev s) i (uint k) (memory (vm_emu s)) = None"
    using rw_size_read_diverges [OF assms(8,7)] assms(6) by (simp add: get_desc_rw_size_def)
  then have "notify_loop device_recv i a s = None"
    using assms(4,5) by (simp add: notify_loop_round)
  then show ?thesis using assms(1-3) by (simp add: store_notifies queue_notify_def)
qed

theorem cyclic_chain_hangs_witness:
  "virtio_store (virtio_block_recv_request (\<lambda>_. 0)) None 0x40010050 1 demo_vm = None"
proof -
  have "virtio_read16 (0x80500000 + 2) demo_mem = Inr 1" "virtio_read16 (0x80500000 + 4) demo_mem = Inr 5"
    by code_simp+
  then show ?thesis
    using cyclic_chain_hangs [of 1 demo_vm 1 5 "demo_desc 5" "{demo_desc 5}" "virtio_block_recv_request (\<lambda>_. 0)" None]
      demo_get_desc(6) demo_flags
    by (simp add: demo_vm_def demo_queues demo_queue_def avail_entry_def demo_buffers)
qed

end
