(* ===== verification/Arith.thy ===== *)
theory Arith
  imports Prelude
begin

text \<open>
  The arithmetic helpers of \<^verbatim>\<open>emu.h\<close>: sign extension, reading a word as a signed integer,
  and the division templates \<^verbatim>\<open>divi\<close> and \<^verbatim>\<open>divi32\<close> at the types they are used at.
  A signed C integer is its mathematical value (an \<^typ>\<open>int\<close> in range), an unsigned one a word.
\<close>

section \<open>Sign extension and signed readings\<close>

definition sign_extend :: "u64 \<Rightarrow> nat \<Rightarrow> u64" where
  "sign_extend x bits = (let m = push_bit (bits - 1) 1 in (x XOR m) - m)"

definition MASK64 :: u64 where "MASK64 = 0xFFFFFFFFFFFFFFFF"
definition MASK32 :: u64 where "MASK32 = 0xFFFFFFFF"

definition signed_value :: "u64 \<Rightarrow> int" where
  "signed_value x =
     (if drop_bit 63 x AND 1 = 1 then sint ((x XOR push_bit 63 1) - push_bit 63 1)
      else sint x)"

definition signed_value32 :: "u64 \<Rightarrow> int" where
  "signed_value32 x =
     (let y = ucast (x AND MASK32) :: u32 in
      if drop_bit 31 y AND 1 = 1
      then sint (ucast ((ucast y XOR push_bit 31 1) - push_bit 31 1 :: u64) :: u32)
      else sint y)"

lemma MASK64_eq [simp]: "MASK64 = - 1"
  by (simp add: MASK64_def)

lemma MASK32_eq: "MASK32 = mask 32"
  by (simp add: MASK32_def mask_eq_exp_minus_1)

lemma and_MASK32: "x AND MASK32 = take_bit 32 x" and MASK32_and: "MASK32 AND x = take_bit 32 x"
  by (simp_all add: MASK32_eq take_bit_eq_mask and.commute)

lemma sign_extend_eq:
  assumes "0 < n" "n \<le> 64" "take_bit n x = x"
  shows "sign_extend x n = signed_take_bit (n - 1) x"
proof -
  define k where "k = n - 1"
  have n: "n = Suc k" "k < 64" using assms by (simp_all add: k_def)
  have se: "sign_extend x n = (x XOR push_bit k 1) - push_bit k 1"
    by (simp add: sign_extend_def n Let_def)
  have lt: "j < n" if "bit x j" for j
    using that assms(3) by (metis bit_take_bit_iff)
  have lt': "j < k" if "bit x j" "j \<noteq> k" for j
    using lt [OF that(1)] that(2) n by simp
  have sp: "- push_bit k 1 = (NOT (mask k) :: u64)"
    by (simp add: mask_eq_exp_minus_1 not_eq_complement push_bit_eq_mult)
  show ?thesis
  proof (cases "bit x k")
    case True
    have "x XOR push_bit k 1 = take_bit k x"
      using True lt' by (auto simp: bit_simps intro!: bit_word_eqI)
    then have "sign_extend x n = take_bit k x + NOT (mask k)"
      using se sp by (metis diff_conv_add_uminus)
    also have "\<dots> = take_bit k x OR NOT (mask k)"
      by (rule plus_eq_orI) (auto simp: bit_simps)
    also have "\<dots> = signed_take_bit (n - 1) x"
      using True n by (simp add: signed_take_bit_eq_if_negative)
    finally show ?thesis .
  next
    case False
    have "x XOR push_bit k 1 = x + push_bit k 1"
    proof -
      have "x + push_bit k 1 = x OR push_bit k 1"
        using False by (intro plus_eq_orI) (auto simp: bit_simps)
      also have "\<dots> = x XOR push_bit k 1"
        using False n by (auto simp: bit_simps intro!: bit_word_eqI)
      finally show ?thesis by simp
    qed
    then have "sign_extend x n = x" using se by simp
    moreover have "take_bit k x = x"
      using False by (auto simp: bit_simps intro!: bit_word_eqI lt' dest: bit_imp_le_length)
    ultimately show ?thesis using False n by (simp add: signed_take_bit_eq_if_positive)
  qed
qed

lemma sint_sign_extend:
  assumes "0 < n" "n \<le> 64" "take_bit n x = x"
  shows "sint (sign_extend x n) = signed_take_bit (n - 1) (uint x)"
proof (rule bit_eqI)
  fix j
  show "bit (sint (sign_extend x n)) j \<longleftrightarrow> bit (signed_take_bit (n - 1) (uint x)) j"
    using assms by (auto simp: sign_extend_eq bit_simps min_def)
qed

lemma sign_flip: "(x XOR 0x8000000000000000) - 0x8000000000000000 = (x :: u64)"
proof -
  have "signed_take_bit 63 x = x" by (simp add: signed_take_bit_all_bits)
  with sign_extend_eq [of 64 x] show ?thesis
    by (simp add: sign_extend_def take_bit_word_eq_self)
qed

lemma signed_value_sint: "signed_value x = sint x"
  by (simp add: signed_value_def sign_flip)

lemma signed_value32_sint: "signed_value32 x = sint (ucast x :: u32)"
proof -
  define y :: u32 where "y = ucast (x AND MASK32)"
  have y: "y = ucast x"
    by (auto simp: y_def and_MASK32 bit_simps intro!: bit_word_eqI)
  have "take_bit 32 (ucast y) = (ucast y :: u64)"
    by (rule bit_word_eqI) (auto simp: bit_simps dest: bit_imp_le_length)
  then have "(ucast y XOR 0x80000000) - 0x80000000 = (signed_take_bit 31 (ucast y) :: u64)"
    using sign_extend_eq [of 32 "ucast y"] by (simp add: sign_extend_def)
  moreover have "ucast (signed_take_bit 31 (ucast y :: u64)) = signed_take_bit 31 y"
    by (rule bit_word_eqI) (auto simp: bit_simps)
  then have "ucast (signed_take_bit 31 (ucast y :: u64)) = y"
    by (simp add: signed_take_bit_all_bits)
  ultimately show ?thesis
    by (simp add: signed_value32_def Let_def flip: y_def) (simp add: y)
qed

section \<open>Division\<close>

text \<open>
  \<^verbatim>\<open>divi\<close> and \<^verbatim>\<open>divi32\<close> compare their dividend with \<^verbatim>\<open>-pow(2, 63)\<close> (\<^verbatim>\<open>-pow(2, 31)\<close>), a
  \<^verbatim>\<open>double\<close>, so the dividend is converted first: a 64-bit integer is rounded to the nearest
  integer with 53 significant bits, ties to even.
\<close>

fun bit_length :: "nat \<Rightarrow> nat" where
  "bit_length n = (if n = 0 then 0 else Suc (bit_length (n div 2)))"

declare bit_length.simps [simp del]

definition round53 :: "nat \<Rightarrow> nat" where
  "round53 n =
     (if n < 2 ^ 53 then n
      else let e = bit_length n - 53; q = n div 2 ^ e; r = n mod 2 ^ e; h = 2 ^ (e - 1) in
        (if r < h \<or> (r = h \<and> even q) then q else q + 1) * 2 ^ e)"

definition to_double :: "int \<Rightarrow> int" where
  "to_double x = sgn x * int (round53 (nat \<bar>x\<bar>))"

text \<open>
  A case label the code does not list, and the branches of the overflow case that hold no
  \<^verbatim>\<open>return\<close>, leave the function without a value: \<open>None\<close>.
\<close>

definition divi_s64 :: "int \<Rightarrow> int \<Rightarrow> nat \<Rightarrow> int option" where
  "divi_s64 num1 num2 s =
     (if num2 = 0 then
        (if s = 0 then Some (- 1) else if s = 1 then Some (sint MASK64)
         else if s = 2 then Some num1 else if s = 3 then Some num1 else None)
      else if to_double num1 = - (2 ^ 63) \<and> num2 = - 1 then
        (if s = 0 \<or> s = 2 then
           (if s = 0 then Some (- (2 ^ 63)) else if s = 2 then Some 0 else None)
         else None)
      else
        (if s = 0 then Some (num1 sdiv num2)
         else if s = 1 then Some (num1 sdiv num2)
         else if s = 2 then Some (num1 smod num2)
         else if s = 3 then Some (num1 smod num2) else None))"

definition divi_u64 :: "u64 \<Rightarrow> u64 \<Rightarrow> nat \<Rightarrow> u64 option" where
  "divi_u64 num1 num2 s =
     (if num2 = 0 then
        (if s = 0 then Some (- 1) else if s = 1 then Some MASK64
         else if s = 2 then Some num1 else if s = 3 then Some num1 else None)
      else if to_double (uint num1) = - (2 ^ 63) \<and> num2 = - 1 then
        (if s = 0 \<or> s = 2 then
           (if s = 0 then Some (word_of_int (- (2 ^ 63))) else if s = 2 then Some 0 else None)
         else None)
      else
        (if s = 0 then Some (word_of_int (sint num1 sdiv sint num2))
         else if s = 1 then Some (num1 div num2)
         else if s = 2 then Some (word_of_int (sint num1 smod sint num2))
         else if s = 3 then Some (num1 mod num2) else None))"

definition divi32_s32 :: "int \<Rightarrow> int \<Rightarrow> nat \<Rightarrow> int option" where
  "divi32_s32 num1 num2 s =
     (if num2 = 0 then
        (if s = 0 then Some (- 1) else if s = 1 then Some (sint (ucast MASK32 :: u32))
         else if s = 2 then Some num1 else if s = 3 then Some num1 else None)
      else if to_double num1 = - (2 ^ 31) \<and> num2 = - 1 then
        (if s = 0 \<or> s = 2 then
           (if s = 0 then Some (- (2 ^ 31)) else if s = 2 then Some 0 else None)
         else None)
      else
        (if s = 0 then Some (num1 sdiv num2)
         else if s = 1 then Some (num1 sdiv num2)
         else if s = 2 then Some (num1 smod num2)
         else if s = 3 then Some (num1 smod num2) else None))"

definition divi32_u32 :: "u32 \<Rightarrow> u32 \<Rightarrow> nat \<Rightarrow> u32 option" where
  "divi32_u32 num1 num2 s =
     (if num2 = 0 then
        (if s = 0 then Some (- 1) else if s = 1 then Some (ucast MASK32)
         else if s = 2 then Some num1 else if s = 3 then Some num1 else None)
      else if to_double (uint num1) = - (2 ^ 31) \<and> num2 = - 1 then
        (if s = 0 \<or> s = 2 then
           (if s = 0 then Some (word_of_int (- (2 ^ 31))) else if s = 2 then Some 0 else None)
         else None)
      else
        (if s = 0 then Some (word_of_int (sint num1 sdiv sint num2))
         else if s = 1 then Some (num1 div num2)
         else if s = 2 then Some (word_of_int (sint num1 smod sint num2))
         else if s = 3 then Some (num1 mod num2) else None))"

text \<open>The rounding at the top of the 64-bit range.\<close>

lemma bit_length_eq:
  "2 ^ k \<le> n \<Longrightarrow> n < 2 ^ Suc k \<Longrightarrow> bit_length n = Suc k"
proof (induction k arbitrary: n)
  case 0
  then have "n = 1" by simp
  then show ?case by (simp add: bit_length.simps [of "Suc 0"] bit_length.simps [of 0])
next
  case (Suc k)
  then have "bit_length (n div 2) = Suc k" by (intro Suc.IH) auto
  moreover have "n \<noteq> 0"
    using Suc.prems(1) by (cases n) auto
  ultimately show ?case by (subst bit_length.simps) simp
qed

lemma bit_length_gt:
  assumes "2 ^ k \<le> n" shows "k < bit_length n"
  using assms
proof (induction k arbitrary: n)
  case 0
  then show ?case by (subst bit_length.simps) auto
next
  case (Suc k)
  from Suc.prems have "k < bit_length (n div 2)" by (intro Suc.IH) auto
  moreover have "n \<noteq> 0"
    using Suc.prems by (cases n) auto
  ultimately show ?case by (subst bit_length.simps) simp
qed

lemma bit_length_le: "n < 2 ^ k \<Longrightarrow> bit_length n \<le> k"
proof (induction k arbitrary: n)
  case 0
  then show ?case by (subst bit_length.simps) simp
next
  case (Suc k)
  then have "bit_length (n div 2) \<le> k" by (intro Suc.IH) auto
  then show ?case by (subst bit_length.simps) simp
qed

lemma less_exp_bit_length: "n < 2 ^ bit_length n"
proof (induction n rule: bit_length.induct)
  case (1 n)
  then show ?case by (subst bit_length.simps) auto
qed

lemma round53_le:
  assumes "n < 2 ^ k" "53 \<le> k" shows "round53 n \<le> 2 ^ k"
proof (cases "n < 2 ^ 53")
  case True
  then show ?thesis using assms by (simp add: round53_def)
next
  case False
  define e where "e = bit_length n - 53"
  have "53 < bit_length n" using False by (intro bit_length_gt) simp
  then have e: "bit_length n = 53 + e" by (simp add: e_def)
  have "bit_length n \<le> k" using assms(1) by (rule bit_length_le)
  then have "(2::nat) ^ (53 + e) \<le> 2 ^ k" using e by (simp add: power_increasing)
  moreover have "n div 2 ^ e < 2 ^ 53"
    using less_exp_bit_length [of n] e by (simp add: power_add less_mult_imp_div_less)
  then have "(n div 2 ^ e + 1) * 2 ^ e \<le> 2 ^ 53 * 2 ^ e"
    by (intro mult_right_mono) auto
  moreover have "round53 n \<le> (n div 2 ^ e + 1) * 2 ^ e"
    using False by (simp add: round53_def Let_def flip: e_def)
  ultimately show ?thesis by (metis order.trans power_add)
qed

text \<open>
  In the 64-bit range the dividend rounds to \<open>- 2 ^ 63\<close> exactly when it is within 512 of it.
\<close>

lemma round53_top:
  assumes "n \<le> 2 ^ 63"
  shows "round53 n = 2 ^ 63 \<longleftrightarrow> 2 ^ 63 - 512 \<le> n"
proof -
  consider "n < 2 ^ 62" | "2 ^ 62 \<le> n" "n < 2 ^ 63" | "n = 2 ^ 63"
    using assms by linarith
  then show ?thesis
  proof cases
    case 1
    then have "round53 n \<le> 2 ^ 62" by (intro round53_le) simp_all
    with 1 show ?thesis by simp
  next
    case 2
    then have e: "bit_length n - 53 = 10" using bit_length_eq [of 62 n] by simp
    define q r where "q = n div 1024" and "r = n mod 1024"
    have n: "n = 1024 * q + r" "r < 1024" by (simp_all add: q_def r_def)
    have val: "round53 n = (if r < 512 \<or> (r = 512 \<and> even q) then q else q + 1) * 1024"
      using 2 by (simp add: round53_def e q_def r_def Let_def)
    show ?thesis
    proof (cases "q = 2 ^ 53 - 1")
      case True
      then have "odd q" by simp
      with True val n show ?thesis by auto
    next
      case False
      with n 2 have "q < 2 ^ 53 - 1" by simp
      with val n show ?thesis by auto
    qed
  next
    case 3
    then have e: "bit_length n - 53 = 11" using bit_length_eq [of 63 n] by simp
    from 3 show ?thesis using e by (simp add: round53_def)
  qed
qed

lemma to_double_min:
  assumes "- (2 ^ 63) \<le> x" "x < 2 ^ 63"
  shows "to_double x = - (2 ^ 63) \<longleftrightarrow> x \<le> - (2 ^ 63) + 512"
proof (cases "x < 0")
  case True
  have n: "nat \<bar>x\<bar> \<le> 2 ^ 63" using assms True by simp
  have "to_double x = - (2 ^ 63) \<longleftrightarrow> int (round53 (nat \<bar>x\<bar>)) = int (2 ^ 63)"
    using True by (simp add: to_double_def)
  also have "\<dots> \<longleftrightarrow> round53 (nat \<bar>x\<bar>) = 2 ^ 63" by (simp only: of_nat_eq_iff)
  also have "\<dots> \<longleftrightarrow> 2 ^ 63 - 512 \<le> nat \<bar>x\<bar>" by (rule round53_top [OF n])
  also have "\<dots> \<longleftrightarrow> x \<le> - (2 ^ 63) + 512" using True by (simp, arith)
  finally show ?thesis .
next
  case False
  then have "0 \<le> to_double x" by (cases "x = 0") (simp_all add: to_double_def)
  with False show ?thesis by simp
qed

lemma to_double_nonneg: "0 \<le> x \<Longrightarrow> 0 \<le> to_double x"
  by (cases "x = 0") (simp_all add: to_double_def)

lemma to_double_exact: "\<bar>x\<bar> < 2 ^ 53 \<Longrightarrow> to_double x = x"
  by (simp add: to_double_def round53_def nat_less_iff sgn_if)

text \<open>What the RISC-V M extension asks of signed and unsigned division.\<close>

definition isa_div :: "nat \<Rightarrow> int \<Rightarrow> int \<Rightarrow> int" where
  "isa_div w a b = (if b = 0 then - 1 else if a = - (2 ^ (w - 1)) \<and> b = - 1 then a else a sdiv b)"

definition isa_rem :: "nat \<Rightarrow> int \<Rightarrow> int \<Rightarrow> int" where
  "isa_rem w a b = (if b = 0 then a else if a = - (2 ^ (w - 1)) \<and> b = - 1 then 0 else a smod b)"

lemma divi_s64_div:
  assumes "- (2 ^ 63) \<le> a" "a < 2 ^ 63"
  shows "divi_s64 a b 0 =
    Some (if b = - 1 \<and> a \<le> - (2 ^ 63) + 512 then - (2 ^ 63) else isa_div 64 a b)"
  using to_double_min [OF assms] assms by (simp add: divi_s64_def isa_div_def)

lemma divi_s64_rem:
  assumes "- (2 ^ 63) \<le> a" "a < 2 ^ 63"
  shows "divi_s64 a b 2 = Some (isa_rem 64 a b)"
  using to_double_min [OF assms] assms
  by (auto simp: divi_s64_def isa_rem_def signed_modulo_int_def signed_divide_int_def)

lemma divi_u64_div: "divi_u64 a b 1 = Some (if b = 0 then - 1 else a div b)"
  and divi_u64_rem: "divi_u64 a b 3 = Some (if b = 0 then a else a mod b)"
  using to_double_nonneg [of "uint a"] by (auto simp: divi_u64_def)

lemma divi32_s32_div:
  assumes "- (2 ^ 31) \<le> a" "a < 2 ^ 31"
  shows "divi32_s32 a b 0 = Some (isa_div 32 a b)"
  using to_double_exact [of a] assms by (simp add: divi32_s32_def isa_div_def)

lemma divi32_s32_rem:
  assumes "- (2 ^ 31) \<le> a" "a < 2 ^ 31"
  shows "divi32_s32 a b 2 = Some (isa_rem 32 a b)"
  using to_double_exact [of a] assms by (simp add: divi32_s32_def isa_rem_def)

lemma divi32_u32_div: "divi32_u32 a b 1 = Some (if b = 0 then - 1 else a div b)"
  and divi32_u32_rem: "divi32_u32 a b 3 = Some (if b = 0 then a else a mod b)"
  using to_double_nonneg [of "uint a"] by (auto simp: divi32_u32_def MASK32_def)

end
