(* ===== verification/ALU.thy ===== *)
theory ALU
  imports Arith
begin

text \<open>
  The register-register and register-immediate operations of the main loop of \<^verbatim>\<open>emu.cpp\<close>, cases
  \<^verbatim>\<open>iops\<close>, \<^verbatim>\<open>iops64\<close>, \<^verbatim>\<open>rops\<close> and \<^verbatim>\<open>rops64\<close> (RV64I and the M extension), and the branch
  conditions of \<^verbatim>\<open>cjump\<close>. \<open>a\<close> and \<open>b\<close> are \<^verbatim>\<open>reg_file[rs1]\<close> and \<^verbatim>\<open>reg_file[rs2]\<close>. The variable
  \<^verbatim>\<open>wb_data\<close> is 0 when a case starts, so a combination no label lists leaves 0. The operations are
  shown equal to reference definitions on signed, unsigned and 32-bit values.
\<close>

section \<open>The code\<close>

text \<open>The loops of \<^verbatim>\<open>SRAI\<close>, \<^verbatim>\<open>SRA\<close> and of their 32-bit forms: \<open>n\<close> rounds from \<^verbatim>\<open>wb_data\<close>.\<close>

primrec sra_loop :: "nat \<Rightarrow> u64 \<Rightarrow> u64" where
  "sra_loop 0 wb_data = wb_data"
| "sra_loop (Suc n) wb_data = sra_loop n ((wb_data AND push_bit 63 1) OR drop_bit 1 wb_data)"

primrec sraw_loop :: "nat \<Rightarrow> u64 \<Rightarrow> u64" where
  "sraw_loop 0 wb_data = wb_data"
| "sraw_loop (Suc n) wb_data = sraw_loop n ((wb_data AND push_bit 31 1) OR drop_bit 1 wb_data)"

definition exec_iops :: "u64 \<Rightarrow> u64 \<Rightarrow> u64 \<Rightarrow> u64 \<Rightarrow> u64" where
  "exec_iops func3 func7 imm11_0 a =
     (let simm = sign_extend imm11_0 12; sh = unat (imm11_0 AND 0b111111) in
      if func3 = 0b000 then a + simm
      else if func3 = 0b010 then (if signed_value a < signed_value simm then 1 else 0)
      else if func3 = 0b011 then (if a < simm then 1 else 0)
      else if func3 = 0b111 then a AND simm
      else if func3 = 0b110 then a OR simm
      else if func3 = 0b100 then a XOR simm
      else if func3 = 0b001 then push_bit sh a
      else if func3 = 0b101 then
        (if drop_bit 1 func7 = 0b000000 then drop_bit sh a
         else if drop_bit 1 func7 = 0b010000 then sra_loop sh a
         else 0)
      else 0)"

definition exec_iops64 :: "u64 \<Rightarrow> u64 \<Rightarrow> u64 \<Rightarrow> u64 \<Rightarrow> u64" where
  "exec_iops64 func3 func7 imm11_0 a =
     (let sh = unat (imm11_0 AND 0b11111) in
      if func3 = 0b000 then sign_extend (MASK32 AND (a + sign_extend imm11_0 12)) 32
      else if func3 = 0b001 then sign_extend (MASK32 AND push_bit sh a) 32
      else if func3 = 0b101 then
        (if drop_bit 1 func7 = 0b000000
         then sign_extend (MASK32 AND drop_bit sh (a AND MASK32)) 32
         else if drop_bit 1 func7 = 0b010000
         then sign_extend (MASK32 AND sraw_loop sh (a AND MASK32)) 32
         else 0)
      else 0)"

text \<open>
  \<open>None\<close>: nothing is written to \<^verbatim>\<open>rd\<close>. \<^verbatim>\<open>mult_temp\<close> is an unsigned 128-bit integer; the conversion
  of a signed value to it extends the sign.
\<close>

definition exec_rops :: "u64 \<Rightarrow> u64 \<Rightarrow> u64 \<Rightarrow> u64 \<Rightarrow> u64 option result" where
  "exec_rops func3 func7 a b =
     (if func7 = 0b0000001 then
        (let high = (\<lambda>mult_temp :: u128. ucast (drop_bit 64 mult_temp) AND MASK64);
             sdivi = (\<lambda>k. andThen (of_option NoReturn (divi_s64 (signed_value a) (signed_value b) k))
               (\<lambda>q. Inr (Some (word_of_int q))));
             udivi = (\<lambda>k. andThen (of_option NoReturn (divi_u64 a b k)) (\<lambda>q. Inr (Some q))) in
         if func3 = 0b000 then Inr (Some ((a * b) AND MASK64))
         else if func3 = 0b001
         then Inr (Some (high (word_of_int (signed_value a) * word_of_int (signed_value b))))
         else if func3 = 0b010
         then Inr (Some (high (word_of_int (signed_value a) * ucast b)))
         else if func3 = 0b011 then Inr (Some (high (ucast a * ucast b)))
         else if func3 = 0b100 then sdivi 0
         else if func3 = 0b101 then udivi 1
         else if func3 = 0b110 then sdivi 2
         else if func3 = 0b111 then udivi 3
         else Inr None)
      else if func7 = 0b0000000 then
        Inr (Some
          (if func3 = 0b000 then a + b
           else if func3 = 0b010 then (if signed_value a < signed_value b then 1 else 0)
           else if func3 = 0b011 then (if a < b then 1 else 0)
           else if func3 = 0b111 then a AND b
           else if func3 = 0b110 then a OR b
           else if func3 = 0b100 then a XOR b
           else if func3 = 0b001 then push_bit (unat (b AND 0b111111)) a
           else if func3 = 0b101 then drop_bit (unat (b AND 0b111111)) a
           else 0))
      else if func7 = 0b0100000 then
        Inr (Some
          (if func3 = 0b000 then a - b
           else if func3 = 0b101 then sra_loop (unat (b AND 0b111111)) a
           else 0))
      else Inr None)"

definition exec_rops64 :: "u64 \<Rightarrow> u64 \<Rightarrow> u64 \<Rightarrow> u64 \<Rightarrow> u64 option result" where
  "exec_rops64 func3 func7 a b =
     (if func7 = 0b0000001 then
        (let sdivi = (\<lambda>x y k. of_option NoReturn (divi32_s32 (signed_value32 x) (signed_value32 y) k));
             udivi = (\<lambda>k. of_option NoReturn (divi32_u32 (ucast a) (ucast b) k)) in
         if func3 = 0b000
         then Inr (Some (sign_extend (((a AND MASK32) * (b AND MASK32)) AND MASK32) 32))
         else if func3 = 0b100
         then andThen (sdivi (a AND MASK32) (b AND MASK32) 0) (\<lambda>q.
           Inr (Some (sign_extend (MASK32 AND word_of_int q) 32)))
         else if func3 = 0b101
         then andThen (udivi 1) (\<lambda>q. Inr (Some (sign_extend (ucast q) 32)))
         else if func3 = 0b110
         then andThen (sdivi a b 2) (\<lambda>q. Inr (Some (sign_extend (word_of_int q AND MASK32) 32)))
         else if func3 = 0b111
         then andThen (udivi 3) (\<lambda>q. Inr (Some (sign_extend (ucast q) 32)))
         else Inr (Some 0))
      else if func7 = 0b0000000 then
        Inr (Some
          (if func3 = 0b000 then sign_extend ((a + b) AND MASK32) 32
           else if func3 = 0b001
           then sign_extend (push_bit (unat (b AND 0b11111)) a AND MASK32) 32
           else if func3 = 0b101
           then sign_extend (drop_bit (unat (b AND 0b11111)) (a AND MASK32)) 32
           else 0))
      else if func7 = 0b0100000 then
        Inr (Some
          (if func3 = 0b000 then sign_extend (((a AND MASK32) - (b AND MASK32)) AND MASK32) 32
           else if func3 = 0b101
           then sign_extend (sraw_loop (unat (b AND 0b11111)) (a AND MASK32)) 32
           else 0))
      else Inr None)"

text \<open>\<^verbatim>\<open>branch\<close> keeps its previous value when no label matches.\<close>

definition branch_cond :: "u64 \<Rightarrow> u64 \<Rightarrow> u64 \<Rightarrow> bool \<Rightarrow> bool" where
  "branch_cond func3 a b old =
     (if func3 = 0b000 then a = b
      else if func3 = 0b001 then a \<noteq> b
      else if func3 = 0b100 then signed_value a < signed_value b
      else if func3 = 0b101 then signed_value a \<ge> signed_value b
      else if func3 = 0b110 then a < b
      else if func3 = 0b111 then a \<ge> b
      else old)"

section \<open>Shifts\<close>

lemma bit_exp_numeral:
  "bit (0x8000000000000000 :: int) k \<longleftrightarrow> k = 63" "bit (0x80000000 :: int) k \<longleftrightarrow> k = 31"
proof -
  have eq: "(0x8000000000000000 :: int) = 2 ^ 63" "(0x80000000 :: int) = 2 ^ 31" by simp_all
  show "bit (0x8000000000000000 :: int) k \<longleftrightarrow> k = 63" "bit (0x80000000 :: int) k \<longleftrightarrow> k = 31"
    unfolding eq bit_exp_iff by auto
qed

lemma sra_loop_eq: "sra_loop n w = signed_drop_bit n w"
proof (induction n arbitrary: w)
  case (Suc n)
  have "(w AND push_bit 63 1) OR drop_bit 1 w = signed_drop_bit 1 w"
  proof (rule bit_word_eqI)
    fix k assume "k < LENGTH(64)"
    then show "bit ((w AND push_bit 63 1) OR drop_bit 1 w) k = bit (signed_drop_bit 1 w) k"
      by (cases "k = 63") (auto simp: bit_simps bit_exp_numeral dest: bit_imp_le_length)
  qed
  then show ?case by (simp add: Suc)
qed simp

text \<open>The 32-bit loop shifts the low half; the value it starts from has no other bits.\<close>

lemma sraw_loop_eq: "sraw_loop n (ucast x) = ucast (signed_drop_bit n x)" for x :: u32
proof (induction n arbitrary: x)
  case (Suc n)
  have "(ucast x AND push_bit 31 1) OR drop_bit 1 (ucast x) = (ucast (signed_drop_bit 1 x) :: u64)"
    (is "?l = ?r")
  proof (rule bit_word_eqI)
    fix k assume "k < LENGTH(64)"
    then show "bit ?l k = bit ?r k"
      by (cases "k = 31") (auto simp: bit_simps bit_exp_numeral dest: bit_imp_le_length)
  qed
  then show ?case by (simp add: Suc)
qed simp

lemma sint_sra: "sint (sra_loop n w) = sint w div 2 ^ n"
  by (simp add: sra_loop_eq sint_signed_drop_bit_eq drop_bit_eq_div)

section \<open>32-bit results\<close>

text \<open>The results of the \<^verbatim>\<open>*W\<close> operations are 32-bit values, sign-extended.\<close>

lemma sign_extend_32: "sign_extend (ucast x) 32 = scast x" for x :: u32
proof -
  have "take_bit 32 (ucast x) = (ucast x :: u64)"
    by (rule bit_word_eqI) (auto simp: bit_simps dest: bit_imp_le_length)
  then have "sign_extend (ucast x) 32 = signed_take_bit 31 (ucast x :: u64)"
    by (simp add: sign_extend_eq)
  also have "\<dots> = scast x"
    by (rule bit_word_eqI) (auto simp: bit_simps)
  finally show ?thesis .
qed

lemma and_MASK32_ucast: "w AND MASK32 = ucast (ucast w :: u32)" "MASK32 AND w = ucast (ucast w :: u32)"
  for w :: u64
  by (simp_all add: and_MASK32 MASK32_and unsigned_ucast_eq)

lemma sign_extend_12: "sign_extend (take_bit 12 i) 12 = signed_take_bit 11 i"
proof -
  have "sign_extend (take_bit 12 i) 12 = signed_take_bit 11 (take_bit 12 i)"
    by (subst sign_extend_eq) simp_all
  also have "\<dots> = signed_take_bit 11 i"
    by (rule bit_word_eqI) (auto simp: bit_simps min_def)
  finally show ?thesis .
qed

section \<open>Reference semantics\<close>

text \<open>
  The operations as the architecture states them, on the unsigned, signed and 32-bit readings
  of the operands.
\<close>

definition isa_mulh :: "int \<Rightarrow> int \<Rightarrow> u64" where "isa_mulh x y = word_of_int ((x * y) div 2 ^ 64)"

definition isa_rop :: "u64 \<Rightarrow> u64 \<Rightarrow> u64 \<Rightarrow> u64 \<Rightarrow> u64 option" where
  "isa_rop func3 func7 a b =
     (let sh = unat (take_bit 6 b) in
      if func7 = 1 then
        (if func3 = 0 then Some (a * b)
         else if func3 = 1 then Some (isa_mulh (sint a) (sint b))
         else if func3 = 2 then Some (isa_mulh (sint a) (uint b))
         else if func3 = 3 then Some (isa_mulh (uint a) (uint b))
         else if func3 = 4 then Some (word_of_int (isa_div 64 (sint a) (sint b)))
         else if func3 = 5 then Some (if b = 0 then - 1 else a div b)
         else if func3 = 6 then Some (word_of_int (isa_rem 64 (sint a) (sint b)))
         else if func3 = 7 then Some (if b = 0 then a else a mod b)
         else None)
      else if func7 = 0 then
        Some (if func3 = 0 then a + b
         else if func3 = 1 then push_bit sh a
         else if func3 = 2 then of_bool (a <s b)
         else if func3 = 3 then of_bool (a < b)
         else if func3 = 4 then a XOR b
         else if func3 = 5 then drop_bit sh a
         else if func3 = 6 then a OR b
         else if func3 = 7 then a AND b
         else 0)
      else if func7 = 0x20 then
        Some (if func3 = 0 then a - b else if func3 = 5 then signed_drop_bit sh a else 0)
      else None)"

definition isa_rop64 :: "u64 \<Rightarrow> u64 \<Rightarrow> u32 \<Rightarrow> u32 \<Rightarrow> u32 option" where
  "isa_rop64 func3 func7 a b =
     (let sh = unat (take_bit 5 b) in
      if func7 = 1 then
        Some (if func3 = 0 then a * b
         else if func3 = 4 then word_of_int (isa_div 32 (sint a) (sint b))
         else if func3 = 5 then (if b = 0 then - 1 else a div b)
         else if func3 = 6 then word_of_int (isa_rem 32 (sint a) (sint b))
         else if func3 = 7 then (if b = 0 then a else a mod b)
         else 0)
      else if func7 = 0 then
        Some (if func3 = 0 then a + b else if func3 = 1 then push_bit sh a
         else if func3 = 5 then drop_bit sh a else 0)
      else if func7 = 0x20 then
        Some (if func3 = 0 then a - b else if func3 = 5 then signed_drop_bit sh a else 0)
      else None)"

text \<open>The operands for which the rounded comparison of \<^verbatim>\<open>divi\<close> takes the overflow branch wrongly.\<close>

definition div_rounds :: "u64 \<Rightarrow> u64 \<Rightarrow> bool" where
  "div_rounds a b \<longleftrightarrow> b = - 1 \<and> - (2 ^ 63) < sint a \<and> sint a \<le> - (2 ^ 63) + 512"

lemma and_shift_masks: "w AND 0b111111 = take_bit 6 w" "w AND 0b11111 = take_bit 5 w" for w :: u64
  by (simp_all add: take_bit_eq_mask mask_eq_exp_minus_1)

lemma high_half: "ucast (drop_bit 64 (word_of_int k :: u128)) = (word_of_int (k div 2 ^ 64) :: u64)"
proof -
  have "ucast (drop_bit 64 (word_of_int k :: u128)) = (word_of_int (drop_bit 64 k) :: u64)"
    by (rule bit_word_eqI) (simp add: bit_simps)
  then show ?thesis by (simp only: drop_bit_eq_div)
qed

lemma exec_mul:
  "exec_rops 0 1 a b = Inr (Some (a * b))"
  "exec_rops 1 1 a b = Inr (Some (isa_mulh (sint a) (sint b)))"
  "exec_rops 2 1 a b = Inr (Some (isa_mulh (sint a) (uint b)))"
  "exec_rops 3 1 a b = Inr (Some (isa_mulh (uint a) (uint b)))"
proof -
  have u: "(ucast x :: u128) = word_of_int (uint x)" for x :: u64 by simp
  have m: "word_of_int x * word_of_int y = (word_of_int (x * y) :: u128)" for x y by simp
  show "exec_rops 0 1 a b = Inr (Some (a * b))" by (simp add: exec_rops_def)
  show "exec_rops 1 1 a b = Inr (Some (isa_mulh (sint a) (sint b)))"
    "exec_rops 2 1 a b = Inr (Some (isa_mulh (sint a) (uint b)))"
    "exec_rops 3 1 a b = Inr (Some (isa_mulh (uint a) (uint b)))"
    unfolding exec_rops_def isa_mulh_def signed_value_sint Let_def u m high_half by simp_all
qed

lemma sint_range: "- (2 ^ 63) \<le> sint a" "sint a < 2 ^ 63" for a :: u64
  using sint_greater_eq [of a] sint_less [of a] by simp_all

lemma sint_range32: "- (2 ^ 31) \<le> sint a" "sint a < 2 ^ 31" for a :: u32
  using sint_greater_eq [of a] sint_less [of a] by simp_all

lemma exec_div:
  "exec_rops 4 1 a b = Inr (Some (if div_rounds a b then - (2 ^ 63)
     else word_of_int (isa_div 64 (sint a) (sint b))))"
  "exec_rops 5 1 a b = Inr (Some (if b = 0 then - 1 else a div b))"
  "exec_rops 6 1 a b = Inr (Some (word_of_int (isa_rem 64 (sint a) (sint b))))"
  "exec_rops 7 1 a b = Inr (Some (if b = 0 then a else a mod b))"
proof -
  have b: "sint b = - 1 \<longleftrightarrow> b = - 1" by (metis signed_minus_1 signed_word_eqI)
  show "exec_rops 4 1 a b = Inr (Some (if div_rounds a b then - (2 ^ 63)
     else word_of_int (isa_div 64 (sint a) (sint b))))"
    using sint_range [of a] b
    by (auto simp: exec_rops_def signed_value_sint divi_s64_div div_rounds_def isa_div_def)
qed (simp_all add: exec_rops_def signed_value_sint divi_s64_rem [OF sint_range]
    divi_u64_div [unfolded One_nat_def] divi_u64_rem)

section \<open>The code computes the reference semantics\<close>

lemma exec_rops_isa:
  assumes "\<not> (func3 = 4 \<and> func7 = 1 \<and> div_rounds a b)"
  shows "exec_rops func3 func7 a b = Inr (isa_rop func3 func7 a b)"
proof (cases "func7 = 1")
  case True
  consider "func3 = 0" | "func3 = 1" | "func3 = 2" | "func3 = 3" | "func3 = 4" | "func3 = 5"
    | "func3 = 6" | "func3 = 7" | "func3 \<notin> {0, 1, 2, 3, 4, 5, 6, 7}" by blast
  then show ?thesis
  proof cases
    case 9
    then show ?thesis using True by (simp add: exec_rops_def isa_rop_def Let_def)
  qed (use True assms in \<open>simp_all add: exec_mul exec_div isa_rop_def Let_def\<close>)
next
  case False
  then show ?thesis
    by (auto simp: exec_rops_def isa_rop_def Let_def and_shift_masks sra_loop_eq signed_value_sint
        word_sless_alt)
qed

lemma word_of_int_mod: "word_of_int (k mod 2 ^ LENGTH(64)) = (word_of_int k :: u32)"
proof -
  have "word_of_int (take_bit LENGTH(64) k) = (word_of_int k :: u32)"
    by (rule bit_word_eqI) (simp add: bit_simps)
  then show ?thesis by (simp only: take_bit_eq_mod)
qed

lemma ucast_arith:
  "ucast (x + y) = (ucast x + ucast y :: u32)" "ucast (x - y) = (ucast x - ucast y :: u32)"
  "ucast (x * y) = (ucast x * ucast y :: u32)" for x y :: u64
proof -
  have u: "(ucast w :: u32) = word_of_int (uint w)" for w :: u64 by simp
  show "ucast (x + y) = (ucast x + ucast y :: u32)" "ucast (x - y) = (ucast x - ucast y :: u32)"
    "ucast (x * y) = (ucast x * ucast y :: u32)"
    unfolding u uint_word_ariths word_of_int_mod by (rule of_int_add of_int_diff of_int_mult)+
qed

lemma ucast_ucast: "ucast (ucast x :: u64) = x" for x :: u32
  by (rule bit_word_eqI) (auto simp: bit_simps)
lemma exec_rops64_isa:
  "exec_rops64 func3 func7 a b = Inr (map_option scast (isa_rop64 func3 func7 (ucast a) (ucast b)))"
proof -
  have shb: "unat (take_bit 5 b) = unat (take_bit 5 (ucast b :: u32))"
    by (simp add: unsigned_take_bit_eq unsigned_ucast_eq take_bit_take_bit)
  have push: "ucast (push_bit k a) = push_bit k (ucast a :: u32)" for k
    by (rule bit_word_eqI) (auto simp: bit_simps)
  have drop: "drop_bit k (ucast (ucast a :: u32)) = (ucast (drop_bit k (ucast a :: u32)) :: u64)" for k
    by (rule bit_word_eqI) (auto simp: bit_simps dest: bit_imp_le_length)
  have int: "ucast (word_of_int k :: u64) = (word_of_int k :: u32)" for k
    by (rule bit_word_eqI) (auto simp: bit_simps)
  note w = and_MASK32_ucast and_shift_masks shb push drop int ucast_arith ucast_ucast
    sign_extend_32 signed_value32_sint sraw_loop_eq divi32_s32_div [OF sint_range32]
    divi32_s32_rem [OF sint_range32] divi32_u32_div divi32_u32_rem of_option_simps andThen_simps
    option.map
  show ?thesis
    unfolding exec_rops64_def isa_rop64_def Let_def w
    by (simp add: if_distrib [where f = "\<lambda>x. Some (scast x)"] if_distrib [where f = scast])
qed

text \<open>The immediate forms. \<open>imm\<close> is the 12-bit field; its low bits are the shift amount.\<close>

definition isa_iop :: "u64 \<Rightarrow> u64 \<Rightarrow> u64 \<Rightarrow> u64 \<Rightarrow> u64" where
  "isa_iop func3 func7 imm a =
     (let i = signed_take_bit 11 imm; sh = unat (take_bit 6 imm) in
      if func3 = 0 then a + i
      else if func3 = 1 then push_bit sh a
      else if func3 = 2 then of_bool (a <s i)
      else if func3 = 3 then of_bool (a < i)
      else if func3 = 4 then a XOR i
      else if func3 = 5 then
        (if func7 div 2 = 0 then drop_bit sh a
         else if func7 div 2 = 0x10 then signed_drop_bit sh a else 0)
      else if func3 = 6 then a OR i
      else if func3 = 7 then a AND i
      else 0)"

definition isa_iop64 :: "u64 \<Rightarrow> u64 \<Rightarrow> u64 \<Rightarrow> u32 \<Rightarrow> u32" where
  "isa_iop64 func3 func7 imm a =
     (let sh = unat (take_bit 5 imm) in
      if func3 = 0 then a + ucast (signed_take_bit 11 imm)
      else if func3 = 1 then push_bit sh a
      else if func3 = 5 then
        (if func7 div 2 = 0 then drop_bit sh a
         else if func7 div 2 = 0x10 then signed_drop_bit sh a else 0)
      else 0)"

lemma drop_bit_1: "drop_bit 1 w = w div 2" for w :: u64
  by (simp add: drop_bit_eq_div)

lemma exec_iops_isa: "exec_iops func3 func7 (take_bit 12 imm) a = isa_iop func3 func7 imm a"
proof -
  have sh: "take_bit 6 (take_bit 12 imm) = take_bit 6 imm" by simp
  show ?thesis
    unfolding exec_iops_def isa_iop_def Let_def and_shift_masks sign_extend_12 sh sra_loop_eq
      drop_bit_1 signed_value_sint
    by (auto simp: word_sless_alt)
qed

lemma exec_iops64_isa:
  "exec_iops64 func3 func7 (take_bit 12 imm) a = scast (isa_iop64 func3 func7 imm (ucast a))"
proof -
  have sh: "take_bit 5 (take_bit 12 imm) = take_bit 5 imm" by simp
  have push: "ucast (push_bit k a) = push_bit k (ucast a :: u32)" for k
    by (rule bit_word_eqI) (auto simp: bit_simps)
  have drop: "drop_bit k (ucast x :: u64) = (ucast (drop_bit k x))" for x :: u32 and k
    by (rule bit_word_eqI) (auto simp: bit_simps dest: bit_imp_le_length)
  show ?thesis
    unfolding exec_iops64_def isa_iop64_def Let_def and_shift_masks sign_extend_12 sh
      drop_bit_1 and_MASK32_ucast push drop sraw_loop_eq ucast_ucast sign_extend_32 ucast_arith
    by simp
qed

section \<open>Further facts\<close>

text \<open>
  For every \<^verbatim>\<open>func3\<close>, \<^verbatim>\<open>func7\<close> and operands, the \<^verbatim>\<open>rops\<close> case writes what the reference
  semantics says (sums, comparisons, shifts, high products, quotients and remainders, nothing
  for an unlisted \<^verbatim>\<open>func7\<close>); the one exception are \<^verbatim>\<open>DIV\<close> operands with divisor -1 and a dividend
  within 512 of the most negative value, where the code answers the most negative value.
\<close>

theorem rops_reference:
  "exec_rops func3 func7 a b =
     Inr (if func3 = 4 \<and> func7 = 1 \<and> div_rounds a b then Some (- (2 ^ 63))
          else isa_rop func3 func7 a b)"
  using exec_rops_isa [of func3 func7 a b] exec_div(1) [of a b] by auto

text \<open>
  The \<^verbatim>\<open>rops64\<close> case computes the 32-bit reference operation on the low halves of the operands
  and sign-extends the result, for every \<^verbatim>\<open>func3\<close>, \<^verbatim>\<open>func7\<close> and operands; it always returns.
\<close>

theorem rops64_reference:
  "exec_rops64 func3 func7 a b = Inr (map_option scast (isa_rop64 func3 func7 (ucast a) (ucast b)))"
  by (rule exec_rops64_isa)

text \<open>
  The \<^verbatim>\<open>iops\<close> and \<^verbatim>\<open>iops64\<close> cases compute the reference operation with the sign-extended
  12-bit immediate, or with its low bits as shift amount.
\<close>

theorem iops_reference:
  "exec_iops func3 func7 (take_bit 12 imm) a = isa_iop func3 func7 imm a \<and>
   exec_iops64 func3 func7 (take_bit 12 imm) a = scast (isa_iop64 func3 func7 imm (ucast a))"
  by (simp add: exec_iops_isa exec_iops64_isa)

text \<open>
  The comparison of the dividend with \<^verbatim>\<open>-pow(2,63)\<close> is a comparison of doubles. \<^verbatim>\<open>DIV\<close> of
  \<open>- 2 ^ 63 + 1\<close> by -1 answers \<open>- 2 ^ 63\<close>; the quotient is \<open>2 ^ 63 - 1\<close>.
\<close>

theorem div_rounding_wrong:
  "exec_rops 4 1 (- (2 ^ 63) + 1) (- 1) = Inr (Some (- (2 ^ 63))) \<and>
   isa_rop 4 1 (- (2 ^ 63) + 1) (- 1) = Some (2 ^ 63 - 1)"
proof
  have "div_rounds (- (2 ^ 63) + 1) (- 1)" by (simp add: div_rounds_def)
  then show "exec_rops 4 1 (- (2 ^ 63) + 1) (- 1) = Inr (Some (- (2 ^ 63)))"
    by (simp only: exec_div if_True)
  show "isa_rop 4 1 (- (2 ^ 63) + 1) (- 1) = Some (2 ^ 63 - 1)"
    by (simp add: isa_rop_def isa_div_def signed_divide_int_def)
qed

end
