(* ===== verification/Decode.thy ===== *)
theory Decode
  imports Arith
begin

text \<open>
  Instruction fields: \<^verbatim>\<open>getINST\<close> and \<^verbatim>\<open>opcode_t\<close> of \<^verbatim>\<open>emu.h\<close> and the decoding block at the top
  of the main loop of \<^verbatim>\<open>emu.cpp\<close>. The immediates are proved to invert the encodings of the
  instruction formats.
\<close>

section \<open>Fetching\<close>

definition getINST :: "u64 \<Rightarrow> memory \<Rightarrow> u64 result" where
  "getINST pc m =
     (if pc mod 2 = 0 then andThen (mem_at m (pc div 2)) (\<lambda>w. Inr (MASK32 AND w))
      else andThen (mem_at m (pc div 2)) (\<lambda>w. Inr (drop_bit 32 w)))"

section \<open>Opcodes\<close>

datatype opcode_t =
    lui | auipc | jump | jumpr | cjump | load | store | iops | iops64 | rops | rops64 | amo
  | fence | systm | fd1 | fd2 | fd3 | fd4 | fd5 | fd6 | fd7

primrec opcode_bits :: "opcode_t \<Rightarrow> u64" where
  "opcode_bits lui    = 0b0110111"
| "opcode_bits auipc  = 0b0010111"
| "opcode_bits jump   = 0b1101111"
| "opcode_bits jumpr  = 0b1100111"
| "opcode_bits cjump  = 0b1100011"
| "opcode_bits load   = 0b0000011"
| "opcode_bits store  = 0b0100011"
| "opcode_bits iops   = 0b0010011"
| "opcode_bits iops64 = 0b0011011"
| "opcode_bits rops   = 0b0110011"
| "opcode_bits rops64 = 0b0111011"
| "opcode_bits amo    = 0b0101111"
| "opcode_bits fence  = 0b0001111"
| "opcode_bits systm  = 0b1110011"
| "opcode_bits fd1    = 0b0000111"
| "opcode_bits fd2    = 0b0100111"
| "opcode_bits fd3    = 0b1000011"
| "opcode_bits fd4    = 0b1000111"
| "opcode_bits fd5    = 0b1001011"
| "opcode_bits fd6    = 0b1001111"
| "opcode_bits fd7    = 0b1010011"

text \<open>The \<^verbatim>\<open>default\<close> label of \<^verbatim>\<open>switch(opcode)\<close> is the value \<open>None\<close>.\<close>

definition opcode_of :: "u64 \<Rightarrow> opcode_t option" where
  "opcode_of b =
     find (\<lambda>oc. opcode_bits oc = b)
       [lui, auipc, jump, jumpr, cjump, load, store, iops, iops64, rops, rops64, amo, fence, systm,
        fd1, fd2, fd3, fd4, fd5, fd6, fd7]"

lemma opcode_of_bits [simp]: "opcode_of (opcode_bits oc) = Some oc"
  by (cases oc) (simp_all add: opcode_of_def)

section \<open>Fields\<close>

record fields =
  f_opcode :: "opcode_t option"
  f_rd :: u64
  f_func3 :: u64
  f_rs1 :: u64
  f_rs2 :: u64
  f_func7 :: u64
  f_imm11_0 :: u64
  f_imm31_12 :: u64
  f_imm_j :: u64
  f_imm_b :: u64
  f_imm_s :: u64
  f_amo_op :: u64

definition decode :: "u64 \<Rightarrow> fields" where
  "decode instruction = \<lparr>
     f_opcode = opcode_of (instruction AND 0b1111111),
     f_rd = drop_bit 7 instruction AND 0b11111,
     f_func3 = drop_bit 12 instruction AND 0b111,
     f_rs1 = drop_bit 15 instruction AND 0b11111,
     f_rs2 = drop_bit 20 instruction AND 0b11111,
     f_func7 = drop_bit 25 instruction AND 0b1111111,
     f_imm11_0 = drop_bit 20 instruction AND 0b111111111111,
     f_imm31_12 = drop_bit 12 instruction AND 0xFFFFF,
     f_imm_j = push_bit 20 (drop_bit 31 instruction AND 1) +
       (instruction AND push_bit 12 0b11111111) + push_bit 11 (drop_bit 20 instruction AND 1) +
       push_bit 1 (drop_bit 21 instruction AND 0b1111111111),
     f_imm_b = push_bit 12 (drop_bit 31 instruction AND 1) +
       push_bit 11 (drop_bit 7 instruction AND 1) +
       push_bit 5 (drop_bit 25 instruction AND 0b111111) + (drop_bit 7 instruction AND 0b11110),
     f_imm_s = push_bit 5 (drop_bit 25 instruction AND 0b1111111) +
       (drop_bit 7 instruction AND 0b11111),
     f_amo_op = drop_bit 27 instruction AND 0b11111\<rparr>"

section \<open>The instruction formats\<close>

text \<open>
  The encodings of the architecture, as bit fields at their positions. Operands are cut to the
  width of their field.
\<close>

definition fld :: "nat \<Rightarrow> nat \<Rightarrow> u64 \<Rightarrow> u64" where
  "fld pos len v = push_bit pos (take_bit len v)"

definition sub :: "nat \<Rightarrow> nat \<Rightarrow> u64 \<Rightarrow> u64" where
  "sub pos len v = take_bit len (drop_bit pos v)"

definition enc_R :: "u64 \<Rightarrow> u64 \<Rightarrow> u64 \<Rightarrow> u64 \<Rightarrow> u64 \<Rightarrow> u64 \<Rightarrow> u64" where
  "enc_R oc rd f3 rs1 rs2 f7 =
     fld 0 7 oc OR fld 7 5 rd OR fld 12 3 f3 OR fld 15 5 rs1 OR fld 20 5 rs2 OR fld 25 7 f7"

definition enc_I :: "u64 \<Rightarrow> u64 \<Rightarrow> u64 \<Rightarrow> u64 \<Rightarrow> u64 \<Rightarrow> u64" where
  "enc_I oc rd f3 rs1 imm =
     fld 0 7 oc OR fld 7 5 rd OR fld 12 3 f3 OR fld 15 5 rs1 OR fld 20 12 imm"

definition enc_S :: "u64 \<Rightarrow> u64 \<Rightarrow> u64 \<Rightarrow> u64 \<Rightarrow> u64 \<Rightarrow> u64" where
  "enc_S oc f3 rs1 rs2 imm =
     fld 0 7 oc OR fld 7 5 imm OR fld 12 3 f3 OR fld 15 5 rs1 OR fld 20 5 rs2 OR
     fld 25 7 (drop_bit 5 imm)"

definition enc_B :: "u64 \<Rightarrow> u64 \<Rightarrow> u64 \<Rightarrow> u64 \<Rightarrow> u64 \<Rightarrow> u64" where
  "enc_B oc f3 rs1 rs2 imm =
     fld 0 7 oc OR fld 7 1 (drop_bit 11 imm) OR fld 8 4 (drop_bit 1 imm) OR fld 12 3 f3 OR
     fld 15 5 rs1 OR fld 20 5 rs2 OR fld 25 6 (drop_bit 5 imm) OR fld 31 1 (drop_bit 12 imm)"

definition enc_U :: "u64 \<Rightarrow> u64 \<Rightarrow> u64 \<Rightarrow> u64" where
  "enc_U oc rd imm = fld 0 7 oc OR fld 7 5 rd OR fld 12 20 imm"

definition enc_J :: "u64 \<Rightarrow> u64 \<Rightarrow> u64 \<Rightarrow> u64" where
  "enc_J oc rd imm =
     fld 0 7 oc OR fld 7 5 rd OR fld 12 8 (drop_bit 12 imm) OR fld 20 1 (drop_bit 11 imm) OR
     fld 21 10 (drop_bit 1 imm) OR fld 31 1 (drop_bit 20 imm)"

lemmas encs = enc_R_def enc_I_def enc_S_def enc_B_def enc_U_def enc_J_def

lemma bit_fld [bit_simps]: "bit (fld pos len v) n \<longleftrightarrow> n < 64 \<and> pos \<le> n \<and> n - pos < len \<and> bit v (n - pos)"
  by (auto simp: fld_def bit_simps dest: bit_imp_le_length)

text \<open>The decoder's fields as slices of the instruction.\<close>

lemma and_ones:
  "w AND 1 = take_bit 1 w" "w AND 0b111 = take_bit 3 w" "w AND 0b11111 = take_bit 5 w"
  "w AND 0b111111 = take_bit 6 w" "w AND 0b1111111 = take_bit 7 w"
  "w AND 0b1111111111 = take_bit 10 w" "w AND 0b111111111111 = take_bit 12 w"
  "w AND 0xFFFFF = take_bit 20 w" for w :: u64
  by (simp_all add: take_bit_eq_mask mask_eq_exp_minus_1)

lemma and_hole: "w AND push_bit k (mask l) = push_bit k (take_bit l (drop_bit k w))" for w :: u64
  by (rule bit_word_eqI) (auto simp: bit_simps)

lemma and_holes:
  "w AND push_bit 12 0b11111111 = push_bit 12 (take_bit 8 (drop_bit 12 w))"
  "w AND 0b11110 = push_bit 1 (take_bit 4 (drop_bit 1 w))" for w :: u64
  using and_hole [of w 12 8] and_hole [of w 1 4] by (simp_all add: mask_eq_exp_minus_1)

text \<open>The three scattered immediates, as unions of disjoint slices.\<close>

lemma imm_j_or:
  "f_imm_j (decode w) = fld 20 1 (drop_bit 31 w) OR fld 12 8 (drop_bit 12 w) OR
     fld 11 1 (drop_bit 20 w) OR fld 1 10 (drop_bit 21 w)"
  unfolding decode_def fields.simps and_ones and_holes fld_def
  by (rule plus_eq_or4I; rule fields_disjoint(1); simp)

lemma imm_b_or:
  "f_imm_b (decode w) = fld 12 1 (drop_bit 31 w) OR fld 11 1 (drop_bit 7 w) OR
     fld 5 6 (drop_bit 25 w) OR fld 1 4 (drop_bit 1 (drop_bit 7 w))"
  unfolding decode_def fields.simps and_ones and_holes fld_def
  by (rule plus_eq_or4I; rule fields_disjoint(1); simp)

lemma imm_s_or: "f_imm_s (decode w) = fld 5 7 (drop_bit 25 w) OR fld 0 5 (drop_bit 7 w)"
  unfolding decode_def fields.simps and_ones fld_def push_bit_0_id id_apply
  by (rule plus_eq_or, rule fields_disjoint(2)) simp

lemma decode_slices:
  "f_rd (decode w) = take_bit 5 (drop_bit 7 w)" "f_func3 (decode w) = take_bit 3 (drop_bit 12 w)"
  "f_rs1 (decode w) = take_bit 5 (drop_bit 15 w)" "f_rs2 (decode w) = take_bit 5 (drop_bit 20 w)"
  "f_func7 (decode w) = take_bit 7 (drop_bit 25 w)"
  "f_imm11_0 (decode w) = take_bit 12 (drop_bit 20 w)"
  "f_imm31_12 (decode w) = take_bit 20 (drop_bit 12 w)"
  "f_amo_op (decode w) = take_bit 5 (drop_bit 27 w)"
  "f_opcode (decode w) = opcode_of (take_bit 7 (drop_bit 0 w))"
  by (simp_all add: decode_def and_ones)

text \<open>Position \<open>n\<close> of an instruction or immediate, one at a time.\<close>

lemma bits_32:
  "n < 32 \<Longrightarrow> n \<in> {0, 1, 2, 3, 4, 5, 6, 7, 8, 9, 10, 11, 12, 13, 14, 15, 16, 17, 18, 19, 20,
     21, 22, 23, 24, 25, 26, 27, 28, 29, 30, 31}" for n :: nat
  unfolding insert_iff empty_iff by arith

lemma word_eq_32I:
  fixes v w :: u64
  assumes "take_bit 32 v = v" "take_bit 32 w = w"
    and "\<And>n. n \<in> {0, 1, 2, 3, 4, 5, 6, 7, 8, 9, 10, 11, 12, 13, 14, 15, 16, 17, 18, 19, 20,
     21, 22, 23, 24, 25, 26, 27, 28, 29, 30, 31} \<Longrightarrow> bit v n = bit w n"
  shows "v = w"
proof -
  have "take_bit 32 v = take_bit 32 w"
    by (rule bit_word_eqI) (use assms(3) [OF bits_32] in \<open>auto simp: bit_simps\<close>)
  then show ?thesis by (simp add: assms)
qed

lemma take_bit_32_fld: "pos + len \<le> 32 \<Longrightarrow> take_bit 32 (fld pos len v) = fld pos len v"
  by (rule bit_word_eqI) (auto simp: bit_simps)

lemmas bit_numerals = numeral_2_eq_2 [symmetric] numeral_3_eq_3 [symmetric]

lemma fld_even:
  assumes "even imm"
  shows "fld 1 k (drop_bit 1 imm) = take_bit (Suc k) imm"
proof (rule bit_word_eqI)
  fix n assume n: "n < LENGTH(64)"
  show "bit (fld 1 k (drop_bit 1 imm)) n = bit (take_bit (Suc k) imm) n"
  proof (cases n)
    case 0
    then show ?thesis unfolding bit_fld bit_take_bit_iff using assms by (simp add: bit_0)
  next
    case (Suc n')
    then show ?thesis using n by (auto simp: bit_simps)
  qed
qed

lemma decode_enc_B_imm:
  "f_imm_b (decode (enc_B oc f3 rs1 rs2 imm)) = fld 1 12 (drop_bit 1 imm)"
  by (rule word_eq_32I; (elim insertE emptyE)?;
      simp add: imm_b_or enc_B_def bit_simps take_bit_32_fld bit_numerals)

lemma decode_enc_S_imm: "f_imm_s (decode (enc_S oc f3 rs1 rs2 imm)) = take_bit 12 imm"
  by (rule word_eq_32I; (elim insertE emptyE)?;
      simp add: imm_s_or enc_S_def bit_simps take_bit_32_fld)

lemma decode_enc_J_imm: "f_imm_j (decode (enc_J oc rd imm)) = fld 1 20 (drop_bit 1 imm)"
  by (rule word_eq_32I; (elim insertE emptyE)?;
      simp add: imm_j_or enc_J_def bit_simps take_bit_32_fld bit_numerals)

text \<open>The remaining fields of the six formats.\<close>

lemma slice_32I:
  assumes "len \<le> 32" "\<And>n. n < len \<Longrightarrow> bit w (pos + n) = bit v n"
  shows "take_bit len (drop_bit pos w) = (take_bit len v :: u64)"
  by (rule bit_word_eqI) (use assms in \<open>auto simp: bit_simps\<close>)

lemma decode_enc_R:
  "f_rd (decode (enc_R oc rd f3 rs1 rs2 f7)) = take_bit 5 rd"
  "f_func3 (decode (enc_R oc rd f3 rs1 rs2 f7)) = take_bit 3 f3"
  "f_rs1 (decode (enc_R oc rd f3 rs1 rs2 f7)) = take_bit 5 rs1"
  "f_rs2 (decode (enc_R oc rd f3 rs1 rs2 f7)) = take_bit 5 rs2"
  "f_func7 (decode (enc_R oc rd f3 rs1 rs2 f7)) = take_bit 7 f7"
  "f_opcode (decode (enc_R oc rd f3 rs1 rs2 f7)) = opcode_of (take_bit 7 oc)"
  unfolding decode_slices enc_R_def
  by (rule arg_cong [where f = opcode_of] slice_32I; (rule slice_32I)?; simp add: bit_simps)+

lemma decode_enc_I:
  "f_rd (decode (enc_I oc rd f3 rs1 imm)) = take_bit 5 rd"
  "f_func3 (decode (enc_I oc rd f3 rs1 imm)) = take_bit 3 f3"
  "f_rs1 (decode (enc_I oc rd f3 rs1 imm)) = take_bit 5 rs1"
  "f_imm11_0 (decode (enc_I oc rd f3 rs1 imm)) = take_bit 12 imm"
  "f_opcode (decode (enc_I oc rd f3 rs1 imm)) = opcode_of (take_bit 7 oc)"
  unfolding decode_slices enc_I_def
  by (rule arg_cong [where f = opcode_of] slice_32I; (rule slice_32I)?; simp add: bit_simps)+

lemma decode_enc_S:
  "f_func3 (decode (enc_S oc f3 rs1 rs2 imm)) = take_bit 3 f3"
  "f_rs1 (decode (enc_S oc f3 rs1 rs2 imm)) = take_bit 5 rs1"
  "f_rs2 (decode (enc_S oc f3 rs1 rs2 imm)) = take_bit 5 rs2"
  "f_opcode (decode (enc_S oc f3 rs1 rs2 imm)) = opcode_of (take_bit 7 oc)"
  unfolding decode_slices enc_S_def
  by (rule arg_cong [where f = opcode_of] slice_32I; (rule slice_32I)?; simp add: bit_simps)+

lemma decode_enc_B:
  "f_func3 (decode (enc_B oc f3 rs1 rs2 imm)) = take_bit 3 f3"
  "f_rs1 (decode (enc_B oc f3 rs1 rs2 imm)) = take_bit 5 rs1"
  "f_rs2 (decode (enc_B oc f3 rs1 rs2 imm)) = take_bit 5 rs2"
  "f_opcode (decode (enc_B oc f3 rs1 rs2 imm)) = opcode_of (take_bit 7 oc)"
  unfolding decode_slices enc_B_def
  by (rule arg_cong [where f = opcode_of] slice_32I; (rule slice_32I)?; simp add: bit_simps)+

lemma decode_enc_U:
  "f_rd (decode (enc_U oc rd imm)) = take_bit 5 rd"
  "f_imm31_12 (decode (enc_U oc rd imm)) = take_bit 20 imm"
  "f_opcode (decode (enc_U oc rd imm)) = opcode_of (take_bit 7 oc)"
  unfolding decode_slices enc_U_def
  by (rule arg_cong [where f = opcode_of] slice_32I; (rule slice_32I)?; simp add: bit_simps)+

lemma decode_enc_J:
  "f_rd (decode (enc_J oc rd imm)) = take_bit 5 rd"
  "f_opcode (decode (enc_J oc rd imm)) = opcode_of (take_bit 7 oc)"
  unfolding decode_slices enc_J_def
  by (rule arg_cong [where f = opcode_of] slice_32I; (rule slice_32I)?; simp add: bit_simps)+

section \<open>Further facts\<close>

text \<open>
  The decoder inverts the encodings of the immediates of the I, S, B, U and J formats; those of
  B and J have an implicit zero bit.
\<close>

theorem immediates_roundtrip:
  "f_imm11_0 (decode (enc_I oc rd f3 rs1 imm)) = take_bit 12 imm \<and>
   f_imm_s (decode (enc_S oc f3 rs1 rs2 imm)) = take_bit 12 imm \<and>
   f_imm_b (decode (enc_B oc f3 rs1 rs2 (2 * imm))) = take_bit 13 (2 * imm) \<and>
   f_imm31_12 (decode (enc_U oc rd imm)) = take_bit 20 imm \<and>
   f_imm_j (decode (enc_J oc rd (2 * imm))) = take_bit 21 (2 * imm)"
proof -
  have "even (2 * imm)" by simp
  from fld_even [OF this, of 12] fld_even [OF this, of 20] show ?thesis
    by (simp add: decode_enc_I decode_enc_U decode_enc_S_imm decode_enc_B_imm decode_enc_J_imm)
qed

end
