(* ===== verification/Trap.thy ===== *)
theory Trap
  imports Devices
begin

text \<open>
  Trap entry, from \<^verbatim>\<open>csr_file.h\<close>: \<^verbatim>\<open>trap_mode_select\<close> follows the delegation registers,
  \<^verbatim>\<open>excep_function\<close> and \<^verbatim>\<open>interrupt_function\<close> enter the handler. What entering a handler does to
  the state is stated once (\<open>trap_enter\<close>) and both functions are shown to do exactly that.
\<close>

section \<open>The code\<close>

text \<open>
  The \<^verbatim>\<open>switch\<close> has no \<^verbatim>\<open>HMODE\<close> label and nothing follows it: in that mode the function ends
  without a value. The causes are constants below 64, so the shifts are defined.
\<close>

definition trap_mode_select :: "u64 \<Rightarrow> bool \<Rightarrow> plevel_t \<Rightarrow> csr_t \<Rightarrow> plevel_t result" where
  "trap_mode_select cause interrupt current_privilage c =
     (case current_privilage of
        MMODE \<Rightarrow> Inr MMODE
      | SMODE \<Rightarrow>
          (let mtrap_deleg_reg = if interrupt then mideleg c else medeleg c in
           if drop_bit (unat cause) mtrap_deleg_reg AND 1 = 1 then Inr SMODE else Inr MMODE)
      | UMODE \<Rightarrow>
          (let mtrap_deleg_reg = if interrupt then mideleg c else medeleg c;
               strap_deleg_reg = if interrupt then sideleg c else sedeleg c in
           if drop_bit (unat cause) mtrap_deleg_reg AND 1 = 1 then
             (if drop_bit (unat cause) strap_deleg_reg AND 1 = 1 then Inr UMODE else Inr SMODE)
           else Inr MMODE)
      | HMODE \<Rightarrow> Inl NoReturn)"

definition excep_function ::
    "u64 \<Rightarrow> u64 \<Rightarrow> u64 \<Rightarrow> u64 \<Rightarrow> plevel_t \<Rightarrow> emu \<Rightarrow> (u64 \<times> emu) result" where
  "excep_function pc mecode secode uecode current_privilage s =
     (let ecode = (if current_privilage = UMODE then uecode
                   else if current_privilage = SMODE then secode
                   else if current_privilage = MMODE then mecode else 0) in
      andThen (trap_mode_select ecode False current_privilage (csrs s)) (\<lambda>handling_mode.
      if handling_mode = UMODE then Inl (Exit 4)
      else if handling_mode = SMODE then
        (let s = upd_mstatus (\<lambda>m. m\<lparr>ms_mpp := plevel_code (cp s), ms_spp := plevel_code (cp s)\<rparr>) s;
             s = s\<lparr>cp := SMODE\<rparr>;
             s = upd_mstatus (\<lambda>m. m\<lparr>ms_spie := ms_sie m\<rparr>) s;
             s = upd_mstatus (\<lambda>m. m\<lparr>ms_sie := 0\<rparr>) s;
             s = csrs_update (\<lambda>c. c\<lparr>scause := \<lparr>ca_interrupt = 0, ca_ecode = ecode\<rparr>,
                                   sepc := pc - 4\<rparr>) s
         in Inr (tv_base (stvec (csrs s)), s))
      else if handling_mode = MMODE then
        (let s = upd_mstatus (\<lambda>m. m\<lparr>ms_mpp := plevel_code (cp s)\<rparr>) s;
             s = s\<lparr>cp := MMODE\<rparr>;
             s = upd_mstatus (\<lambda>m. m\<lparr>ms_mpie := ms_mie m\<rparr>) s;
             s = upd_mstatus (\<lambda>m. m\<lparr>ms_mie := 0\<rparr>) s;
             s = csrs_update (\<lambda>c. c\<lparr>mcause := \<lparr>ca_interrupt = 0, ca_ecode = ecode\<rparr>,
                                   mepc := pc - 4\<rparr>) s
         in Inr (tv_base (mtvec (csrs s)), s))
      else Inr (pc, s)))"

definition interrupt_function ::
    "u64 \<Rightarrow> u64 \<Rightarrow> plevel_t \<Rightarrow> emu \<Rightarrow> (u64 \<times> emu) result" where
  "interrupt_function pc mecode current_privilage s =
     (let ecode = mecode in
      andThen (trap_mode_select ecode True current_privilage (csrs s)) (\<lambda>handling_mode.
      if handling_mode = UMODE \<and> ms_uie (mstatus (csrs s)) = 1 then Inl (Exit 1)
      else if handling_mode = SMODE \<and> ms_sie (mstatus (csrs s)) = 1 then
        (let s = upd_mstatus (\<lambda>m. m\<lparr>ms_mpp := plevel_code (cp s), ms_spp := plevel_code (cp s)\<rparr>) s;
             s = s\<lparr>cp := SMODE\<rparr>;
             s = upd_mstatus (\<lambda>m. m\<lparr>ms_spie := ms_sie m\<rparr>) s;
             s = upd_mstatus (\<lambda>m. m\<lparr>ms_sie := 0\<rparr>) s;
             s = csrs_update (\<lambda>c. c\<lparr>scause := \<lparr>ca_interrupt = 1, ca_ecode = ecode\<rparr>,
                                   sepc := pc\<rparr>) s
         in if tv_mode (stvec (csrs s)) = 1 then Inl (Exit 2)
            else if tv_mode (stvec (csrs s)) = 0 then
              (if current_privilage = MMODE then Inl (Exit 5)
               else Inr (tv_base (stvec (csrs s)), s))
            else Inr (0, s))
      else if handling_mode = MMODE \<and> ms_mie (mstatus (csrs s)) = 1 then
        (let s = upd_mstatus (\<lambda>m. m\<lparr>ms_mpp := plevel_code (cp s)\<rparr>) s;
             s = s\<lparr>cp := MMODE\<rparr>;
             s = upd_mstatus (\<lambda>m. m\<lparr>ms_mpie := ms_mie m\<rparr>) s;
             s = upd_mstatus (\<lambda>m. m\<lparr>ms_mie := 0\<rparr>) s;
             s = csrs_update (\<lambda>c. c\<lparr>mcause := \<lparr>ca_interrupt = 1, ca_ecode = ecode\<rparr>,
                                   mepc := pc\<rparr>) s
         in if tv_mode (mtvec (csrs s)) = 1 then Inl (Exit 3)
            else if tv_mode (mtvec (csrs s)) = 0 then
              (if current_privilage = MMODE then Inl (Exit 5)
               else Inr (tv_base (mtvec (csrs s)), s))
            else Inr (0, s))
      else Inr (pc, s)))"

section \<open>Delegation\<close>

lemma drop_bit_and_1: "drop_bit n w AND 1 = 1 \<longleftrightarrow> bit w n" for w :: u64
  by (simp add: and_one_eq bit_iff_odd_drop_bit odd_iff_mod_2_eq_one)

lemma trap_mode_select_eq:
  "trap_mode_select cause intr p c =
     (let m = if intr then mideleg c else medeleg c; u = if intr then sideleg c else sedeleg c;
          n = unat cause in
      if p = HMODE then Inl NoReturn
      else if p = MMODE \<or> \<not> bit m n then Inr MMODE
      else if p = SMODE \<or> \<not> bit u n then Inr SMODE
      else Inr UMODE)"
  by (cases p) (simp_all add: trap_mode_select_def drop_bit_and_1 Let_def)

lemma plevel_le_iff:
  "(MMODE \<le> p) = (p = MMODE)" "(SMODE \<le> p) = (p \<noteq> UMODE)" "UMODE \<le> p" "p \<le> MMODE"
  by (cases p; simp add: less_eq_plevel_t_def word_le_nat_alt)+

lemma trap_mode_select_total:
  assumes "p \<noteq> HMODE"
  obtains h where "trap_mode_select cause intr p c = Inr h" "p \<le> h" "h \<noteq> HMODE"
proof -
  have "\<exists>h. trap_mode_select cause intr p c = Inr h \<and> p \<le> h \<and> h \<noteq> HMODE"
    using assms by (cases p) (auto simp: trap_mode_select_eq Let_def plevel_le_iff)
  with that show thesis by blast
qed

lemma trap_mode_select_Inr:
  "trap_mode_select cause intr p c = Inr h \<Longrightarrow> p \<le> h \<and> h \<noteq> HMODE \<and> p \<noteq> HMODE"
  by (cases p) (auto simp: trap_mode_select_eq Let_def plevel_le_iff split: if_splits)

section \<open>Entering a handler\<close>

text \<open>
  What a trap to mode \<open>h\<close> does: stack the interrupt enable and the privilege level, mask
  interrupts, record cause and return address, switch to \<open>h\<close>. The supervisor entry also
  overwrites \<^verbatim>\<open>mpp\<close>, which the privileged architecture leaves alone.
\<close>

definition trap_enter :: "plevel_t \<Rightarrow> u8 \<Rightarrow> u64 \<Rightarrow> u64 \<Rightarrow> emu \<Rightarrow> emu" where
  "trap_enter h i code epc s =
     (let m = mstatus (csrs s) in
      if h = SMODE then
        s\<lparr>cp := SMODE, csrs := (csrs s)\<lparr>
          mstatus := m\<lparr>ms_mpp := plevel_code (cp s), ms_spp := plevel_code (cp s),
                       ms_spie := ms_sie m, ms_sie := 0\<rparr>,
          scause := \<lparr>ca_interrupt = i, ca_ecode = code\<rparr>, sepc := epc\<rparr>\<rparr>
      else
        s\<lparr>cp := MMODE, csrs := (csrs s)\<lparr>
          mstatus := m\<lparr>ms_mpp := plevel_code (cp s), ms_mpie := ms_mie m, ms_mie := 0\<rparr>,
          mcause := \<lparr>ca_interrupt = i, ca_ecode = code\<rparr>, mepc := epc\<rparr>\<rparr>)"

definition handler_tvec :: "plevel_t \<Rightarrow> csr_t \<Rightarrow> tvec_t" where
  "handler_tvec h c = (if h = SMODE then stvec c else mtvec c)"

definition int_enabled :: "plevel_t \<Rightarrow> csr_t \<Rightarrow> bool" where
  "int_enabled h c \<longleftrightarrow>
     (if h = UMODE then ms_uie (mstatus c) = 1 else if h = SMODE then ms_sie (mstatus c) = 1
      else ms_mie (mstatus c) = 1)"

definition ecode_for :: "plevel_t \<Rightarrow> u64 \<Rightarrow> u64 \<Rightarrow> u64 \<Rightarrow> u64" where
  "ecode_for p m s u = (case p of UMODE \<Rightarrow> u | SMODE \<Rightarrow> s | MMODE \<Rightarrow> m | HMODE \<Rightarrow> 0)"

lemma excep_function_eq:
  "excep_function pc m se u p s =
     andThen (trap_mode_select (ecode_for p m se u) False p (csrs s)) (\<lambda>h.
       if h = UMODE then Inl (Exit 4)
       else Inr (tv_base (handler_tvec h (csrs s)), trap_enter h 0 (ecode_for p m se u) (pc - 4) s))"
  unfolding excep_function_def
  by (cases p)
    (auto simp: ecode_for_def trap_mode_select_eq Let_def trap_enter_def handler_tvec_def)

definition interrupt_entry :: "u64 \<Rightarrow> u64 \<Rightarrow> plevel_t \<Rightarrow> plevel_t \<Rightarrow> emu \<Rightarrow> (u64 \<times> emu) result" where
  "interrupt_entry pc code h p s =
     (let t = handler_tvec h (csrs s) in
      if \<not> int_enabled h (csrs s) then Inr (pc, s)
      else if h = UMODE then Inl (Exit 1)
      else if tv_mode t = 1 then Inl (Exit (if h = SMODE then 2 else 3))
      else if tv_mode t = 0 \<and> p = MMODE then Inl (Exit 5)
      else Inr (if tv_mode t = 0 then tv_base t else 0, trap_enter h 1 code pc s))"

lemma interrupt_function_eq:
  "interrupt_function pc code p s =
     andThen (trap_mode_select code True p (csrs s)) (\<lambda>h. interrupt_entry pc code h p s)"
  unfolding interrupt_function_def interrupt_entry_def
  by (cases p)
    (auto simp: trap_mode_select_eq Let_def trap_enter_def handler_tvec_def int_enabled_def)

lemmas trap_eqs = excep_function_eq interrupt_function_eq

lemma trap_enter_ok:
  assumes "csr_ok (csrs s)" "\<not> bit code 63" "i \<le> 1" "cp s \<le> h" "h \<noteq> HMODE" "cp s \<noteq> HMODE"
  shows "csr_ok (csrs (trap_enter h i code epc s))"
  using assms
  by (cases h; cases "cp s")
    (simp_all add: trap_enter_def csr_ok_def mstatus_ok_def cause_ok_def Let_def
      less_eq_plevel_t_def word_le_nat_alt)

lemma trap_enter_cp: "h \<noteq> UMODE \<Longrightarrow> h \<noteq> HMODE \<Longrightarrow> cp (trap_enter h i code epc s) = h"
  by (cases h) (simp_all add: trap_enter_def Let_def)

lemma trap_enter_frame:
  "trap_enter h i code epc s = s\<lparr>cp := cp (trap_enter h i code epc s),
     csrs := csrs (trap_enter h i code epc s)\<rparr>"
  by (simp add: trap_enter_def Let_def)

lemma excep_function_Inr:
  assumes "excep_function pc m se u p s = Inr (pc', s')"
  obtains h where "trap_mode_select (ecode_for p m se u) False p (csrs s) = Inr h"
    "p \<le> h" "h \<noteq> HMODE" "h \<noteq> UMODE" "p \<noteq> HMODE"
    "pc' = tv_base (handler_tvec h (csrs s))"
    "s' = trap_enter h 0 (ecode_for p m se u) (pc - 4) s"
  using assms
  by (auto simp: excep_function_eq andThen_Inr_iff dest: trap_mode_select_Inr split: if_splits)

lemma interrupt_function_Inr:
  assumes "interrupt_function pc code p s = Inr (pc', s')"
  obtains (masked) "pc' = pc" "s' = s" "p \<noteq> HMODE"
  | (taken) h where "trap_mode_select code True p (csrs s) = Inr h"
    "p \<le> h" "h \<noteq> HMODE" "h \<noteq> UMODE" "p \<noteq> HMODE" "int_enabled h (csrs s)"
    "s' = trap_enter h 1 code pc s"
  using assms
  by (auto simp: interrupt_function_eq interrupt_entry_def Let_def andThen_Inr_iff
      dest: trap_mode_select_Inr split: if_splits)

lemma ecode_for_bit: "\<not> bit m 63 \<Longrightarrow> \<not> bit se 63 \<Longrightarrow> \<not> bit u 63 \<Longrightarrow> \<not> bit (ecode_for p m se u) 63"
  by (cases p) (simp_all add: ecode_for_def)

lemma excep_function_frame:
  assumes "excep_function pc m se u p s = Inr (pc', s')"
  shows "s' = s\<lparr>cp := cp s', csrs := csrs s'\<rparr>"
  using assms by (cases rule: excep_function_Inr) (metis trap_enter_frame)

lemma interrupt_function_frame:
  assumes "interrupt_function pc code p s = Inr (pc', s')"
  shows "s' = s\<lparr>cp := cp s', csrs := csrs s'\<rparr>"
  using assms by (cases rule: interrupt_function_Inr) (simp, metis trap_enter_frame)

section \<open>Invariants of the CSR file\<close>

text \<open>
  A property \<open>P\<close> of the CSR file (and of \<^verbatim>\<open>cycle_count\<close>) that every elementary change keeps: a CSR
  write, a trap entry, the trap-value registers, the interrupt lines, the return instructions and
  \<^verbatim>\<open>mstatus.sd\<close>. Everything the main loop does to the CSR file is made of these, so that the
  theories that follow prove once that their operations keep \<open>P\<close>.
\<close>

locale csr_invariant =
  fixes P :: "u64 \<Rightarrow> csr_t \<Rightarrow> bool"
  assumes inv_write: "P n (csrs s) \<Longrightarrow> P n (csrs (snd (csr_write a v s)))"
    and inv_trap: "P n (csrs s) \<Longrightarrow> \<not> bit code 63 \<Longrightarrow> i \<le> 1 \<Longrightarrow> cp s \<le> h \<Longrightarrow> h \<noteq> HMODE \<Longrightarrow>
      cp s \<noteq> HMODE \<Longrightarrow> P n (csrs (trap_enter h i code epc s))"
    and inv_tval: "P n (mtval_update g c) = P n c" "P n (stval_update g c) = P n c"
      "P n (utval_update g c) = P n c"
    and inv_irq: "P n c \<Longrightarrow> b \<le> 1 \<Longrightarrow> P n (mip_update (ip_SEIP_update (\<lambda>_. b)) c)"
      "P n c \<Longrightarrow> b \<le> 1 \<Longrightarrow> P n (mip_update (ip_STIP_update (\<lambda>_. b)) c)"
    and inv_ret: "P n c \<Longrightarrow> P n (mstatus_update (\<lambda>m. m\<lparr>ms_mie := 1, ms_mpp := 0, ms_mpie := 0\<rparr>) c)"
      "P n c \<Longrightarrow> P n (mstatus_update (\<lambda>m. m\<lparr>ms_spp := 0, ms_sie := ms_spie m, ms_spie := 1\<rparr>) c)"
    and inv_sd: "P n c \<Longrightarrow>
      P n (mstatus_update (\<lambda>m. m\<lparr>ms_sd := if ms_fs m = 3 then 1 else 0\<rparr>) c)"
begin

lemma excep:
  assumes "excep_function pc m se u (cp s) s = Inr (pc', s')" "P n (csrs s)"
    and "\<not> bit m 63" "\<not> bit se 63" "\<not> bit u 63"
  shows "P n (csrs s')"
  using assms(1)
  by (cases rule: excep_function_Inr)
    (simp add: inv_trap assms(2) ecode_for_bit [OF assms(3-5)])

lemma interrupt:
  assumes "interrupt_function pc code (cp s) s = Inr (pc', s')" "P n (csrs s)" "\<not> bit code 63"
  shows "P n (csrs s')"
  using assms(1)
  by (cases rule: interrupt_function_Inr) (simp_all add: inv_trap assms)

lemma devices:
  assumes "P n (csrs s)"
  shows "P n (csrs (clint_write off v s))" "P n (csrs (snd (plic_read off s)))"
    "P n (csrs (plic_write off v s))" "P n (csrs (plic_set_irq_emu irq st s))"
  using assms
  by (simp_all add: clint_write_def plic_read_def plic_write_def plic_set_irq Let_def inv_irq)

end

text \<open>The two invariants: every struct is well-formed, and \<^verbatim>\<open>cycle\<close> mirrors \<^verbatim>\<open>cycle_count\<close>.\<close>

interpretation wf_csrs: csr_invariant "\<lambda>_. csr_ok"
proof unfold_locales
  fix n :: u64 and s a v
  show "csr_ok (csrs s) \<Longrightarrow> csr_ok (csrs (snd (csr_write a v s)))" by (rule csr_write_ok)
qed (simp_all add: trap_enter_ok, simp_all add: csr_ok_def mip_ok_SEIP mip_ok_STIP mstatus_ok_def)

lemma csr_write_cycle: "cycle (csrs (snd (csr_write a v s))) = cycle (csrs s)"
proof (cases "a \<in> set csr_implemented")
  case True
  then show ?thesis by (elim csr_implemented_cases) (simp_all add: csr_write_at)
qed (simp add: csr_write_other)

interpretation cycle_csr: csr_invariant "\<lambda>n c. cycle c = n"
  by unfold_locales (simp_all add: csr_write_cycle trap_enter_def Let_def)

section \<open>Properties\<close>

text \<open>
  C10: with \<^verbatim>\<open>sedeleg\<close> zero and outside \<^verbatim>\<open>HMODE\<close>, \<^verbatim>\<open>excep_function\<close> returns, and what it does is to
  enter a handler at a level not below the current one: the address of the trap vector, the
  faulting address \<^verbatim>\<open>PC - 4\<close> and the cause of the current level recorded, the interrupt enable
  stacked and cleared. Memory and registers stay as they were.
\<close>

theorem exception_delivery:
  assumes "cp s \<noteq> HMODE" "sedeleg (csrs s) = 0"
  shows "\<exists>h. h \<in> {SMODE, MMODE} \<and> cp s \<le> h \<and>
    excep_function pc m se u (cp s) s =
      Inr (tv_base (handler_tvec h (csrs s)), trap_enter h 0 (ecode_for (cp s) m se u) (pc - 4) s) \<and>
    cp (trap_enter h 0 (ecode_for (cp s) m se u) (pc - 4) s) = h"
proof -
  obtain h where h: "trap_mode_select (ecode_for (cp s) m se u) False (cp s) (csrs s) = Inr h"
      "cp s \<le> h" "h \<noteq> HMODE"
    using assms(1) by (rule trap_mode_select_total)
  have "h \<noteq> UMODE"
    using h(1) assms(2)
    by (auto simp: trap_mode_select_eq Let_def split: if_splits plevel_t.splits)
  with h(3) have "h = SMODE \<or> h = MMODE" by (cases h) auto
  with h show ?thesis
    by (intro exI [of _ h]) (auto simp: excep_function_eq trap_enter_cp)
qed

theorem exception_delivery_witness:
  "\<exists>h. h \<in> {SMODE, MMODE} \<and> cp (emu_init (\<lambda>_. 0) 0) \<le> h \<and>
    excep_function 4 11 9 8 (cp (emu_init (\<lambda>_. 0) 0)) (emu_init (\<lambda>_. 0) 0) =
      Inr (tv_base (handler_tvec h (csrs (emu_init (\<lambda>_. 0) 0))),
        trap_enter h 0 (ecode_for (cp (emu_init (\<lambda>_. 0) 0)) 11 9 8) (4 - 4) (emu_init (\<lambda>_. 0) 0)) \<and>
    cp (trap_enter h 0 (ecode_for (cp (emu_init (\<lambda>_. 0) 0)) 11 9 8) (4 - 4) (emu_init (\<lambda>_. 0) 0)) = h"
  by (rule exception_delivery) (simp_all add: emu_init_def csr_init_def)

text \<open>
  C11: in supervisor or user mode, with direct trap vectors and \<^verbatim>\<open>sideleg\<close> zero, \<^verbatim>\<open>interrupt_function\<close>
  enters the handler of the level \<^verbatim>\<open>mideleg\<close> selects when that level has interrupts enabled, and
  changes nothing otherwise.
\<close>

theorem interrupt_delivery:
  assumes "cp s = SMODE \<or> cp s = UMODE" "sideleg (csrs s) = 0"
    and "tv_mode (stvec (csrs s)) = 0" "tv_mode (mtvec (csrs s)) = 0"
  shows "interrupt_function pc code (cp s) s =
     (let h = if bit (mideleg (csrs s)) (unat code) then SMODE else MMODE in
      Inr (if int_enabled h (csrs s)
           then (tv_base (handler_tvec h (csrs s)), trap_enter h 1 code pc s) else (pc, s)))"
  using assms
  by (auto simp: interrupt_function_eq interrupt_entry_def trap_mode_select_eq Let_def
      handler_tvec_def)

theorem interrupt_delivery_witness:
  "interrupt_function 0x80000000 5 UMODE ((emu_init (\<lambda>_. 0) 0)\<lparr>cp := UMODE\<rparr>) =
     Inr (0, trap_enter MMODE 1 5 0x80000000 ((emu_init (\<lambda>_. 0) 0)\<lparr>cp := UMODE\<rparr>))"
proof -
  let ?s = "(emu_init (\<lambda>_. 0) 0)\<lparr>cp := UMODE\<rparr>"
  have "cp ?s = SMODE \<or> cp ?s = UMODE" "sideleg (csrs ?s) = 0"
    "tv_mode (stvec (csrs ?s)) = 0" "tv_mode (mtvec (csrs ?s)) = 0"
    by (simp_all add: emu_init_def csr_init_def tvec_init_def)
  from interrupt_delivery [OF this, where pc = "0x80000000" and code = "5"] show ?thesis
    by (simp add: emu_init_def csr_init_def tvec_init_def mstatus_init_def int_enabled_def
        handler_tvec_def)
qed

end
