(* ===== verification/MMU.thy ===== *)
theory MMU
  imports Machine
begin

text \<open>
  Address translation, from \<^verbatim>\<open>csr_file.h\<close>: the Sv39 structs and \<^verbatim>\<open>translate\<close>. The three levels
  the code unrolls are shown equal to one recursive walk over page-table entries, from which
  the bounds and the offset preservation that loads, stores and atomics rely on follow.
\<close>

section \<open>The structs\<close>

datatype ttype_t = INST | LOAD | STOR

record sv39va_t =
  va_page_offset :: u16
  va_VPN0 :: u16
  va_VPN1 :: u16
  va_VPN2 :: u16

definition sv39va_write_reg :: "u64 \<Rightarrow> sv39va_t" where
  "sv39va_write_reg val = \<lparr>
     va_page_offset = ucast (val AND 0xFFF),
     va_VPN0 = ucast (drop_bit 12 val AND 0x1FF),
     va_VPN1 = ucast (drop_bit 21 val AND 0x1FF),
     va_VPN2 = ucast (drop_bit 30 val AND 0x1FF)\<rparr>"

record sv39pa_t =
  pa_page_offset :: u16
  pa_PPN0 :: u16
  pa_PPN1 :: u16
  pa_PPN2 :: u32

text \<open>
  \<^verbatim>\<open>PPN2\<close> is a \<^verbatim>\<open>uint32_t\<close>, so the sum is computed in 32 bits and only then widened.
\<close>

definition sv39pa_read_reg :: "sv39pa_t \<Rightarrow> u64" where
  "sv39pa_read_reg p = ucast (
     push_bit 30 (pa_PPN2 p AND 0x3FFFFFF) + push_bit 21 (ucast (pa_PPN1 p) AND 0x1FF) +
     push_bit 12 (ucast (pa_PPN0 p) AND 0x1FF) + (ucast (pa_page_offset p) AND 0xFFF) :: u32)"

record sv39pte_t =
  pte_D :: u8
  pte_A :: u8
  pte_G :: u8
  pte_U :: u8
  pte_X :: u8
  pte_W :: u8
  pte_R :: u8
  pte_V :: u8
  pte_RSW :: u8
  pte_PPN0 :: u16
  pte_PPN1 :: u16
  pte_PPN2 :: u32
  pte_PPN :: u64

text \<open>\<^verbatim>\<open>PPN\<close> is computed in 32 bits as well.\<close>

definition sv39pte_write_reg :: "u64 \<Rightarrow> sv39pte_t" where
  "sv39pte_write_reg val =
     (let PPN0 = ucast (drop_bit 10 val AND 0x1FF);
          PPN1 = ucast (drop_bit 19 val AND 0x1FF);
          PPN2 = ucast (drop_bit 28 val AND 0x3FFFFFF)
      in \<lparr>
        pte_D = ucast (drop_bit 7 val AND 1), pte_A = ucast (drop_bit 6 val AND 1),
        pte_G = ucast (drop_bit 5 val AND 1), pte_U = ucast (drop_bit 4 val AND 1),
        pte_X = ucast (drop_bit 3 val AND 1), pte_W = ucast (drop_bit 2 val AND 1),
        pte_R = ucast (drop_bit 1 val AND 1), pte_V = ucast (val AND 1),
        pte_RSW = ucast (drop_bit 8 val AND 3),
        pte_PPN0 = PPN0, pte_PPN1 = PPN1, pte_PPN2 = PPN2,
        pte_PPN = ucast (push_bit 18 PPN2 + push_bit 9 (ucast PPN1) + ucast PPN0 :: u32)\<rparr>)"

section \<open>translate\<close>

text \<open>
  An entry address below \<^verbatim>\<open>DRAM_BASE\<close> only prints a warning: the address is then used as it is.
\<close>

definition pte_index :: "u64 \<Rightarrow> u64" where
  "pte_index pte_addr = (if pte_addr \<ge> DRAM_BASE then pte_addr - DRAM_BASE else pte_addr) div 8"

definition pte_invalid :: "sv39pte_t \<Rightarrow> bool" where
  "pte_invalid pte \<longleftrightarrow> pte_V pte = 0 \<or> (pte_R pte = 0 \<and> pte_W pte = 1)"

definition pte_leaf :: "sv39pte_t \<Rightarrow> bool" where
  "pte_leaf pte \<longleftrightarrow> pte_R pte = 1 \<or> pte_X pte = 1"

definition access_check :: "ttype_t \<Rightarrow> sv39pte_t \<Rightarrow> sv39pa_t \<Rightarrow> u64" where
  "access_check translation_type pte_final phy_addr =
     (if translation_type = STOR \<and> (pte_A pte_final = 0 \<or> pte_D pte_final = 0) then -1
      else if (translation_type = INST \<or> translation_type = LOAD) \<and> pte_A pte_final = 0 then -1
      else if translation_type = STOR \<and> pte_W pte_final = 0 then -1
      else sv39pa_read_reg phy_addr)"

definition translate :: "u64 \<Rightarrow> ttype_t \<Rightarrow> plevel_t \<Rightarrow> emu \<Rightarrow> u64 result" where
  "translate virtual_addr translation_type current_privilage s =
     (let m = mstatus (csrs s) in
      if sa_MODE (satp (csrs s)) = 0 then Inr virtual_addr
      else if sa_MODE (satp (csrs s)) = 8 then
        (if current_privilage = MMODE \<and> ms_mprv m = 0 then Inr virtual_addr
         else if current_privilage = MMODE \<and> ms_mprv m = 1 \<and> translation_type = INST
         then Inr virtual_addr
         else if ms_mprv m = 1 \<and> ms_mpp m = 3 then Inr virtual_addr
         else
         (let vir_addr = sv39va_write_reg virtual_addr;
              a = sa_PPN (satp (csrs s)) * 4096;
              pte_addr = a + ucast (va_VPN2 vir_addr) * 8
          in andThen (mem_at (memory s) (pte_index pte_addr)) (\<lambda>w.
          let pte2 = sv39pte_write_reg w in
          if pte_invalid pte2 then Inr (-1)
          else if pte_leaf pte2 then
            Inr (access_check translation_type pte2
              \<lparr>pa_page_offset = va_page_offset vir_addr, pa_PPN0 = va_VPN0 vir_addr,
               pa_PPN1 = va_VPN1 vir_addr, pa_PPN2 = pte_PPN2 pte2\<rparr>)
          else
          (let a = pte_PPN pte2 * 4096; pte_addr = a + ucast (va_VPN1 vir_addr) * 8
           in andThen (mem_at (memory s) (pte_index pte_addr)) (\<lambda>w.
           let pte1 = sv39pte_write_reg w in
           if pte_invalid pte1 then Inr (-1)
           else if pte_leaf pte1 then
             Inr (access_check translation_type pte1
               \<lparr>pa_page_offset = va_page_offset vir_addr, pa_PPN0 = va_VPN0 vir_addr,
                pa_PPN1 = pte_PPN1 pte1, pa_PPN2 = pte_PPN2 pte1\<rparr>)
           else
           (let a = pte_PPN pte1 * 4096; pte_addr = a + ucast (va_VPN0 vir_addr) * 8
            in andThen (mem_at (memory s) (pte_index pte_addr)) (\<lambda>w.
            let pte0 = sv39pte_write_reg w in
            if pte_invalid pte0 then Inr (-1)
            else if pte_leaf pte0 then
              Inr (access_check translation_type pte0
                \<lparr>pa_page_offset = va_page_offset vir_addr, pa_PPN0 = pte_PPN0 pte0,
                 pa_PPN1 = pte_PPN1 pte0, pa_PPN2 = pte_PPN2 pte0\<rparr>)
            else Inr (-1))))))))
      else if sa_MODE (satp (csrs s)) = 9 then Inl (Exit 0)
      else Inr (-1))"

section \<open>The walk as a recursion over levels\<close>

text \<open>
  A page-table entry is read as bits: \<open>V\<close> is bit 0, \<open>R\<close> 1, \<open>W\<close> 2, \<open>X\<close> 3, \<open>A\<close> 6, \<open>D\<close> 7, and the
  page number starts at bit 10. The emulator keeps 32 bits of it, and 32 bits of the address.
\<close>

definition entry_ok :: "u64 \<Rightarrow> bool" where
  "entry_ok w \<longleftrightarrow> bit w 0 \<and> (bit w 1 \<or> \<not> bit w 2)"

definition entry_leaf :: "u64 \<Rightarrow> bool" where "entry_leaf w \<longleftrightarrow> bit w 1 \<or> bit w 3"

definition entry_table :: "u64 \<Rightarrow> u64" where "entry_table w = push_bit 12 (take_bit 32 (drop_bit 10 w))"

definition vpn :: "nat \<Rightarrow> u64 \<Rightarrow> u64" where "vpn l va = take_bit 9 (drop_bit (12 + 9 * l) va)"

definition leaf_address :: "nat \<Rightarrow> u64 \<Rightarrow> u64 \<Rightarrow> u64" where
  "leaf_address l w va =
     take_bit 32 (put_field 0 (12 + 9 * l) (push_bit 12 (take_bit 44 (drop_bit 10 w))) va)"

definition entry_allows :: "ttype_t \<Rightarrow> u64 \<Rightarrow> bool" where
  "entry_allows t w \<longleftrightarrow> bit w 6 \<and> (t = STOR \<longrightarrow> bit w 7 \<and> bit w 2)"

fun sv39_walk :: "memory \<Rightarrow> nat \<Rightarrow> u64 \<Rightarrow> u64 \<Rightarrow> (nat \<times> u64) option result" where
  "sv39_walk m l table va =
     andThen (mem_at m (pte_index (table + 8 * vpn l va))) (\<lambda>w.
       if \<not> entry_ok w then Inr None
       else if entry_leaf w then Inr (Some (l, w))
       else (case l of 0 \<Rightarrow> Inr None | Suc l' \<Rightarrow> sv39_walk m l' (entry_table w) va))"

declare sv39_walk.simps [simp del]

definition sv39_lookup :: "ttype_t \<Rightarrow> u64 \<Rightarrow> emu \<Rightarrow> u64 result" where
  "sv39_lookup t va s =
     andThen (sv39_walk (memory s) 2 (push_bit 12 (sa_PPN (satp (csrs s)))) va) (\<lambda>r.
     Inr (case r of None \<Rightarrow> -1
          | Some (l, w) \<Rightarrow> if entry_allows t w then leaf_address l w va else -1))"

definition untranslated :: "ttype_t \<Rightarrow> plevel_t \<Rightarrow> mstatus_t \<Rightarrow> bool" where
  "untranslated t p m \<longleftrightarrow>
     p = MMODE \<and> ms_mprv m = 0 \<or> p = MMODE \<and> ms_mprv m = 1 \<and> t = INST \<or>
     ms_mprv m = 1 \<and> ms_mpp m = 3"

section \<open>The structs as bit fields\<close>

lemma and_low_ones:
  "w AND 0x1FF = take_bit 9 w" "w AND 0xFFF = take_bit 12 w" "w AND 0x3FFFFFF = take_bit 26 w"
  "v AND 0x1FF = take_bit 9 v" "v AND 0xFFF = take_bit 12 v" "v AND 0x3FFFFFF = take_bit 26 v"
  for w :: u64 and v :: u32
  by (simp_all add: take_bit_eq_mask mask_eq_exp_minus_1)

lemma bit_and_1: "ucast (drop_bit n w AND 1) = (of_bool (bit w n) :: u8)" for w :: u64
  by (rule bit_word_eqI) (auto simp: bit_simps)

lemma bit_0_and_1: "ucast (w AND 1) = (of_bool (bit w 0) :: u8)" for w :: u64
  using bit_and_1 [of 0 w] by simp

lemma pte_flags:
  "pte_V (sv39pte_write_reg w) = of_bool (bit w 0)"
  "pte_R (sv39pte_write_reg w) = of_bool (bit w 1)"
  "pte_W (sv39pte_write_reg w) = of_bool (bit w 2)"
  "pte_X (sv39pte_write_reg w) = of_bool (bit w 3)"
  "pte_A (sv39pte_write_reg w) = of_bool (bit w 6)"
  "pte_D (sv39pte_write_reg w) = of_bool (bit w 7)"
  by (simp_all add: sv39pte_write_reg_def Let_def bit_and_1 bit_0_and_1 bit_drop_bit_eq)

lemma pte_invalid_eq: "pte_invalid (sv39pte_write_reg w) \<longleftrightarrow> \<not> entry_ok w"
  by (auto simp: pte_invalid_def entry_ok_def pte_flags)

lemma pte_leaf_eq: "pte_leaf (sv39pte_write_reg w) \<longleftrightarrow> entry_leaf w"
  by (simp add: pte_leaf_def entry_leaf_def pte_flags)

lemma ppn_part: "ucast (ucast (take_bit 9 x) :: u16) = (ucast (take_bit 9 x) :: u32)" for x :: u64
  by (rule bit_word_eqI) (auto simp: bit_simps)

lemma ppn_sum:
  fixes w :: u64
  defines "p2 \<equiv> ucast (take_bit 26 (drop_bit 28 w)) :: u32"
    and "p1 \<equiv> ucast (take_bit 9 (drop_bit 19 w)) :: u32"
    and "p0 \<equiv> ucast (take_bit 9 (drop_bit 10 w)) :: u32"
  shows "push_bit 18 p2 + push_bit 9 p1 + p0 = ucast (drop_bit 10 w)"
proof -
  note defs = p0_def p1_def p2_def
  have "push_bit 18 p2 + push_bit 9 p1 + p0 = push_bit 18 p2 OR push_bit 9 p1 OR p0"
    by (rule plus_eq_or3I) (rule bit_word_eqI, auto simp: defs bit_simps)+
  also have "\<dots> = ucast (drop_bit 10 w)"
  proof (rule bit_word_eqI)
    fix n assume n: "n < LENGTH(32)"
    consider "n < 9" | "9 \<le> n" "n < 18" | "18 \<le> n" by linarith
    then show "bit (push_bit 18 p2 OR push_bit 9 p1 OR p0) n = bit (ucast (drop_bit 10 w) :: u32) n"
      using n by cases (auto simp: defs bit_simps)
  qed
  finally show ?thesis .
qed

lemma pte_table_eq: "pte_PPN (sv39pte_write_reg w) * 4096 = entry_table w"
proof -
  have "pte_PPN (sv39pte_write_reg w) = ucast (ucast (drop_bit 10 w) :: u32)"
    by (simp add: sv39pte_write_reg_def Let_def and_low_ones ppn_part ppn_sum)
  moreover have "ucast (ucast v :: u32) * (4096 :: u64) = push_bit 12 (take_bit 32 v)" for v :: u64
    by (simp add: push_bit_eq_mult take_bit_eq_mask unsigned_ucast_eq)
  ultimately show ?thesis by (simp add: entry_table_def)
qed

lemma vpn_eq:
  "ucast (va_VPN2 (sv39va_write_reg va)) = vpn 2 va"
  "ucast (va_VPN1 (sv39va_write_reg va)) = vpn 1 va"
  "ucast (va_VPN0 (sv39va_write_reg va)) = vpn 0 va"
  unfolding sv39va_write_reg_def vpn_def and_low_ones sv39va_t.simps
  by (rule bit_word_eqI, auto simp: bit_simps)+

text \<open>The four parts of a 39-bit address, as ranges of bit positions.\<close>

lemma address_ranges:
  obtains "n < 12" | "12 \<le> n" "n < 21" | "21 \<le> n" "n < 30" | "30 \<le> n" "n < 32" | "32 \<le> (n::nat)"
  by linarith

lemma pa_value:
  fixes o' a b c :: u64
  shows "sv39pa_read_reg \<lparr>pa_page_offset = ucast (take_bit 12 o'), pa_PPN0 = ucast (take_bit 9 a),
       pa_PPN1 = ucast (take_bit 9 b), pa_PPN2 = ucast (take_bit 26 c)\<rparr> =
     push_bit 30 (take_bit 2 c) OR push_bit 21 (take_bit 9 b) OR push_bit 12 (take_bit 9 a) OR
     take_bit 12 o'" (is "_ = ?rhs")
proof -
  define p3 :: u32 where "p3 = push_bit 30 (take_bit 26 (ucast (take_bit 26 c)))"
  define p2 :: u32 where "p2 = push_bit 21 (take_bit 9 (ucast (ucast (take_bit 9 b) :: u16)))"
  define p1 :: u32 where "p1 = push_bit 12 (take_bit 9 (ucast (ucast (take_bit 9 a) :: u16)))"
  define p0 :: u32 where "p0 = take_bit 12 (ucast (ucast (take_bit 12 o') :: u16))"
  note defs = p0_def p1_def p2_def p3_def
  have "p3 + p2 + p1 + p0 = p3 OR p2 OR p1 OR p0"
    by (rule plus_eq_or4I) (simp_all add: defs fields_disjoint)
  moreover have "ucast (p3 OR p2 OR p1 OR p0) = ?rhs"
  proof (rule bit_word_eqI)
    fix n assume "n < LENGTH(64)"
    then show "bit (ucast (p3 OR p2 OR p1 OR p0) :: u64) n = bit ?rhs n"
      by (cases n rule: address_ranges) (simp_all add: defs bit_simps less_diff_conv2)
  qed
  ultimately show ?thesis
    by (simp add: sv39pa_read_reg_def and_low_ones defs [symmetric])
qed

lemma leaf_address_bits:
  "leaf_address 2 w va = push_bit 30 (take_bit 2 (drop_bit 28 w)) OR take_bit 30 va" (is ?two)
  "leaf_address 1 w va = push_bit 21 (take_bit 11 (drop_bit 19 w)) OR take_bit 21 va" (is ?one)
  "leaf_address 0 w va = push_bit 12 (take_bit 20 (drop_bit 10 w)) OR take_bit 12 va" (is ?zero)
proof -
  have shift: "bit w (28 + (n - 30)) = bit w (10 + (n - 12))" if "30 \<le> n" for n
    using that by simp
  have shift': "bit w (19 + (n - 21)) = bit w (10 + (n - 12))" if "21 \<le> n" for n
    using that by simp
  show ?two ?one ?zero unfolding leaf_address_def
    by (rule bit_word_eqI, rule_tac n = n in address_ranges, simp_all add: bit_simps shift shift' less_diff_conv2)+
qed

lemma va_pte_fields:
  "va_page_offset (sv39va_write_reg va) = ucast (take_bit 12 va)"
  "va_VPN0 (sv39va_write_reg va) = ucast (take_bit 9 (drop_bit 12 va))"
  "va_VPN1 (sv39va_write_reg va) = ucast (take_bit 9 (drop_bit 21 va))"
  "pte_PPN0 (sv39pte_write_reg w) = ucast (take_bit 9 (drop_bit 10 w))"
  "pte_PPN1 (sv39pte_write_reg w) = ucast (take_bit 9 (drop_bit 19 w))"
  "pte_PPN2 (sv39pte_write_reg w) = ucast (take_bit 26 (drop_bit 28 w))"
  by (simp_all add: sv39va_write_reg_def sv39pte_write_reg_def Let_def and_low_ones)

lemma join_fields:
  fixes x y :: u64
  shows "push_bit 21 (take_bit 9 (drop_bit 21 y)) OR push_bit 12 (take_bit 9 (drop_bit 12 y)) OR
      take_bit 12 y = take_bit 30 y" (is ?va)
    and "push_bit 12 (take_bit 9 (drop_bit 12 y)) OR take_bit 12 y = take_bit 21 y" (is ?va')
    and "push_bit 30 (take_bit 2 (drop_bit 28 x)) OR push_bit 21 (take_bit 9 (drop_bit 19 x)) OR z =
      push_bit 21 (take_bit 11 (drop_bit 19 x)) OR z" (is "?w OR _ OR z = _")
    and "push_bit 30 (take_bit 2 (drop_bit 28 x)) OR push_bit 21 (take_bit 9 (drop_bit 19 x)) OR
      push_bit 12 (take_bit 9 (drop_bit 10 x)) OR z =
      push_bit 12 (take_bit 20 (drop_bit 10 x)) OR z" (is "?w' = ?z'")
proof -
  have s: "bit x (28 + (n - 30)) = bit x (19 + (n - 21))" "bit x (28 + (n - 30)) = bit x (10 + (n - 12))"
    if "30 \<le> n" for n using that by simp_all
  have s': "bit x (19 + (n - 21)) = bit x (10 + (n - 12))" if "21 \<le> n" for n
    using that by simp
  show ?va ?va'
    by (rule bit_word_eqI, rule_tac n = n in address_ranges,
        simp_all add: bit_simps less_diff_conv2)+
  have "?w OR push_bit 21 (take_bit 9 (drop_bit 19 x)) = push_bit 21 (take_bit 11 (drop_bit 19 x))"
    by (rule bit_word_eqI, rule_tac n = n in address_ranges,
        simp_all add: bit_simps less_diff_conv2 s(1))
  then show "?w OR push_bit 21 (take_bit 9 (drop_bit 19 x)) OR z =
      push_bit 21 (take_bit 11 (drop_bit 19 x)) OR z"
    by (simp add: or.assoc [symmetric])
  have "?w OR push_bit 21 (take_bit 9 (drop_bit 19 x)) OR push_bit 12 (take_bit 9 (drop_bit 10 x)) =
      push_bit 12 (take_bit 20 (drop_bit 10 x))"
    by (rule bit_word_eqI, rule_tac n = n in address_ranges,
        simp_all add: bit_simps less_diff_conv2 s(2) s')
  then show "?w' = ?z'" by (simp add: or.assoc [symmetric])
qed

lemma access_check_leaf:
  "access_check t (sv39pte_write_reg w) p = (if entry_allows t w then sv39pa_read_reg p else -1)"
  by (cases t) (auto simp: access_check_def entry_allows_def pte_flags)

lemma leaf_pa:
  fixes va w :: u64
  defines "v \<equiv> sv39va_write_reg va" and "q \<equiv> sv39pte_write_reg w"
  shows "sv39pa_read_reg \<lparr>pa_page_offset = va_page_offset v, pa_PPN0 = va_VPN0 v,
      pa_PPN1 = va_VPN1 v, pa_PPN2 = pte_PPN2 q\<rparr> = leaf_address 2 w va"
    and "sv39pa_read_reg \<lparr>pa_page_offset = va_page_offset v, pa_PPN0 = va_VPN0 v,
      pa_PPN1 = pte_PPN1 q, pa_PPN2 = pte_PPN2 q\<rparr> = leaf_address 1 w va"
    and "sv39pa_read_reg \<lparr>pa_page_offset = va_page_offset v, pa_PPN0 = pte_PPN0 q,
      pa_PPN1 = pte_PPN1 q, pa_PPN2 = pte_PPN2 q\<rparr> = leaf_address 0 w va"
  unfolding v_def q_def va_pte_fields pa_value leaf_address_bits
  by (simp only: join_fields(1), simp only: join_fields(2,3), simp only: join_fields(4))

lemma sv39_walk_levels:
  "sv39_walk m (Suc l) a va = andThen (mem_at m (pte_index (a + 8 * vpn (Suc l) va))) (\<lambda>w.
     if \<not> entry_ok w then Inr None else if entry_leaf w then Inr (Some (Suc l, w))
     else sv39_walk m l (entry_table w) va)"
  "sv39_walk m 0 a va = andThen (mem_at m (pte_index (a + 8 * vpn 0 va))) (\<lambda>w.
     if \<not> entry_ok w then Inr None else if entry_leaf w then Inr (Some (0, w)) else Inr None)"
  by (simp_all add: sv39_walk.simps [of m 0] sv39_walk.simps [of m "Suc l"] cong: if_cong)

lemma andThen_if:
  "andThen (if b then x else y) f = (if b then andThen x f else andThen y f)"
  by simp

lemma translate_bare: "sa_MODE (satp (csrs s)) = 0 \<Longrightarrow> translate va t p s = Inr va"
  by (simp add: translate_def Let_def)

lemma translate_untranslated:
  "sa_MODE (satp (csrs s)) = 8 \<Longrightarrow> untranslated t p (mstatus (csrs s)) \<Longrightarrow> translate va t p s = Inr va"
  by (auto simp: translate_def Let_def untranslated_def)

lemma translate_sv39:
  assumes "sa_MODE (satp (csrs s)) = 8" "\<not> untranslated t p (mstatus (csrs s))"
  shows "translate va t p s = sv39_lookup t va s"
proof -
  have conds: "(p = MMODE \<and> ms_mprv (mstatus (csrs s)) = 0) = False"
    "(p = MMODE \<and> ms_mprv (mstatus (csrs s)) = 1 \<and> t = INST) = False"
    "(ms_mprv (mstatus (csrs s)) = 1 \<and> ms_mpp (mstatus (csrs s)) = 3) = False"
    "((8 :: u8) = 0) = False" "((8 :: u8) = 8) = True"
    using assms(2) by (auto simp: untranslated_def)
  have root: "sa_PPN (satp (csrs s)) * 4096 = push_bit 12 (sa_PPN (satp (csrs s)))"
    by (simp add: push_bit_eq_mult)
  have eight: "x * 8 = 8 * x" for x :: u64 by simp
  have two: "(2 :: nat) = Suc 1" "(1 :: nat) = Suc 0" by simp_all
  show ?thesis
    unfolding translate_def Let_def sv39_lookup_def
    by (simp only: assms(1) conds root vpn_eq pte_invalid_eq pte_leaf_eq pte_table_eq eight
        access_check_leaf leaf_pa if_False if_True two sv39_walk_levels andThen_assoc andThen_if
        andThen_simps option.case prod.case cong: andThen_cong if_cong)
qed

section \<open>What a translation guarantees\<close>

lemma sv39_walk_Some:
  "sv39_walk m l table va = Inr (Some (l', w)) \<Longrightarrow> l' \<le> l \<and> entry_ok w \<and> entry_leaf w"
proof (induction l arbitrary: table)
  case 0
  then show ?case by (auto simp: sv39_walk_levels andThen_Inr_iff split: if_splits)
next
  case (Suc l)
  then show ?case
    by (auto simp: sv39_walk_levels andThen_Inr_iff le_Suc_eq split: if_splits)
qed

lemma translate_eq:
  "translate va t p s =
     (if sa_MODE (satp (csrs s)) = 0 then Inr va
      else if sa_MODE (satp (csrs s)) = 8 then
        (if untranslated t p (mstatus (csrs s)) then Inr va else sv39_lookup t va s)
      else if sa_MODE (satp (csrs s)) = 9 then Inl (Exit 0) else Inr (-1))"
proof (cases "sa_MODE (satp (csrs s)) = 8")
  case True
  then show ?thesis by (simp add: translate_untranslated translate_sv39)
next
  case False
  then show ?thesis by (simp add: translate_def Let_def)
qed

lemma sv39_lookup_Inr:
  assumes "sv39_lookup t va s = Inr pa"
  obtains (fault) "pa = -1"
  | (leaf) l w where "pa = leaf_address l w va" "l \<le> 2" "entry_allows t w" "entry_leaf w" "entry_ok w"
      "sv39_walk (memory s) 2 (push_bit 12 (sa_PPN (satp (csrs s)))) va = Inr (Some (l, w))"
proof -
  from assms obtain r where
    r: "sv39_walk (memory s) 2 (push_bit 12 (sa_PPN (satp (csrs s)))) va = Inr r"
      "pa = (case r of None \<Rightarrow> -1
        | Some (l, w) \<Rightarrow> if entry_allows t w then leaf_address l w va else -1)"
    by (auto simp: sv39_lookup_def andThen_Inr_iff)
  show thesis
  proof (cases r)
    case None
    with r show ?thesis by (intro fault) simp
  next
    case (Some lw)
    obtain l w where lw: "lw = (l, w)" by (cases lw)
    with Some r(1) have "l \<le> 2 \<and> entry_ok w \<and> entry_leaf w" by (auto dest: sv39_walk_Some)
    with r Some lw that show ?thesis by (cases "entry_allows t w") simp_all
  qed
qed

lemma translate_Inr_cases:
  assumes "translate va t p s = Inr pa"
  obtains (identity) "pa = va"
  | (fault) "pa = -1"
  | (leaf) l w where "pa = leaf_address l w va" "l \<le> 2" "entry_allows t w" "entry_leaf w" "entry_ok w"
      "sv39_walk (memory s) 2 (push_bit 12 (sa_PPN (satp (csrs s)))) va = Inr (Some (l, w))"
  using assms unfolding translate_eq
  by (auto split: if_splits elim: sv39_lookup_Inr)

lemma leaf_address_offset: "take_bit 12 (leaf_address l w va) = take_bit 12 va"
  by (rule bit_word_eqI) (auto simp: leaf_address_def bit_simps)

lemma leaf_address_less: "unat (leaf_address l w va) < 2 ^ 32"
proof -
  have "leaf_address l w va = take_bit 32 (leaf_address l w va)"
    by (simp add: leaf_address_def)
  then have "unat (leaf_address l w va) = take_bit 32 (unat (leaf_address l w va))"
    by (metis unsigned_take_bit_eq)
  then show ?thesis by (metis take_bit_nat_less_exp)
qed

lemma translate_offset:
  assumes "translate va t p s = Inr pa" "pa \<noteq> -1"
  shows "take_bit 12 pa = take_bit 12 va"
  using assms by (cases rule: translate_Inr_cases) (simp_all add: leaf_address_offset)

text \<open>Nothing the walk checks depends on the privilege level or on the \<^verbatim>\<open>U\<close> bit of an entry.\<close>

lemma sv39_lookup_fetch_is_load: "sv39_lookup INST va s = sv39_lookup LOAD va s"
proof -
  have eq: "entry_allows INST = entry_allows LOAD" by (simp add: entry_allows_def fun_eq_iff)
  show ?thesis unfolding sv39_lookup_def eq by (rule refl)
qed

lemma sv39_lookup_store:
  assumes "sv39_lookup STOR va s = Inr pa" "pa \<noteq> -1"
  shows "sv39_lookup LOAD va s = Inr pa"
  using assms(1)
proof (cases rule: sv39_lookup_Inr)
  case (leaf l w)
  then show ?thesis by (simp add: sv39_lookup_def entry_allows_def)
qed (use assms(2) in simp)

lemma sv39_walk_Inl: "sv39_walk m l table va = Inl h \<Longrightarrow> h = OutOfRange"
proof (induction l arbitrary: table)
  case 0
  then show ?case by (auto simp: sv39_walk_levels andThen_Inl_iff mem_at_def split: if_splits)
next
  case (Suc l)
  then show ?case by (auto simp: sv39_walk_levels andThen_Inl_iff mem_at_def split: if_splits)
qed

lemma translate_Inl:
  "translate va t p s = Inl h \<Longrightarrow> h = OutOfRange \<or> h = Exit 0 \<and> sa_MODE (satp (csrs s)) = 9"
  by (auto simp: translate_eq sv39_lookup_def andThen_Inl_iff dest: sv39_walk_Inl split: if_splits)

section \<open>Further facts\<close>

text \<open>
  The translation of an address in user mode is the one in supervisor mode, and that of a
  fetch is that of a load: neither the \<^verbatim>\<open>U\<close> nor the \<^verbatim>\<open>X\<close> bit of a leaf restricts an access.
\<close>

theorem translate_ignores_user_mode:
  "translate va t UMODE s = translate va t SMODE s \<and>
   translate va INST UMODE s = translate va LOAD UMODE s"
  by (simp add: translate_eq untranslated_def sv39_lookup_fetch_is_load)

section \<open>Properties\<close>

text \<open>
  C5: for every address, access type, privilege level and state, \<^verbatim>\<open>translate\<close> is the identity in
  bare mode and where machine mode (or \<^verbatim>\<open>MPRV\<close> with \<^verbatim>\<open>MPP\<close> = M) suspends translation, and else the
  recursive three-level walk on the bits of the page-table entries; Sv48 ends the process and any
  other mode is a page fault.
\<close>

theorem translate_is_walk:
  "translate va t p s =
     (if sa_MODE (satp (csrs s)) = 0 then Inr va
      else if sa_MODE (satp (csrs s)) = 8 then
        (if untranslated t p (mstatus (csrs s)) then Inr va else sv39_lookup t va s)
      else if sa_MODE (satp (csrs s)) = 9 then Inl (Exit 0) else Inr (-1))"
  by (rule translate_eq)

end
