(* ===== verification/Load_Store.thy ===== *)
theory Load_Store
  imports Decode ALU Trap MMU
begin

text \<open>
  The cases \<^verbatim>\<open>load\<close> and \<^verbatim>\<open>store\<close> of the main loop: address translation, the page-fault path, RAM,
  the memory-mapped devices and the console FIFO. A case either falls through to the end of the
  loop body or restarts the loop (\<^verbatim>\<open>continue\<close>).
\<close>

section \<open>Environment and control flow\<close>

text \<open>
  What an iteration receives from outside: the wall clock in microseconds, the value \<^verbatim>\<open>getchar()\<close>
  would return, and the value left in the return register when \<^verbatim>\<open>csr_read\<close> ends without a
  \<^verbatim>\<open>return\<close>.
\<close>

record env =
  now :: u64
  getchar_result :: int
  no_return_value :: u64

datatype flow = Fall emu | Continue emu

abbreviation EOF :: int where "EOF \<equiv> - 1"

primrec flow_state :: "flow \<Rightarrow> emu" where
  "flow_state (Fall s) = s"
| "flow_state (Continue s) = s"

text \<open>The \<^verbatim>\<open>switch(cp)\<close> that moves \<^verbatim>\<open>mtval\<close> to the register of the handling mode.\<close>

definition tval_by_mode :: "emu \<Rightarrow> emu" where
  "tval_by_mode s =
     (case cp s of
        MMODE \<Rightarrow> s
      | SMODE \<Rightarrow> set_mtval 0 (set_stval (mtval (csrs s)) s)
      | UMODE \<Rightarrow> set_mtval 0 (set_utval (mtval (csrs s)) s)
      | HMODE \<Rightarrow> s)"

abbreviation CAUSE_LOAD_PAGE_FAULT :: u64 where "CAUSE_LOAD_PAGE_FAULT \<equiv> 0xd"
abbreviation CAUSE_STORE_PAGE_FAULT :: u64 where "CAUSE_STORE_PAGE_FAULT \<equiv> 0xf"

definition load_page_fault :: "u64 \<Rightarrow> emu \<Rightarrow> flow result" where
  "load_page_fault load_addr s =
     (let s = set_mtval load_addr s in
      andThen (excep_function (PC s) CAUSE_LOAD_PAGE_FAULT CAUSE_LOAD_PAGE_FAULT
        CAUSE_LOAD_PAGE_FAULT (cp s) s) (\<lambda>(pc, s).
      Inr (Continue (tval_by_mode (s\<lparr>PC := pc\<rparr>)))))"

definition store_page_fault :: "u64 \<Rightarrow> emu \<Rightarrow> flow result" where
  "store_page_fault store_addr s =
     andThen (excep_function (PC s) CAUSE_STORE_PAGE_FAULT CAUSE_STORE_PAGE_FAULT
       CAUSE_STORE_PAGE_FAULT (cp s) s) (\<lambda>(pc, s).
     Inr (Continue (tval_by_mode (set_mtval store_addr (s\<lparr>PC := pc\<rparr>)))))"

section \<open>load\<close>

text \<open>
  Where the data comes from: the address used for the byte lane, the word, and the new state
  (reading the PLIC claim register has an effect).
\<close>

definition load_source :: "u64 \<Rightarrow> emu \<Rightarrow> (u64 \<times> u64 \<times> emu) result" where
  "load_source load_addr_phy s =
     (if load_addr_phy \<ge> DRAM_BASE then
        (let load_addr_phy = load_addr_phy - DRAM_BASE in
         if load_addr_phy > DRAM_SIZE then Inl (Exit 0)
         else andThen (mem_at (memory s) (load_addr_phy div 8)) (\<lambda>load_data.
           Inr (load_addr_phy, load_data, s)))
      else if load_addr_phy \<ge> CLINT_BASE \<and> load_addr_phy \<le> CLINT_BASE + CLINT_SIZE then
        Inr (load_addr_phy, clint_read (load_addr_phy - CLINT_BASE) s, s)
      else if load_addr_phy \<ge> PLIC_BASE \<and> load_addr_phy \<le> PLIC_BASE + PLIC_SIZE then
        (let (v, s') = plic_read (load_addr_phy - PLIC_BASE) s in
         Inr (load_addr_phy, push_bit (32 * of_bool (load_addr_phy mod 8 \<noteq> 0)) v, s'))
      else Inl (Exit 0))"

text \<open>The \<^verbatim>\<open>switch(func3)\<close>: the value for \<^verbatim>\<open>rd\<close>, or a misaligned-load fault, or nothing.\<close>

definition load_misaligned :: "u64 \<Rightarrow> emu \<Rightarrow> emu" where
  "load_misaligned load_addr s =
     set_mtval load_addr (raise_fault (LD_ADDR_MISSALIG_update (\<lambda>_. True)) s)"

definition load_writeback :: "u64 \<Rightarrow> u64 \<Rightarrow> u64 \<Rightarrow> u64 \<Rightarrow> u64 \<Rightarrow> emu \<Rightarrow> emu" where
  "load_writeback func3 rd load_addr load_addr_phy load_data s =
     (let put = (\<lambda>(ok, wb_data) g.
            if ok then set_reg rd (g wb_data) s else load_misaligned load_addr s)
      in
      if func3 = 0b000 then
        put (load_byte load_addr_phy load_data) (\<lambda>w. sign_extend (w AND 0xFF) 8)
      else if func3 = 0b001 then
        put (load_halfw load_addr_phy load_data) (\<lambda>w. sign_extend (w AND 0xFFFF) 16)
      else if func3 = 0b010 then
        put (load_word load_addr_phy load_data) (\<lambda>w. sign_extend (w AND 0xFFFFFFFF) 32)
      else if func3 = 0b100 then put (load_byte load_addr_phy load_data) (\<lambda>w. w AND 0xFF)
      else if func3 = 0b101 then put (load_halfw load_addr_phy load_data) (\<lambda>w. w AND 0xFFFF)
      else if func3 = 0b110 then put (load_word load_addr_phy load_data) (\<lambda>w. w AND 0xFFFFFFFF)
      else if func3 = 0b011 then
        (if load_addr_phy mod 8 = 0 then set_reg rd load_data s else load_misaligned load_addr s)
      else s)"

definition exec_load :: "env \<Rightarrow> fields \<Rightarrow> emu \<Rightarrow> flow result" where
  "exec_load e f s =
     (let load_addr = reg_file s (f_rs1 f) + sign_extend (f_imm11_0 f) 12 in
      if load_addr \<noteq> FIFO_ADDR_RX \<and> load_addr \<noteq> FIFO_ADDR_TX then
        andThen (translate load_addr LOAD (cp s) s) (\<lambda>load_addr_phy.
        if load_addr_phy = -1 then load_page_fault load_addr s
        else andThen (load_source load_addr_phy s) (\<lambda>(load_addr_phy, load_data, s).
          Inr (Fall (load_writeback (f_func3 f) (f_rd f) load_addr load_addr_phy load_data s))))
      else if load_addr = FIFO_ADDR_RX then
        (let c = getchar_result e in
         if c \<noteq> EOF then Inr (Fall (set_reg (f_rd f) 0 (s\<lparr>fifo_queue := fifo_queue s @ [c]\<rparr>)))
         else Inr (Fall (set_reg (f_rd f) 2 s)))
      else
        (case fifo_queue s of
           [] \<Rightarrow> Inr (Fall (set_reg (f_rd f) (-1) s))
         | c # q \<Rightarrow> Inr (Fall (set_reg (f_rd f) (word_of_int c) (s\<lparr>fifo_queue := q\<rparr>)))))"

section \<open>store\<close>

text \<open>
  The value to write and the new \<^verbatim>\<open>ls_success\<close>. For a \<^verbatim>\<open>func3\<close> no label lists, both keep what they
  had: \<^verbatim>\<open>wb_data\<close> is 0, \<^verbatim>\<open>ls_success\<close> is that of the last store or atomic.
\<close>

definition store_value :: "u64 \<Rightarrow> u64 \<Rightarrow> u64 \<Rightarrow> u64 \<Rightarrow> bool \<Rightarrow> bool \<times> u64" where
  "store_value func3 store_addr_phy store_data b old =
     (if func3 = 0b000 then store_byte store_addr_phy store_data (b AND 0xFF)
      else if func3 = 0b001 then store_halfw store_addr_phy store_data (b AND 0xFFFF)
      else if func3 = 0b010 then store_word store_addr_phy store_data (b AND 0xFFFFFFFF)
      else if func3 = 0b011 then
        (if store_addr_phy mod 8 = 0 then (True, b) else (False, 0))
      else (old, 0))"

definition exec_store :: "fields \<Rightarrow> emu \<Rightarrow> flow result" where
  "exec_store f s =
     (let store_addr = reg_file s (f_rs1 f) + sign_extend (f_imm_s f) 12; b = reg_file s (f_rs2 f) in
      if store_addr \<noteq> FIFO_ADDR_TX then
        andThen (translate store_addr STOR (cp s) s) (\<lambda>store_addr_phy.
        if store_addr_phy = -1 then store_page_fault store_addr s
        else if store_addr_phy \<ge> DRAM_BASE then
          (let store_addr_phy = store_addr_phy - DRAM_BASE in
           if store_addr_phy \<ge> push_bit 28 1 then Inl (Exit 0)
           else andThen (mem_at (memory s) (store_addr_phy div 8)) (\<lambda>store_data.
             let (ok, wb_data) = store_value (f_func3 f) store_addr_phy store_data b (ls_success s);
                 s = s\<lparr>ls_success := ok\<rparr> in
             if \<not> ok then Inr (Fall s)
             else andThen (mem_put (memory s) (store_addr_phy div 8) wb_data) (\<lambda>m.
               Inr (Fall (s\<lparr>memory := m\<rparr>)))))
        else if store_addr_phy \<ge> CLINT_BASE \<and> store_addr_phy \<le> CLINT_BASE + CLINT_SIZE then
          Inr (Fall (clint_write (store_addr_phy - CLINT_BASE) b s))
        else if store_addr_phy \<ge> PLIC_BASE \<and> store_addr_phy \<le> PLIC_BASE + PLIC_SIZE then
          Inr (Fall (plic_write (store_addr_phy - PLIC_BASE) b s))
        else Inl (Exit 0))
      else Inr (Fall (s\<lparr>console := console s @ [ucast b]\<rparr>)))"

section \<open>Accesses to RAM as accesses to bytes\<close>

definition access_width :: "u64 \<Rightarrow> nat" where
  "access_width func3 =
     (if func3 = 0 \<or> func3 = 4 then 1 else if func3 = 1 \<or> func3 = 5 then 2
      else if func3 = 2 \<or> func3 = 6 then 4 else 8)"

text \<open>The little-endian value of the \<open>n\<close> bytes at a physical address within one word.\<close>

definition ram_value :: "memory \<Rightarrow> u64 \<Rightarrow> nat \<Rightarrow> u64" where
  "ram_value m a n = get_field (8 * lane a) (8 * n) (m (ram_index a))"

definition load_extend :: "u64 \<Rightarrow> u64 \<Rightarrow> u64" where
  "load_extend func3 v = (if func3 < 3 then signed_take_bit (8 * access_width func3 - 1) v else v)"

lemma lane_rebase: "lane (a - DRAM_BASE) = lane a"
  using lane_unat [of a] by (simp add: lane_def [of "a - DRAM_BASE"] unat_mod)

lemma lane_0_iff: "lane a = 0 \<longleftrightarrow> a mod 8 = 0"
  by (simp add: lane_def unat_eq_0)

lemma byte_of_low:
  "j < 1 \<Longrightarrow> byte_of (v AND 0xFF) j = byte_of v j"
  "j < 2 \<Longrightarrow> byte_of (v AND 0xFFFF) j = byte_of v j"
  "j < 4 \<Longrightarrow> byte_of (v AND 0xFFFFFFFF) j = byte_of v j"
  unfolding mask_numerals by (rule bit_word_eqI, simp add: bit_simps)+

lemma store_value_bytes:
  assumes "func3 \<le> 3" "lane a + access_width func3 \<le> 8"
  shows "fst (store_value func3 a d b old)" (is ?ok)
    and "i < 8 \<Longrightarrow> byte_of (snd (store_value func3 a d b old)) i =
      (if lane a \<le> i \<and> i < lane a + access_width func3 then byte_of b (i - lane a)
       else byte_of d i)" (is "_ \<Longrightarrow> ?bytes")
proof -
  have "func3 = 0 \<or> func3 = 1 \<or> func3 = 2 \<or> func3 = 3" using assms(1)
    by (simp add: word_le_nat_alt word_unat_eq_iff) arith
  then consider "func3 = 0" | "func3 = 1" | "func3 = 2" | "func3 = 3" by blast
  then show ?ok
    using assms(2)
    by cases (simp_all add: store_value_def access_width_def byte_port.fst_st halfw_port.fst_st
        word_port.fst_st lane_0_iff [symmetric])
  show ?bytes if "i < 8"
    using \<open>func3 = 0 \<or> func3 = 1 \<or> func3 = 2 \<or> func3 = 3\<close> assms(2) that
    by (elim disjE) (auto simp: store_value_def access_width_def byte_port.byte_of_st
        halfw_port.byte_of_st word_port.byte_of_st lane_0_iff [symmetric] byte_of_low)
qed

text \<open>A store that reaches RAM and does not cross a word boundary writes exactly its bytes.\<close>

lemma ram_bound:
  assumes "DRAM_BASE \<le> pa" "pa - DRAM_BASE < 0x10000000"
  shows "ram_index pa < MEM_WORDS"
  using assms(2) by (simp add: word_less_nat_alt ram_index_unat MEM_WORDS_def)

lemma exec_store_ram:
  fixes f s
  defines "va \<equiv> reg_file s (f_rs1 f) + sign_extend (f_imm_s f) 12"
  assumes "translate va STOR (cp s) s = Inr pa" "pa \<noteq> -1" "va \<noteq> FIFO_ADDR_TX"
    and ram: "DRAM_BASE \<le> pa" "pa - DRAM_BASE < 0x10000000"
    and "f_func3 f \<le> 3" and fits: "lane pa + access_width (f_func3 f) \<le> 8"
  obtains m' where "exec_store f s = Inr (Fall (s\<lparr>ls_success := True, memory := m'\<rparr>))"
    "\<And>b. ram_byte m' b = (if unat (b - pa) < access_width (f_func3 f)
       then byte_of (reg_file s (f_rs2 f)) (unat (b - pa)) else ram_byte (memory s) b)"
proof -
  let ?v = "store_value (f_func3 f) (pa - DRAM_BASE) (memory s (ram_index pa))
    (reg_file s (f_rs2 f)) (ls_success s)"
  let ?m = "(memory s)(ram_index pa := snd ?v)"
  have fits': "lane (pa - DRAM_BASE) + access_width (f_func3 f) \<le> 8"
    using fits by (simp only: lane_rebase)
  have ok: "?v = (True, snd ?v)"
    using store_value_bytes(1) [OF \<open>f_func3 f \<le> 3\<close> fits'] by (metis prod.collapse)
  have idx: "(pa - DRAM_BASE) div 8 = ram_index pa" by (simp only: ram_index_def)
  have at: "mem_at (memory s) (ram_index pa) = Inr (memory s (ram_index pa))"
    "mem_put (memory s) (ram_index pa) (snd ?v) = Inr ?m"
    using ram_bound [OF ram] by (simp_all add: mem_at_def mem_put_def)
  have lim: "(pa - DRAM_BASE \<ge> push_bit 28 1) = False" using ram(2) by simp
  have "exec_store f s = Inr (Fall (s\<lparr>ls_success := True, memory := ?m\<rparr>))"
    unfolding exec_store_def Let_def va_def [symmetric] assms(2) andThen_simps idx lim at
    by (subst ok) (simp add: assms(3,4) ram(1) at)
  moreover have "ram_byte ?m b = (if unat (b - pa) < access_width (f_func3 f)
       then byte_of (reg_file s (f_rs2 f)) (unat (b - pa)) else ram_byte (memory s) b)" for b
    using lane_window [OF fits, of b] store_value_bytes(2) [OF \<open>f_func3 f \<le> 3\<close> fits' lane_less]
    by (auto simp: ram_byte_def lane_rebase)
  ultimately show thesis by (rule that)
qed

lemma and_low_bytes:
  "v AND 0xFF = take_bit 8 v" "v AND 0xFFFF = take_bit 16 v" "v AND 0xFFFFFFFF = take_bit 32 v"
  for v :: u64
  unfolding mask_numerals by (simp_all only: take_bit_eq_mask)

lemma sign_extend_take:
  "sign_extend (get_field lo 8 d) 8 = signed_take_bit 7 (get_field lo 8 d)"
  "sign_extend (get_field lo 16 d) 16 = signed_take_bit 15 (get_field lo 16 d)"
  "sign_extend (get_field lo 32 d) 32 = signed_take_bit 31 (get_field lo 32 d)"
  by (subst sign_extend_eq; simp add: get_field_def)+

lemma take_get_field: "take_bit n (get_field lo n d) = get_field lo n d"
  by (simp add: get_field_def)

lemma get_field_all: "get_field 0 64 d = d"
  by (rule bit_word_eqI) (simp add: bit_simps)

lemma func3_cases:
  fixes x :: u64
  assumes "x < 7"
  obtains "x = 0" | "x = 1" | "x = 2" | "x = 3" | "x = 4" | "x = 5" | "x = 6"
proof -
  from assms have "unat x < 7" by (simp add: word_less_nat_alt)
  then have "unat x \<in> {0, 1, 2, 3, 4, 5, 6}" by auto
  then show thesis using that by (auto simp: word_unat_eq_iff)
qed

lemma load_writeback_fits:
  assumes "func3 < 7" "lane a + access_width func3 \<le> 8"
  shows "load_writeback func3 rd va a d s =
     set_reg rd (load_extend func3 (get_field (8 * lane a) (8 * access_width func3) d)) s"
proof -
  note unf = load_writeback_def access_width_def load_extend_def load_byte_field load_halfw_field
    load_word_field and_low_bytes sign_extend_take
  show ?thesis using assms
    by (cases func3 rule: func3_cases)
      (simp_all add: unf lane_0_iff [symmetric] get_field_all take_get_field)
qed

lemma load_writeback_misaligned:
  assumes "func3 < 7" "\<not> lane a + access_width func3 \<le> 8"
  shows "load_writeback func3 rd va a d s = load_misaligned va s"
  using assms lane_less [of a]
  by (cases func3 rule: func3_cases)
    (simp_all add: load_writeback_def access_width_def load_halfw_field load_word_field
      byte_always_fits lane_0_iff [symmetric])

lemma load_source_ram:
  assumes "DRAM_BASE \<le> pa" "pa - DRAM_BASE < DRAM_SIZE"
  shows "load_source pa s = Inr (pa - DRAM_BASE, memory s (ram_index pa), s)"
proof -
  have "ram_index pa < MEM_WORDS"
    using assms(2) by (simp add: word_less_nat_alt ram_index_unat MEM_WORDS_def)
  then have "mem_at (memory s) (ram_index pa) = Inr (memory s (ram_index pa))"
    by (simp add: mem_at_def)
  moreover have "(pa - DRAM_BASE > DRAM_SIZE) = False" using assms(2) by auto
  ultimately show ?thesis
    unfolding load_source_def Let_def ram_index_def by (simp add: assms(1))
qed

lemma exec_load_ram:
  fixes f s
  defines "va \<equiv> reg_file s (f_rs1 f) + sign_extend (f_imm11_0 f) 12"
  assumes tr: "translate va LOAD (cp s) s = Inr pa" "pa \<noteq> -1" "va \<noteq> FIFO_ADDR_TX" "va \<noteq> FIFO_ADDR_RX"
    and ram: "DRAM_BASE \<le> pa" "pa - DRAM_BASE < DRAM_SIZE" and "f_func3 f < 7"
  shows "exec_load e f s = Inr (Fall (if lane pa + access_width (f_func3 f) \<le> 8
     then set_reg (f_rd f)
       (load_extend (f_func3 f) (ram_value (memory s) pa (access_width (f_func3 f)))) s
     else load_misaligned va s))"
proof -
  have "exec_load e f s = Inr (Fall (load_writeback (f_func3 f) (f_rd f) va (pa - DRAM_BASE)
      (memory s (ram_index pa)) s))"
    unfolding exec_load_def Let_def va_def [symmetric]
    by (simp add: tr load_source_ram [OF ram] del: diff_numeral_special)
  then show ?thesis
    using load_writeback_fits [OF \<open>f_func3 f < 7\<close>, of "pa - DRAM_BASE" "f_rd f" va]
      load_writeback_misaligned [OF \<open>f_func3 f < 7\<close>, of "pa - DRAM_BASE" "f_rd f" va]
    by (simp add: lane_rebase ram_value_def)
qed

lemma byte_of_ram_value:
  assumes "lane a + n \<le> 8"
  shows "byte_of (ram_value m a n) i = (if i < n then ram_byte m (a + of_nat i) else 0)"
proof (cases "i < n")
  case True
  then have "unat (a + of_nat i - a) = i"
    using assms by (simp add: unsigned_of_nat take_bit_nat_eq_self_iff)
  then have "ram_index (a + of_nat i) = ram_index a" "lane (a + of_nat i) = lane a + i"
    using lane_window [OF assms, of "a + of_nat i"] True by auto
  with True show ?thesis unfolding ram_value_def ram_byte_def
    by (intro bit_word_eqI) (auto simp: bit_simps algebra_simps)
next
  case False
  then show ?thesis unfolding ram_value_def by (intro bit_word_eqI) (auto simp: bit_simps)
qed

lemma ram_value_of_bytes:
  assumes "lane a + n \<le> 8" "\<And>i. i < n \<Longrightarrow> ram_byte m (a + of_nat i) = byte_of v i"
  shows "ram_value m a n = take_bit (8 * n) v"
proof (rule word_eq_bytesI)
  fix i :: nat
  have "byte_of (take_bit (8 * n) v) i = (if i < n then byte_of v i else 0)"
    by (rule bit_word_eqI) (auto simp: bit_simps)
  then show "byte_of (ram_value m a n) i = byte_of (take_bit (8 * n) v) i"
    using assms by (simp add: byte_of_ram_value)
qed

text \<open>A store that crosses a word boundary does nothing.\<close>

lemma store_value_misaligned:
  assumes "func3 \<le> 3" "\<not> lane a + access_width func3 \<le> 8"
  shows "fst (store_value func3 a d b old) = False"
proof -
  have "func3 = 0 \<or> func3 = 1 \<or> func3 = 2 \<or> func3 = 3" using assms(1)
    by (simp add: word_le_nat_alt word_unat_eq_iff) arith
  then show ?thesis
    using assms(2) lane_less [of a]
    by (elim disjE) (simp_all add: store_value_def access_width_def halfw_port.fst_st
        word_port.fst_st lane_0_iff [symmetric])
qed

lemma exec_store_misaligned:
  fixes f s
  defines "va \<equiv> reg_file s (f_rs1 f) + sign_extend (f_imm_s f) 12"
  assumes "translate va STOR (cp s) s = Inr pa" "pa \<noteq> -1" "va \<noteq> FIFO_ADDR_TX"
    and ram: "DRAM_BASE \<le> pa" "pa - DRAM_BASE < 0x10000000"
    and "f_func3 f \<le> 3" and fits: "\<not> lane pa + access_width (f_func3 f) \<le> 8"
  shows "exec_store f s = Inr (Fall (s\<lparr>ls_success := False\<rparr>))"
proof -
  have idx: "(pa - DRAM_BASE) div 8 = ram_index pa" by (simp only: ram_index_def)
  have at: "mem_at (memory s) (ram_index pa) = Inr (memory s (ram_index pa))"
    using ram_bound [OF ram] by (simp add: mem_at_def)
  have lim: "(pa - DRAM_BASE \<ge> push_bit 28 1) = False" using ram(2) by simp
  have "\<not> lane (pa - DRAM_BASE) + access_width (f_func3 f) \<le> 8"
    using fits unfolding lane_rebase .
  note bad = store_value_misaligned [OF \<open>f_func3 f \<le> 3\<close> this]
  show ?thesis
    unfolding exec_store_def Let_def va_def [symmetric] assms(2) andThen_simps idx lim at
    by (simp add: assms(3,4) ram(1) case_prod_unfold bad)
qed

section \<open>Invariants of the CSR file\<close>

lemma load_page_fault_Inr:
  assumes "load_page_fault va s = Inr fl"
  obtains pc' s' where
    "excep_function (PC s) 0xd 0xd 0xd (cp (set_mtval va s)) (set_mtval va s) = Inr (pc', s')"
    "fl = Continue (tval_by_mode (s'\<lparr>PC := pc'\<rparr>))" "cycle_count s' = cycle_count s"
proof -
  from assms obtain pc' s' where *:
    "excep_function (PC s) 0xd 0xd 0xd (cp (set_mtval va s)) (set_mtval va s) = Inr (pc', s')"
    "fl = Continue (tval_by_mode (s'\<lparr>PC := pc'\<rparr>))"
    by (auto simp: load_page_fault_def Let_def andThen_Inr_iff)
  moreover have "cycle_count s' = cycle_count s"
    by (subst excep_function_frame [OF *(1)]) simp
  ultimately show thesis by (rule that)
qed

lemma store_page_fault_Inr:
  assumes "store_page_fault va s = Inr fl"
  obtains pc' s' where "excep_function (PC s) 0xf 0xf 0xf (cp s) s = Inr (pc', s')"
    "fl = Continue (tval_by_mode (set_mtval va (s'\<lparr>PC := pc'\<rparr>)))" "cycle_count s' = cycle_count s"
proof -
  from assms obtain pc' s' where *: "excep_function (PC s) 0xf 0xf 0xf (cp s) s = Inr (pc', s')"
    "fl = Continue (tval_by_mode (set_mtval va (s'\<lparr>PC := pc'\<rparr>)))"
    by (auto simp: store_page_fault_def andThen_Inr_iff)
  moreover have "cycle_count s' = cycle_count s"
    by (subst excep_function_frame [OF *(1)]) simp
  ultimately show thesis by (rule that)
qed

lemma cycle_count_simps [simp]:
  "cycle_count (tval_by_mode s) = cycle_count s"
  "cycle_count (load_writeback func3 rd va a d s) = cycle_count s"
  "cycle_count (clint_write off v s) = cycle_count s"
  "cycle_count (snd (plic_read off s)) = cycle_count s"
  "cycle_count (plic_write off v s) = cycle_count s"
  by (simp_all add: tval_by_mode_def load_writeback_def load_misaligned_def clint_write_def
      plic_read_def plic_write_def Let_def split: plevel_t.split prod.splits)

context csr_invariant
begin

lemma tval_by_mode: "P n (csrs (tval_by_mode s)) = P n (csrs s)"
  by (simp add: tval_by_mode_def inv_tval split: plevel_t.split)

lemma load_page_fault:
  assumes "load_page_fault va s = Inr fl" "P (cycle_count s) (csrs s)"
  shows "P (cycle_count (flow_state fl)) (csrs (flow_state fl))"
  using assms(1)
proof (cases rule: load_page_fault_Inr)
  case (1 pc' s')
  have "P (cycle_count s) (csrs s')" by (rule excep [OF 1(1)]) (simp_all add: assms(2) inv_tval)
  then show ?thesis by (simp add: 1(2,3) tval_by_mode)
qed

lemma store_page_fault:
  assumes "store_page_fault va s = Inr fl" "P (cycle_count s) (csrs s)"
  shows "P (cycle_count (flow_state fl)) (csrs (flow_state fl))"
  using assms(1)
proof (cases rule: store_page_fault_Inr)
  case (1 pc' s')
  have "P (cycle_count s) (csrs s')" by (rule excep [OF 1(1)]) (simp_all add: assms(2))
  then show ?thesis by (simp add: 1(2,3) inv_tval tval_by_mode)
qed

lemma load_writeback: "P n (csrs (load_writeback func3 rd va a d s)) = P n (csrs s)"
  by (simp add: load_writeback_def load_misaligned_def Let_def inv_tval split: prod.splits)

lemma load_source:
  "load_source a s = Inr (a', d, s') \<Longrightarrow> P (cycle_count s) (csrs s) \<Longrightarrow> P (cycle_count s') (csrs s')"
  using devices(2) [of "cycle_count s" s "a - PLIC_BASE"]
  by (auto simp: load_source_def Let_def andThen_Inr_iff case_prod_unfold split: if_splits)

lemma exec_load:
  assumes "exec_load e f s = Inr fl" "P (cycle_count s) (csrs s)"
  shows "P (cycle_count (flow_state fl)) (csrs (flow_state fl))"
  using assms
  by (auto simp: exec_load_def Let_def andThen_Inr_iff load_writeback dest: load_source load_page_fault
      split: if_splits list.splits)

lemma exec_store:
  assumes "exec_store f s = Inr fl" "P (cycle_count s) (csrs s)"
  shows "P (cycle_count (flow_state fl)) (csrs (flow_state fl))"
  using assms
  by (auto simp: exec_store_def Let_def andThen_Inr_iff devices case_prod_unfold
      dest: store_page_fault split: if_splits)

end

section \<open>A machine to try the operations on\<close>

text \<open>A machine in bare mode with a RAM address in \<^verbatim>\<open>x1\<close> and a value in \<^verbatim>\<open>x2\<close>.\<close>

definition bare_demo :: emu where
  "bare_demo = (emu_init (\<lambda>_. 0) 0)\<lparr>reg_file := (\<lambda>_. 0)(1 := 0x80000010, 2 := 0x1122334455667788)\<rparr>"

lemma bare_demo_bare: "translate va t p bare_demo = Inr va"
  by (simp add: translate_bare bare_demo_def emu_init_def csr_init_def satp_init_def)

definition sw_demo :: fields where "sw_demo = decode (enc_S 0b0100011 2 1 2 4)"

lemma sw_demo_fields: "f_rs1 sw_demo = 1" "f_rs2 sw_demo = 2" "f_func3 sw_demo = 2"
    "sign_extend (f_imm_s sw_demo) 12 = 4" "reg_file bare_demo 1 = 0x80000010"
  by (simp_all add: sw_demo_def decode_enc_S decode_enc_S_imm take_bit_eq_mod sign_extend_def
      bare_demo_def)

definition lw_demo :: fields where "lw_demo = decode (enc_I 0b0000011 3 2 1 4)"

lemma lw_demo_fields: "f_rs1 lw_demo = 1" "f_rd lw_demo = 3" "f_func3 lw_demo = 2"
    "sign_extend (f_imm11_0 lw_demo) 12 = 4" "reg_file bare_demo 1 = 0x80000010"
  by (simp_all add: lw_demo_def decode_enc_I take_bit_eq_mod sign_extend_def bare_demo_def)

lemma bare_demo_regs: "reg_file bare_demo 1 = 0x80000010" "reg_file bare_demo 2 = 0x1122334455667788"
    "memory bare_demo i = (if i = MTIMECMP_WORD then -1 else 0)"
  by (simp_all add: bare_demo_def emu_init_def)

lemma bare_demo_satp: "sa_MODE (satp (csrs bare_demo)) = 0"
  by (simp add: bare_demo_def emu_init_def csr_init_def satp_init_def)

lemma lane_demo: "lane 0x80000010 = 0" "ram_index 0x80000010 = 2"
  by (simp_all add: lane_def ram_index_def)

section \<open>Further facts\<close>

text \<open>
  In bare mode, a store followed by a load of the same width from the same RAM address (within
  a word) puts the low bytes of the stored register, sign- or zero-extended, in \<^verbatim>\<open>rd\<close>.
\<close>

theorem store_then_load:
  fixes f g :: fields and s :: emu
  assumes "sa_MODE (satp (csrs s)) = 0"
    and "va = reg_file s (f_rs1 f) + sign_extend (f_imm_s f) 12"
    and "va = reg_file s (f_rs1 g) + sign_extend (f_imm11_0 g) 12"
    and "va \<noteq> -1" "va \<notin> {FIFO_ADDR_TX, FIFO_ADDR_RX}" "DRAM_BASE \<le> va" "va - DRAM_BASE < 0x10000000"
    and "f_func3 f \<le> 3" "f_func3 g < 7" "access_width (f_func3 g) = access_width (f_func3 f)"
    and "lane va + access_width (f_func3 f) \<le> 8"
  shows "\<exists>s1. exec_store f s = Inr (Fall s1) \<and>
    exec_load e g s1 = Inr (Fall (set_reg (f_rd g) (load_extend (f_func3 g)
      (take_bit (8 * access_width (f_func3 f)) (reg_file s (f_rs2 f)))) s1))"
proof -
  obtain m' where st: "exec_store f s = Inr (Fall (s\<lparr>ls_success := True, memory := m'\<rparr>))"
    and bytes: "\<And>b. ram_byte m' b = (if unat (b - va) < access_width (f_func3 f)
       then byte_of (reg_file s (f_rs2 f)) (unat (b - va)) else ram_byte (memory s) b)"
    using exec_store_ram [of s f va] assms by (auto simp: translate_bare)
  have "ram_value m' va (access_width (f_func3 f)) =
      take_bit (8 * access_width (f_func3 f)) (reg_file s (f_rs2 f))"
  proof (rule ram_value_of_bytes [OF assms(11)])
    fix i assume i: "i < access_width (f_func3 f)"
    then have "unat (of_nat i :: u64) = i"
      using assms(11) by (simp add: unsigned_of_nat take_bit_nat_eq_self_iff)
    with i show "ram_byte m' (va + of_nat i) = byte_of (reg_file s (f_rs2 f)) i"
      by (simp add: bytes)
  qed
  moreover have "va - DRAM_BASE < DRAM_SIZE" using assms(7) by (rule less_trans) simp
  ultimately show ?thesis
    using exec_load_ram [of "s\<lparr>ls_success := True, memory := m'\<rparr>" g va e] assms st
    by (auto simp: translate_bare)
qed

theorem store_then_load_witness:
  "\<exists>s1. exec_store sw_demo bare_demo = Inr (Fall s1) \<and>
    exec_load \<lparr>now = 0, getchar_result = EOF, no_return_value = 0\<rparr> lw_demo s1 =
      Inr (Fall (set_reg (f_rd lw_demo) (load_extend (f_func3 lw_demo)
      (take_bit (8 * access_width (f_func3 sw_demo)) (reg_file bare_demo (f_rs2 sw_demo)))) s1))"
  by (rule store_then_load [where va = "0x80000014"])
    (simp_all add: sw_demo_fields lw_demo_fields lane_def access_width_def,
     simp add: bare_demo_def emu_init_def csr_init_def satp_init_def)

text \<open>
  In bare mode and within RAM, a load that crosses a word boundary raises the misaligned-load
  flag with its address in \<^verbatim>\<open>mtval\<close> and keeps \<^verbatim>\<open>rd\<close>; a store that crosses one is dropped silently,
  only \<^verbatim>\<open>ls_success\<close> becomes false.
\<close>

theorem misaligned_accesses:
  fixes f g :: fields and s :: emu
  assumes "sa_MODE (satp (csrs s)) = 0" "va \<noteq> -1" "va \<notin> {FIFO_ADDR_TX, FIFO_ADDR_RX}"
    and "DRAM_BASE \<le> va" "va - DRAM_BASE < 0x10000000"
    and "va = reg_file s (f_rs1 f) + sign_extend (f_imm_s f) 12"
    and "va = reg_file s (f_rs1 g) + sign_extend (f_imm11_0 g) 12"
    and "f_func3 f \<le> 3" "\<not> lane va + access_width (f_func3 f) \<le> 8"
    and "f_func3 g < 7" "\<not> lane va + access_width (f_func3 g) \<le> 8"
  shows "exec_store f s = Inr (Fall (s\<lparr>ls_success := False\<rparr>)) \<and>
    exec_load e g s = Inr (Fall (load_misaligned va s))"
proof
  show "exec_store f s = Inr (Fall (s\<lparr>ls_success := False\<rparr>))"
    by (rule exec_store_misaligned [where pa = va])
      (use assms in \<open>simp_all add: translate_bare\<close>)
  have "va - DRAM_BASE < DRAM_SIZE" using assms(5) by (rule less_trans) simp
  then show "exec_load e g s = Inr (Fall (load_misaligned va s))"
    using exec_load_ram [of s g va e] assms by (auto simp: translate_bare)
qed

text \<open>\<^verbatim>\<open>SW\<close> and \<^verbatim>\<open>LW\<close> at an address whose lane is 6.\<close>

theorem misaligned_accesses_witness:
  "exec_store (sw_demo\<lparr>f_imm_s := 6\<rparr>) bare_demo = Inr (Fall (bare_demo\<lparr>ls_success := False\<rparr>)) \<and>
   exec_load \<lparr>now = 0, getchar_result = EOF, no_return_value = 0\<rparr> (lw_demo\<lparr>f_imm11_0 := 6\<rparr>) bare_demo =
     Inr (Fall (load_misaligned 0x80000016 bare_demo))"
proof (rule misaligned_accesses)
  show "sa_MODE (satp (csrs bare_demo)) = 0"
    by (simp add: bare_demo_def emu_init_def csr_init_def satp_init_def)
qed (simp_all add: sw_demo_fields lw_demo_fields lane_def access_width_def sign_extend_def)

section \<open>Properties\<close>

text \<open>
  C7: a store (\<^verbatim>\<open>SB\<close>, \<^verbatim>\<open>SH\<close>, \<^verbatim>\<open>SW\<close>, \<^verbatim>\<open>SD\<close>) whose translated address lies in the first \<open>2 ^ 28\<close> bytes of
  RAM and which does not cross a word boundary always completes, writes exactly its 1, 2, 4 or 8
  bytes of the source register, and changes nothing else but \<^verbatim>\<open>ls_success\<close>.
\<close>

theorem store_writes_its_bytes:
  assumes "translate (reg_file s (f_rs1 f) + sign_extend (f_imm_s f) 12) STOR (cp s) s = Inr pa"
    and "pa \<noteq> -1" "reg_file s (f_rs1 f) + sign_extend (f_imm_s f) 12 \<noteq> FIFO_ADDR_TX"
    and "DRAM_BASE \<le> pa" "pa - DRAM_BASE < 0x10000000"
    and "f_func3 f \<le> 3" "lane pa + access_width (f_func3 f) \<le> 8"
  shows "\<exists>m'. exec_store f s = Inr (Fall (s\<lparr>ls_success := True, memory := m'\<rparr>)) \<and>
    (\<forall>b. ram_byte m' b = (if unat (b - pa) < access_width (f_func3 f)
       then byte_of (reg_file s (f_rs2 f)) (unat (b - pa)) else ram_byte (memory s) b))"
  using exec_store_ram [OF assms] by metis

theorem store_writes_its_bytes_witness:
  "\<exists>m'. exec_store sw_demo bare_demo = Inr (Fall (bare_demo\<lparr>ls_success := True, memory := m'\<rparr>)) \<and>
    (\<forall>b. ram_byte m' b = (if unat (b - 0x80000014) < access_width (f_func3 sw_demo)
       then byte_of (reg_file bare_demo (f_rs2 sw_demo)) (unat (b - 0x80000014))
       else ram_byte (memory bare_demo) b))"
  by (rule store_writes_its_bytes)
    (simp_all add: sw_demo_fields bare_demo_bare lane_def access_width_def)

text \<open>
  C8: a load whose translated address lies in RAM and which does not cross a word boundary always
  completes: \<^verbatim>\<open>rd\<close> gets the sign- or zero-extended value whose bytes are those of the memory, and
  nothing else changes.
\<close>

theorem load_reads_its_bytes:
  assumes "translate (reg_file s (f_rs1 f) + sign_extend (f_imm11_0 f) 12) LOAD (cp s) s = Inr pa"
    and "pa \<noteq> -1" "reg_file s (f_rs1 f) + sign_extend (f_imm11_0 f) 12 \<notin> {FIFO_ADDR_TX, FIFO_ADDR_RX}"
    and "DRAM_BASE \<le> pa" "pa - DRAM_BASE < DRAM_SIZE" "f_func3 f < 7"
    and "lane pa + access_width (f_func3 f) \<le> 8"
  shows "\<exists>v. (\<forall>i. byte_of v i =
      (if i < access_width (f_func3 f) then ram_byte (memory s) (pa + of_nat i) else 0)) \<and>
    exec_load e f s = Inr (Fall (set_reg (f_rd f) (load_extend (f_func3 f) v) s))"
proof (intro exI conjI allI)
  show "exec_load e f s = Inr (Fall (set_reg (f_rd f)
      (load_extend (f_func3 f) (ram_value (memory s) pa (access_width (f_func3 f)))) s))"
    using exec_load_ram [of s f pa e] assms by simp
  show "byte_of (ram_value (memory s) pa (access_width (f_func3 f))) i =
      (if i < access_width (f_func3 f) then ram_byte (memory s) (pa + of_nat i) else 0)" for i
    by (rule byte_of_ram_value [OF assms(7)])
qed

theorem load_reads_its_bytes_witness:
  "\<exists>v. (\<forall>i. byte_of v i = (if i < access_width (f_func3 lw_demo)
      then ram_byte (memory bare_demo) (0x80000014 + of_nat i) else 0)) \<and>
    exec_load \<lparr>now = 0, getchar_result = EOF, no_return_value = 0\<rparr> lw_demo bare_demo =
      Inr (Fall (set_reg (f_rd lw_demo) (load_extend (f_func3 lw_demo) v) bare_demo))"
  by (rule load_reads_its_bytes)
    (simp_all add: lw_demo_fields bare_demo_bare lane_def access_width_def)

end
