(* ===== verification/Atomics.thy ===== *)
theory Atomics
  imports Load_Store
begin

text \<open>
  The case \<^verbatim>\<open>amo\<close> of the main loop: load-reserved, store-conditional and the nine read-modify-write
  operations, on 32-bit words (\<^verbatim>\<open>func3 = 2\<close>) and on doublewords (\<^verbatim>\<open>func3 = 3\<close>). The nine bodies
  of each width differ only in the value they compute, which is \<open>amo_w_value\<close> (\<open>amo_d_value\<close>).
\<close>

section \<open>The code\<close>

definition amo_misaligned :: "u64 \<Rightarrow> emu \<Rightarrow> emu" where
  "amo_misaligned tval s =
     set_mtval tval (raise_fault (STORE_ADDR_MISSALIG_update (\<lambda>_. True)) s)"

text \<open>The new value of the word: \<open>w\<close> is \<^verbatim>\<open>wb_data\<close>, \<open>b\<close> is \<^verbatim>\<open>reg_file[rs2]\<close>.\<close>

definition amo_w_value :: "u64 \<Rightarrow> u64 \<Rightarrow> u64 \<Rightarrow> u64 option" where
  "amo_w_value amo_op w b =
     (if amo_op = 0b00001 then Some (b AND MASK32)
      else if amo_op = 0b00000 then Some (((w AND MASK32) + (b AND MASK32)) AND MASK32)
      else if amo_op = 0b00100 then Some (((w AND MASK32) XOR (b AND MASK32)) AND MASK32)
      else if amo_op = 0b01100 then Some (((w AND MASK32) AND (b AND MASK32)) AND MASK32)
      else if amo_op = 0b01000 then Some (((w AND MASK32) OR (b AND MASK32)) AND MASK32)
      else if amo_op = 0b10000
      then Some (word_of_int (min (signed_value32 (w AND MASK32)) (signed_value32 (b AND MASK32)))
        AND MASK32)
      else if amo_op = 0b10100
      then Some (word_of_int (max (signed_value32 (w AND MASK32)) (signed_value32 (b AND MASK32)))
        AND MASK32)
      else if amo_op = 0b11000 then Some (min (w AND MASK32) (b AND MASK32) AND MASK32)
      else if amo_op = 0b11100 then Some (max (w AND MASK32) (b AND MASK32) AND MASK32)
      else None)"

definition amo_d_value :: "u64 \<Rightarrow> u64 \<Rightarrow> u64 \<Rightarrow> u64 option" where
  "amo_d_value amo_op w b =
     (if amo_op = 0b00001 then Some b
      else if amo_op = 0b00000 then Some (w + b)
      else if amo_op = 0b00100 then Some (w XOR b)
      else if amo_op = 0b01100 then Some (w AND b)
      else if amo_op = 0b01000 then Some (w OR b)
      else if amo_op = 0b10000 then Some (word_of_int (min (signed_value w) (signed_value b)))
      else if amo_op = 0b10100 then Some (word_of_int (max (signed_value w) (signed_value b)))
      else if amo_op = 0b11000 then Some (min w b)
      else if amo_op = 0b11100 then Some (max w b)
      else None)"

text \<open>
  The \<^verbatim>\<open>switch(amo_op)\<close> for words, with \<open>load_addr_phy\<close> already an offset into RAM. The stores of
  the read-modify-write operations take their byte lane from the virtual address \<open>load_addr\<close>.
  \<^verbatim>\<open>AMOMAXU.W\<close> reports the physical offset in \<^verbatim>\<open>mtval\<close>, the others the virtual address.
\<close>

definition amo_w :: "fields \<Rightarrow> u64 \<Rightarrow> u64 \<Rightarrow> u64 \<Rightarrow> u64 \<Rightarrow> emu \<Rightarrow> emu result" where
  "amo_w f instruction load_addr load_addr_phy load_data s =
     (let b = reg_file s (f_rs2 f); amo_op = f_amo_op f in
      if amo_op = 0b00010 then
        (let (ok, wb_data) = load_word load_addr_phy load_data; s = s\<lparr>ls_success := ok\<rparr> in
         if \<not> ok then Inr (amo_misaligned load_addr s)
         else Inr (s\<lparr>ret_data := sign_extend (wb_data AND MASK32) 32, amo_reserve_valid := True,
                     amo_reserve_addr := load_addr, LR_count := 0, LR_cp := cp s\<rparr>))
      else if amo_op = 0b00011 then
        andThen
          (if amo_reserve_valid s \<and> reg_file s (f_rs1 f) = amo_reserve_addr s then
             (let (ok, wb_data) = store_word load_addr_phy load_data (b AND MASK32);
                  s = s\<lparr>ls_success := ok\<rparr> in
              if \<not> ok then Inr ((amo_misaligned load_addr s)\<lparr>ret_data := 1\<rparr>)
              else andThen (mem_put (memory s) (load_addr_phy div 8) wb_data) (\<lambda>m.
                Inr (s\<lparr>memory := m, ret_data := 0\<rparr>)))
           else Inr (s\<lparr>ret_data := 1\<rparr>))
          (\<lambda>s. Inr (s\<lparr>LR_count := 0, amo_reserve_addr := 0, amo_reserve_valid := False\<rparr>))
      else
        (let (ok, wb_data) = load_word load_addr_phy load_data in
         case amo_w_value amo_op wb_data b of
           None \<Rightarrow> Inr (set_mtval instruction (raise_fault (ILL_INS_update (\<lambda>_. True)) s))
         | Some v \<Rightarrow>
             (let s = s\<lparr>ls_success := ok\<rparr> in
              if \<not> ok then
                Inr (amo_misaligned (if amo_op = 0b11100 then load_addr_phy else load_addr) s)
              else
                (let s = s\<lparr>ret_data := sign_extend (wb_data AND MASK32) 32\<rparr>;
                     (ok, store_data) = store_word load_addr load_data v;
                     s = s\<lparr>ls_success := ok\<rparr> in
                 andThen (mem_put (memory s) (load_addr_phy div 8) store_data) (\<lambda>m.
                 Inr (s\<lparr>memory := m\<rparr>))))))"

text \<open>The \<^verbatim>\<open>switch(amo_op)\<close> for doublewords; its \<^verbatim>\<open>default\<close> label raises nothing.\<close>

definition amo_d :: "fields \<Rightarrow> u64 \<Rightarrow> u64 \<Rightarrow> u64 \<Rightarrow> emu \<Rightarrow> emu result" where
  "amo_d f load_addr load_addr_phy wb_data s =
     (let b = reg_file s (f_rs2 f); amo_op = f_amo_op f; aligned = (load_addr_phy mod 8 = 0) in
      if amo_op = 0b00010 then
        (if \<not> aligned then Inr (amo_misaligned load_addr s)
         else Inr (s\<lparr>ret_data := wb_data, amo_reserve_valid64 := True,
                     amo_reserve_addr64 := reg_file s (f_rs1 f), LR_count64 := 0,
                     LR_cp64 := cp s\<rparr>))
      else if amo_op = 0b00011 then
        andThen
          (if amo_reserve_valid64 s \<and> reg_file s (f_rs1 f) = amo_reserve_addr64 s then
             (if \<not> aligned then Inr (amo_misaligned load_addr s)
              else andThen (mem_put (memory s) (load_addr_phy div 8) b) (\<lambda>m.
                Inr (s\<lparr>memory := m, ret_data := 0\<rparr>)))
           else Inr (s\<lparr>ret_data := 1\<rparr>))
          (\<lambda>s. Inr (s\<lparr>amo_reserve_addr64 := 0, amo_reserve_valid64 := False\<rparr>))
      else
        (case amo_d_value amo_op wb_data b of
           None \<Rightarrow> Inr s
         | Some v \<Rightarrow>
             (if \<not> aligned then Inr (amo_misaligned load_addr s)
              else
                (let s = s\<lparr>ret_data := wb_data\<rparr> in
                 andThen (mem_put (memory s) (load_addr_phy div 8) v) (\<lambda>m.
                 Inr (s\<lparr>memory := m\<rparr>))))))"

definition exec_amo :: "fields \<Rightarrow> u64 \<Rightarrow> emu \<Rightarrow> flow result" where
  "exec_amo f instruction s =
     (if f_func3 f = 0b010 \<or> f_func3 f = 0b011 then
        (let load_addr = reg_file s (f_rs1 f) in
         andThen (translate load_addr STOR (cp s) s) (\<lambda>load_addr_phy.
         if load_addr_phy = -1 then store_page_fault load_addr s
         else if load_addr_phy > 0x80000000 then
           (let load_addr_phy = load_addr_phy - 0x80000000 in
            andThen (mem_at (memory s) (load_addr_phy div 8)) (\<lambda>w.
            andThen (if f_func3 f = 0b010 then amo_w f instruction load_addr load_addr_phy w s
                     else amo_d f load_addr load_addr_phy w s) (\<lambda>s.
            Inr (Fall (set_reg (f_rd f) (ret_data s) s)))))
         else Inl (Exit 0)))
      else Inr (Fall s))"

section \<open>Reference semantics of the operations\<close>

definition isa_amo :: "u64 \<Rightarrow> 'a::len word \<Rightarrow> 'a word \<Rightarrow> 'a word option" where
  "isa_amo amo_op w b =
     (if amo_op = 1 then Some b
      else if amo_op = 0 then Some (w + b)
      else if amo_op = 4 then Some (w XOR b)
      else if amo_op = 12 then Some (w AND b)
      else if amo_op = 8 then Some (w OR b)
      else if amo_op = 16 then Some (if w \<le>s b then w else b)
      else if amo_op = 20 then Some (if w \<le>s b then b else w)
      else if amo_op = 24 then Some (min w b)
      else if amo_op = 28 then Some (max w b)
      else None)"

lemma amo_d_value_isa: "amo_d_value amo_op w b = isa_amo amo_op w b"
  by (simp add: amo_d_value_def isa_amo_def signed_value_sint word_sle_eq min_def max_def)

lemma ucast_min_max:
  "min (ucast x :: u64) (ucast y) = ucast (min x y)" "max (ucast x :: u64) (ucast y) = ucast (max x y)"
  for x y :: u32
proof -
  have "unat (ucast z :: u64) = unat z" for z :: u32
  proof -
    have "unat z < 2 ^ LENGTH(32)" by (rule unsigned_less)
    then show ?thesis by (simp add: unsigned_ucast_eq take_bit_nat_eq_self_iff)
  qed
  then have "(ucast x :: u64) \<le> ucast y \<longleftrightarrow> x \<le> y"
    by (simp add: word_le_nat_alt)
  then show "min (ucast x :: u64) (ucast y) = ucast (min x y)"
      "max (ucast x :: u64) (ucast y) = ucast (max x y)"
    by (simp_all add: min_def max_def)
qed

lemma ucast_logic:
  "(ucast x AND ucast y :: u64) = ucast (x AND y)" "(ucast x OR ucast y :: u64) = ucast (x OR y)"
  "(ucast x XOR ucast y :: u64) = ucast (x XOR y)" for x y :: u32
  by (rule bit_word_eqI, auto simp: bit_simps)+

lemma amo_w_value_isa:
  "amo_w_value amo_op w b = map_option ucast (isa_amo amo_op (ucast w :: u32) (ucast b))"
proof -
  have int: "ucast (word_of_int k :: u64) = (word_of_int k :: u32)" for k
    by (rule bit_word_eqI) (auto simp: bit_simps)
  have sgn: "word_of_int (min (sint x) (sint y)) = (if x \<le>s y then x else y)"
    "word_of_int (max (sint x) (sint y)) = (if x \<le>s y then y else x)" for x y :: u32
    by (simp_all add: word_sle_eq min_def max_def)
  note w = and_MASK32_ucast ucast_logic ucast_min_max ucast_arith ucast_ucast signed_value32_sint
    int sgn
  show ?thesis unfolding amo_w_value_def isa_amo_def w by simp
qed

section \<open>Read-modify-write\<close>

text \<open>Translation keeps the offset in the page, so both addresses name the same byte lane.\<close>

lemma lane_take_bit: "lane a = unat (take_bit 3 a)"
  by (simp add: lane_def take_bit_eq_mod)

lemma translate_lane:
  assumes "translate va t p s = Inr pa" "pa \<noteq> -1"
  shows "lane pa = lane va"
proof -
  have "take_bit 3 (take_bit 12 pa) = take_bit 3 (take_bit 12 va)"
    by (simp only: translate_offset [OF assms])
  then show ?thesis by (simp add: lane_take_bit)
qed

lemma ram_index_less:
  assumes "pa - DRAM_BASE < DRAM_SIZE" shows "ram_index pa < MEM_WORDS"
  using assms by (simp add: word_less_nat_alt ram_index_unat MEM_WORDS_def)

text \<open>The common part of the cases that reach RAM.\<close>

lemma exec_amo_ram:
  fixes f s
  defines "va \<equiv> reg_file s (f_rs1 f)"
  assumes "translate va STOR (cp s) s = Inr pa" "pa \<noteq> -1"
    and ram: "DRAM_BASE < pa" "pa - DRAM_BASE < DRAM_SIZE"
    and func3: "f_func3 f = 2 \<or> f_func3 f = 3"
  shows "exec_amo f ins s =
    andThen (if f_func3 f = 2 then amo_w f ins va (pa - DRAM_BASE) (memory s (ram_index pa)) s
             else amo_d f va (pa - DRAM_BASE) (memory s (ram_index pa)) s) (\<lambda>s.
    Inr (Fall (set_reg (f_rd f) (ret_data s) s)))"
proof -
  have "mem_at (memory s) (ram_index pa) = Inr (memory s (ram_index pa))"
    by (simp add: mem_at_def ram_index_less [OF ram(2)])
  then show ?thesis
    using func3 unfolding exec_amo_def Let_def va_def [symmetric] assms(2) andThen_simps ram_index_def
    by (simp add: assms(3) ram(1))
qed

lemma exec_amo_w_rmw:
  fixes f s
  defines "va \<equiv> reg_file s (f_rs1 f)"
  assumes tr: "translate va STOR (cp s) s = Inr pa" "pa \<noteq> -1"
    and ram: "DRAM_BASE < pa" "pa - DRAM_BASE < DRAM_SIZE"
    and func3: "f_func3 f = 2" and fits: "lane pa + 4 \<le> 8"
  defines "old \<equiv> ucast (ram_value (memory s) pa 4) :: u32"
  assumes op: "isa_amo (f_amo_op f) old (ucast (reg_file s (f_rs2 f))) = Some v"
  obtains m' where
    "exec_amo f ins s = Inr (Fall (set_reg (f_rd f) (scast old)
       (s\<lparr>memory := m', ret_data := scast old, ls_success := True\<rparr>)))"
    "\<And>b. ram_byte m' b =
       (if unat (b - pa) < 4 then byte_of (ucast v) (unat (b - pa)) else ram_byte (memory s) b)"
proof -
  let ?d = "memory s (ram_index pa)"
  define w where "w = snd (store_word va ?d (ucast v))"
  let ?m = "(memory s)(ram_index pa := w)"
  have nops: "f_amo_op f \<noteq> 2" "f_amo_op f \<noteq> 3" using op by (auto simp: isa_amo_def)
  have lane: "lane va = lane pa" using translate_lane [OF tr] by simp
  have ld: "load_word (pa - DRAM_BASE) ?d = (True, ram_value (memory s) pa 4)"
    using fits by (simp add: load_word_field lane_rebase ram_value_def)
  have val: "amo_w_value (f_amo_op f) (ram_value (memory s) pa 4) (reg_file s (f_rs2 f)) =
      Some (ucast v)"
    using op by (simp add: amo_w_value_isa old_def)
  have ret: "sign_extend (ram_value (memory s) pa 4 AND MASK32) 32 = scast old"
    by (simp add: and_MASK32_ucast sign_extend_32 old_def)
  have st: "store_word va ?d (ucast v) = (True, w)"
    using fits lane by (simp add: store_word_field w_def)
  have put: "mem_put (memory s) (ram_index pa) x = Inr ((memory s)(ram_index pa := x))" for x
    by (simp add: mem_put_def ram_index_less [OF ram(2)])
  have "amo_w f ins va (pa - DRAM_BASE) ?d s =
      Inr (s\<lparr>memory := ?m, ret_data := scast old, ls_success := True\<rparr>)"
    unfolding amo_w_def Let_def ld ram_index_def [symmetric]
    by (simp add: nops put val ret st)
  then have "exec_amo f ins s = Inr (Fall (set_reg (f_rd f) (scast old)
       (s\<lparr>memory := ?m, ret_data := scast old, ls_success := True\<rparr>)))"
    using exec_amo_ram [of s f pa ins] tr ram func3 by (simp add: va_def)
  moreover have "ram_byte ?m b =
       (if unat (b - pa) < 4 then byte_of (ucast v) (unat (b - pa)) else ram_byte (memory s) b)" for b
    using lane_window [OF fits, of b] word_port.byte_of_st [of va ?d "ucast v" "lane b"] fits lane
    by (auto simp: ram_byte_def w_def)
  ultimately show thesis by (rule that)
qed

lemma rebase_mod: "(pa - DRAM_BASE) mod 8 = 0 \<longleftrightarrow> lane pa = 0"
  using lane_0_iff [of "pa - DRAM_BASE"] by (simp only: lane_rebase)

lemma exec_amo_d_rmw:
  fixes f s
  defines "va \<equiv> reg_file s (f_rs1 f)" and "old \<equiv> \<lambda>pa. memory s (ram_index pa)"
  assumes tr: "translate va STOR (cp s) s = Inr pa" "pa \<noteq> -1"
    and ram: "DRAM_BASE < pa" "pa - DRAM_BASE < DRAM_SIZE"
    and func3: "f_func3 f = 3" and aligned: "lane pa = 0"
    and op: "isa_amo (f_amo_op f) (old pa) (reg_file s (f_rs2 f)) = Some v"
  shows "exec_amo f ins s = Inr (Fall (set_reg (f_rd f) (old pa)
       (s\<lparr>memory := (memory s)(ram_index pa := v), ret_data := old pa\<rparr>)))"
proof -
  have nops: "f_amo_op f \<noteq> 2" "f_amo_op f \<noteq> 3" using op by (auto simp: isa_amo_def)
  have put: "mem_put (memory s) (ram_index pa) v = Inr ((memory s)(ram_index pa := v))"
    by (simp add: mem_put_def ram_index_less [OF ram(2)])
  have "amo_d f va (pa - DRAM_BASE) (old pa) s =
      Inr (s\<lparr>memory := (memory s)(ram_index pa := v), ret_data := old pa\<rparr>)"
    unfolding amo_d_def Let_def ram_index_def [symmetric] rebase_mod amo_d_value_isa
    by (simp add: nops put op aligned)
  then show ?thesis
    using exec_amo_ram [of s f pa ins] tr ram func3 by (simp add: va_def old_def)
qed

section \<open>Load-reserved and store-conditional\<close>

text \<open>Whatever happens, a store-conditional drops the reservation.\<close>

lemma amo_w_sc_drops:
  "amo_w f ins va a d s = Inr s' \<Longrightarrow> f_amo_op f = 3 \<Longrightarrow> \<not> amo_reserve_valid s'"
  by (auto simp: amo_w_def Let_def andThen_Inr_iff)

lemma amo_d_sc_drops:
  "amo_d f va a d s = Inr s' \<Longrightarrow> f_amo_op f = 3 \<Longrightarrow> \<not> amo_reserve_valid64 s'"
  by (auto simp: amo_d_def Let_def andThen_Inr_iff)

lemma exec_lr_w:
  fixes f s
  defines "va \<equiv> reg_file s (f_rs1 f)"
  assumes tr: "translate va STOR (cp s) s = Inr pa" "pa \<noteq> -1"
    and ram: "DRAM_BASE < pa" "pa - DRAM_BASE < DRAM_SIZE"
    and op: "f_func3 f = 2" "f_amo_op f = 2" and fits: "lane pa + 4 \<le> 8"
  defines "old \<equiv> scast (ucast (ram_value (memory s) pa 4) :: u32)"
  shows "exec_amo f ins s = Inr (Fall (set_reg (f_rd f) old
    (s\<lparr>ret_data := old, ls_success := True, amo_reserve_valid := True, amo_reserve_addr := va,
       LR_count := 0, LR_cp := cp s\<rparr>)))"
proof -
  have ld: "load_word (pa - DRAM_BASE) (memory s (ram_index pa)) = (True, ram_value (memory s) pa 4)"
    using fits by (simp add: load_word_field lane_rebase ram_value_def)
  show ?thesis
    using exec_amo_ram [of s f pa ins] tr ram op
    by (simp add: va_def amo_w_def ld old_def and_MASK32_ucast sign_extend_32)
qed

lemma exec_sc_w_success:
  fixes f s
  defines "va \<equiv> reg_file s (f_rs1 f)"
  assumes tr: "translate va STOR (cp s) s = Inr pa" "pa \<noteq> -1"
    and ram: "DRAM_BASE < pa" "pa - DRAM_BASE < DRAM_SIZE"
    and op: "f_func3 f = 2" "f_amo_op f = 3" and fits: "lane pa + 4 \<le> 8"
    and res: "amo_reserve_valid s" "amo_reserve_addr s = va"
  obtains m' where "exec_amo f ins s = Inr (Fall (set_reg (f_rd f) 0
      (s\<lparr>memory := m', ret_data := 0, ls_success := True, LR_count := 0, amo_reserve_addr := 0,
         amo_reserve_valid := False\<rparr>)))"
    "\<And>b. ram_byte m' b = (if unat (b - pa) < 4
       then byte_of (reg_file s (f_rs2 f)) (unat (b - pa)) else ram_byte (memory s) b)"
proof -
  let ?d = "memory s (ram_index pa)"
  define w where "w = snd (store_word (pa - DRAM_BASE) ?d (reg_file s (f_rs2 f) AND MASK32))"
  let ?m = "(memory s)(ram_index pa := w)"
  have fits': "lane (pa - DRAM_BASE) + 4 \<le> 8" using fits by (simp only: lane_rebase)
  have st: "store_word (pa - DRAM_BASE) ?d (reg_file s (f_rs2 f) AND MASK32) = (True, w)"
    using fits' by (simp add: store_word_field w_def)
  have put: "mem_put (memory s) (ram_index pa) x = Inr ((memory s)(ram_index pa := x))" for x
    by (simp add: mem_put_def ram_index_less [OF ram(2)])
  have "exec_amo f ins s = Inr (Fall (set_reg (f_rd f) 0
      (s\<lparr>memory := ?m, ret_data := 0, ls_success := True, LR_count := 0, amo_reserve_addr := 0,
         amo_reserve_valid := False\<rparr>)))"
    using exec_amo_ram [of s f pa ins] tr ram op res
    by (simp add: va_def amo_w_def st put flip: ram_index_def)
  moreover have "byte_of (b AND MASK32) j = byte_of b j" if "j < 4" for b j
    using that byte_of_low(3) [of j b] by (simp add: MASK32_def)
  then have "ram_byte ?m b = (if unat (b - pa) < 4
       then byte_of (reg_file s (f_rs2 f)) (unat (b - pa)) else ram_byte (memory s) b)" for b
    using lane_window [OF fits, of b] fits' lane_rebase [of pa]
      word_port.byte_of_st [OF fits', of ?d "reg_file s (f_rs2 f) AND MASK32" "lane b"]
    by (auto simp: ram_byte_def w_def)
  ultimately show thesis by (rule that)
qed

lemma exec_sc_w_fail:
  fixes f s
  defines "va \<equiv> reg_file s (f_rs1 f)"
  assumes tr: "translate va STOR (cp s) s = Inr pa" "pa \<noteq> -1"
    and ram: "DRAM_BASE < pa" "pa - DRAM_BASE < DRAM_SIZE"
    and op: "f_func3 f = 2" "f_amo_op f = 3"
    and res: "\<not> amo_reserve_valid s \<or> amo_reserve_addr s \<noteq> va"
  shows "exec_amo f ins s = Inr (Fall (set_reg (f_rd f) 1
      (s\<lparr>ret_data := 1, LR_count := 0, amo_reserve_addr := 0, amo_reserve_valid := False\<rparr>)))"
  using exec_amo_ram [of s f pa ins] tr ram op res by (auto simp: va_def amo_w_def)

section \<open>Invariants of the CSR file\<close>

context csr_invariant
begin

lemma amo:
  assumes "P (cycle_count s) (csrs s)"
  shows "amo_w f ins va a d s = Inr s' \<Longrightarrow> P (cycle_count s') (csrs s')"
    and "amo_d f va a d s = Inr s' \<Longrightarrow> P (cycle_count s') (csrs s')"
  using assms
  by (auto simp: amo_w_def amo_d_def amo_misaligned_def Let_def andThen_Inr_iff case_prod_unfold
      inv_tval split: if_splits option.splits)

lemma exec_amo:
  assumes "exec_amo f ins s = Inr fl" "P (cycle_count s) (csrs s)"
  shows "P (cycle_count (flow_state fl)) (csrs (flow_state fl))"
  using assms
  by (auto simp: exec_amo_def Let_def andThen_Inr_iff dest: store_page_fault amo split: if_splits)

end

section \<open>A decoded atomic to try\<close>

text \<open>\<^verbatim>\<open>AMOADD.W\<close> with the address in \<^verbatim>\<open>x1\<close>, and the doubleword and reservation forms.\<close>

definition amo_demo :: "u64 \<Rightarrow> u64 \<Rightarrow> fields" where
  "amo_demo op width = (decode 0)\<lparr>f_func3 := width, f_rs1 := 1, f_rs2 := 2, f_rd := 3, f_amo_op := op\<rparr>"

lemma amo_demo_fields: "f_func3 (amo_demo op w) = w" "f_rs1 (amo_demo op w) = 1"
    "f_rs2 (amo_demo op w) = 2" "f_rd (amo_demo op w) = 3" "f_amo_op (amo_demo op w) = op"
  by (simp_all add: amo_demo_def)

section \<open>Further facts\<close>

text \<open>
  Each of the nine \<^verbatim>\<open>AMO*.D\<close> instructions whose address is translated into RAM (past its first
  byte) on a doubleword boundary completes: \<^verbatim>\<open>rd\<close> gets the old doubleword, which is replaced by the
  reference operation on the old value and \<^verbatim>\<open>rs2\<close>; no other word of memory changes.
\<close>

theorem amo_d_read_modify_write:
  assumes "translate (reg_file s (f_rs1 f)) STOR (cp s) s = Inr pa" "pa \<noteq> -1"
    and "DRAM_BASE < pa" "pa - DRAM_BASE < DRAM_SIZE" "f_func3 f = 3" "lane pa = 0"
    and "isa_amo (f_amo_op f) (memory s (ram_index pa)) (reg_file s (f_rs2 f)) = Some v"
  shows "exec_amo f ins s = Inr (Fall (set_reg (f_rd f) (memory s (ram_index pa))
    (s\<lparr>memory := (memory s)(ram_index pa := v), ret_data := memory s (ram_index pa)\<rparr>)))"
  using exec_amo_d_rmw [OF assms] .

theorem amo_d_read_modify_write_witness:
  "exec_amo (amo_demo 28 3) 0 bare_demo = Inr (Fall (set_reg 3 (memory bare_demo 2)
    (bare_demo\<lparr>memory := (memory bare_demo)(2 := 0x1122334455667788), ret_data := memory bare_demo 2\<rparr>)))"
  using amo_d_read_modify_write [of bare_demo "amo_demo 28 3" "0x80000010" "0x1122334455667788" 0]
  by (simp add: amo_demo_fields bare_demo_regs bare_demo_bare lane_demo isa_amo_def)

section \<open>Properties\<close>

text \<open>
  C9: each of the nine \<^verbatim>\<open>AMO*.W\<close> instructions whose address is translated into RAM (past its first
  byte) within a word always completes: \<^verbatim>\<open>rd\<close> gets the sign-extended old word, the four bytes become
  the reference operation on the old word and the low half of \<^verbatim>\<open>rs2\<close>, every other byte is kept. The
  lane is taken from the virtual address, which translation leaves unchanged.
\<close>

theorem amo_w_read_modify_write:
  assumes "translate (reg_file s (f_rs1 f)) STOR (cp s) s = Inr pa" "pa \<noteq> -1"
    and "DRAM_BASE < pa" "pa - DRAM_BASE < DRAM_SIZE" "f_func3 f = 2" "lane pa + 4 \<le> 8"
    and "isa_amo (f_amo_op f) (ucast (ram_value (memory s) pa 4) :: u32)
      (ucast (reg_file s (f_rs2 f))) = Some v"
  shows "\<exists>m'. exec_amo f ins s = Inr (Fall (set_reg (f_rd f)
      (scast (ucast (ram_value (memory s) pa 4) :: u32))
      (s\<lparr>memory := m', ret_data := scast (ucast (ram_value (memory s) pa 4) :: u32),
         ls_success := True\<rparr>))) \<and>
    (\<forall>b. ram_byte m' b =
      (if unat (b - pa) < 4 then byte_of (ucast v) (unat (b - pa)) else ram_byte (memory s) b))"
  using exec_amo_w_rmw [OF assms] by metis

theorem amo_w_read_modify_write_witness:
  "\<exists>m'. exec_amo (amo_demo 0 2) 0 bare_demo = Inr (Fall (set_reg 3 0
      (bare_demo\<lparr>memory := m', ret_data := 0, ls_success := True\<rparr>)))"
  using amo_w_read_modify_write [of bare_demo "amo_demo 0 2" "0x80000010" "0x55667788" 0]
  by (simp add: amo_demo_fields bare_demo_regs bare_demo_bare lane_demo ram_value_def get_field_def
      isa_amo_def) blast

text \<open>
  C40: in bare mode, on a RAM address (past its first byte) within a word, \<^verbatim>\<open>LR.W\<close> then \<^verbatim>\<open>SC.W\<close> through
  the same address register completes: the \<^verbatim>\<open>SC.W\<close> stores exactly the four low bytes of \<^verbatim>\<open>rs2\<close> and
  puts 0 in \<^verbatim>\<open>rd\<close>; repeating the \<^verbatim>\<open>SC.W\<close> puts 1 in \<^verbatim>\<open>rd\<close> and leaves memory alone.
\<close>

theorem lr_sc_pair:
  assumes "sa_MODE (satp (csrs s)) = 0" "va = reg_file s (f_rs1 f)" "va \<noteq> -1"
    and "DRAM_BASE < va" "va - DRAM_BASE < DRAM_SIZE" "lane va + 4 \<le> 8"
    and "f_func3 f = 2" "f_amo_op f = 2" "f_func3 g = 2" "f_amo_op g = 3"
    and "f_rs1 g = f_rs1 f" "f_rd f \<noteq> f_rs1 f" "f_rd g \<noteq> f_rs1 f" "f_rd f \<noteq> f_rs2 g"
  shows "\<exists>s1 s2 s3. exec_amo f i s = Inr (Fall s1) \<and> exec_amo g j s1 = Inr (Fall s2) \<and>
    exec_amo g j s2 = Inr (Fall s3) \<and>
    reg_file s1 (f_rd f) = scast (ucast (ram_value (memory s) va 4) :: u32) \<and>
    reg_file s2 (f_rd g) = 0 \<and> reg_file s3 (f_rd g) = 1 \<and> memory s3 = memory s2 \<and>
    (\<forall>b. ram_byte (memory s2) b = (if unat (b - va) < 4
       then byte_of (reg_file s (f_rs2 g)) (unat (b - va)) else ram_byte (memory s) b))"
proof -
  define old where "old = (scast (ucast (ram_value (memory s) va 4) :: u32) :: u64)"
  define s1 where "s1 = set_reg (f_rd f) old (s\<lparr>ret_data := old, ls_success := True,
    amo_reserve_valid := True, amo_reserve_addr := va, LR_count := 0, LR_cp := cp s\<rparr>)"
  have lr: "exec_amo f i s = Inr (Fall s1)"
    using exec_lr_w [of s f va i] assms by (simp add: translate_bare s1_def old_def)
  have s1: "sa_MODE (satp (csrs s1)) = 0" "reg_file s1 (f_rs1 g) = va" "amo_reserve_valid s1"
    "amo_reserve_addr s1 = va" "reg_file s1 (f_rs2 g) = reg_file s (f_rs2 g)" "memory s1 = memory s"
    using assms by (simp_all add: s1_def)
  obtain m' where sc: "exec_amo g j s1 = Inr (Fall (set_reg (f_rd g) 0
      (s1\<lparr>memory := m', ret_data := 0, ls_success := True, LR_count := 0, amo_reserve_addr := 0,
         amo_reserve_valid := False\<rparr>)))"
    and bytes: "\<And>b. ram_byte m' b = (if unat (b - va) < 4
       then byte_of (reg_file s1 (f_rs2 g)) (unat (b - va)) else ram_byte (memory s1) b)"
    using exec_sc_w_success [of s1 g va j] assms s1 by (auto simp: translate_bare)
  define s2 where "s2 = set_reg (f_rd g) 0 (s1\<lparr>memory := m', ret_data := 0, ls_success := True,
    LR_count := 0, amo_reserve_addr := 0, amo_reserve_valid := False\<rparr>)"
  have "exec_amo g j s2 = Inr (Fall (set_reg (f_rd g) 1
      (s2\<lparr>ret_data := 1, LR_count := 0, amo_reserve_addr := 0, amo_reserve_valid := False\<rparr>)))"
    by (rule exec_sc_w_fail [of s2 g va j]) (use assms s1 in \<open>simp_all add: translate_bare s2_def\<close>)
  with lr sc bytes s1(5,6) show ?thesis
    by (auto simp: s2_def [symmetric] intro!: exI) (simp_all add: s1_def s2_def old_def)
qed

theorem lr_sc_pair_witness:
  "\<exists>s1 s2 s3. exec_amo (amo_demo 2 2) 0 bare_demo = Inr (Fall s1) \<and>
    exec_amo (amo_demo 3 2) 0 s1 = Inr (Fall s2) \<and> exec_amo (amo_demo 3 2) 0 s2 = Inr (Fall s3) \<and>
    reg_file s2 3 = 0 \<and> reg_file s3 3 = 1 \<and> memory s3 = memory s2"
  using lr_sc_pair [of bare_demo "0x80000010" "amo_demo 2 2" "amo_demo 3 2" 0 0]
  by (simp add: amo_demo_fields bare_demo_regs lane_demo bare_demo_satp) blast

end
