(* ===== verification/System.thy ===== *)
theory System
  imports Load_Store CSR_Access
begin

text \<open>
  The case \<^verbatim>\<open>systm\<close> of the main loop: the six CSR instructions and the environment instructions
  \<^verbatim>\<open>ecall\<close>, \<^verbatim>\<open>ebreak\<close>, \<^verbatim>\<open>mret\<close>, \<^verbatim>\<open>sret\<close> and \<^verbatim>\<open>uret\<close>.
\<close>

section \<open>CSR instructions\<close>

definition illegal :: "u64 \<Rightarrow> emu \<Rightarrow> emu" where
  "illegal instruction s =
     set_mtval instruction (raise_fault (ILL_INS_update (\<lambda>_. True)) s)"

definition csrrw :: "env \<Rightarrow> fields \<Rightarrow> u64 \<Rightarrow> emu \<Rightarrow> emu" where
  "csrrw e f instruction s =
     (let (csr_data, s) = csr_read (no_return_value e) (f_imm11_0 f) s in
      if csr_read_success s then
        (let store_data = reg_file s (f_rs1 f);
             (csr_bool, s) = csr_write (f_imm11_0 f) store_data s in
         if \<not> csr_bool then illegal instruction s
         else if f_rd f \<noteq> 0 then set_reg (f_rd f) csr_data s else s)
      else illegal instruction s)"

definition csrrs :: "env \<Rightarrow> fields \<Rightarrow> u64 \<Rightarrow> emu \<Rightarrow> emu" where
  "csrrs e f instruction s =
     (let (csr_data, s) = csr_read (no_return_value e) (f_imm11_0 f) s in
      if csr_read_success s then
        (if f_imm11_0 f = CYCLE \<or> f_imm11_0 f = TIME \<or> f_imm11_0 f = INSTRET
         then set_reg (f_rd f) csr_data s
         else
           (let store_data = reg_file s (f_rs1 f) OR csr_data;
                (csr_bool, s) = csr_write (f_imm11_0 f) store_data s in
            if \<not> csr_bool then illegal instruction s else set_reg (f_rd f) csr_data s))
      else illegal instruction s)"

definition csrrc :: "env \<Rightarrow> fields \<Rightarrow> u64 \<Rightarrow> emu \<Rightarrow> emu" where
  "csrrc e f instruction s =
     (let (csr_data, s) = csr_read (no_return_value e) (f_imm11_0 f) s in
      if csr_read_success s then
        (let store_data = csr_data AND (MASK64 - reg_file s (f_rs1 f));
             (csr_bool, s) = csr_write (f_imm11_0 f) store_data s in
         if \<not> csr_bool then illegal instruction s else set_reg (f_rd f) csr_data s)
      else illegal instruction s)"

definition csrrwi :: "env \<Rightarrow> fields \<Rightarrow> u64 \<Rightarrow> emu \<Rightarrow> emu" where
  "csrrwi e f instruction s =
     (let (csr_data, s) = csr_read (no_return_value e) (f_imm11_0 f) s in
      if csr_read_success s then
        (let (csr_bool, s) = csr_write (f_imm11_0 f) (f_rs1 f) s in
         if \<not> csr_bool then illegal instruction s
         else if f_rd f \<noteq> 0 then set_reg (f_rd f) csr_data s else s)
      else illegal instruction s)"

definition csrrsi :: "env \<Rightarrow> fields \<Rightarrow> u64 \<Rightarrow> emu \<Rightarrow> emu" where
  "csrrsi e f instruction s =
     (let (csr_data, s) = csr_read (no_return_value e) (f_imm11_0 f) s in
      if csr_read_success s then
        (let store_data = f_rs1 f OR csr_data;
             (csr_bool, s) = csr_write (f_imm11_0 f) store_data s in
         if \<not> csr_bool then illegal instruction s else set_reg (f_rd f) csr_data s)
      else illegal instruction s)"

definition csrrci :: "env \<Rightarrow> fields \<Rightarrow> u64 \<Rightarrow> emu \<Rightarrow> emu" where
  "csrrci e f instruction s =
     (let (csr_data, s) = csr_read (no_return_value e) (f_imm11_0 f) s in
      if csr_read_success s then
        (let store_data = csr_data AND (MASK64 - f_rs1 f);
             (csr_bool, s) = csr_write (f_imm11_0 f) store_data s in
         if \<not> csr_bool then illegal instruction s else set_reg (f_rd f) csr_data s)
      else illegal instruction s)"

section \<open>Environment instructions\<close>

abbreviation CAUSE_USER_ECALL :: u64 where "CAUSE_USER_ECALL \<equiv> 0x8"
abbreviation CAUSE_SUPERVISOR_ECALL :: u64 where "CAUSE_SUPERVISOR_ECALL \<equiv> 0x9"
abbreviation CAUSE_MACHINE_ECALL :: u64 where "CAUSE_MACHINE_ECALL \<equiv> 0xb"

definition exec_ecall :: "emu \<Rightarrow> flow result" where
  "exec_ecall s =
     andThen (excep_function (PC s) CAUSE_MACHINE_ECALL CAUSE_SUPERVISOR_ECALL CAUSE_USER_ECALL
       (cp s) s) (\<lambda>(pc, s). Inr (Fall (s\<lparr>PC := pc\<rparr>)))"

definition exec_mret :: "emu \<Rightarrow> emu" where
  "exec_mret s =
     (let s = s\<lparr>PC := mepc (csrs s)\<rparr>;
          s = s\<lparr>cp := plevel_of (ms_mpp (mstatus (csrs s)))\<rparr> in
      upd_mstatus (\<lambda>m. m\<lparr>ms_mie := 1, ms_mpp := 0, ms_mpie := 0\<rparr>) s)"

definition exec_sret :: "emu \<Rightarrow> emu" where
  "exec_sret s =
     (let s = s\<lparr>PC := sepc (csrs s)\<rparr>;
          s = s\<lparr>cp := plevel_of (ms_spp (mstatus (csrs s)))\<rparr> in
      upd_mstatus (\<lambda>m. m\<lparr>ms_spp := 0, ms_sie := ms_spie m, ms_spie := 1\<rparr>) s)"

definition exec_systm :: "env \<Rightarrow> fields \<Rightarrow> u64 \<Rightarrow> emu \<Rightarrow> flow result" where
  "exec_systm e f instruction s =
     (if f_func3 f = 0b001 then Inr (Fall (csrrw e f instruction s))
      else if f_func3 f = 0b010 then Inr (Fall (csrrs e f instruction s))
      else if f_func3 f = 0b011 then Inr (Fall (csrrc e f instruction s))
      else if f_func3 f = 0b101 then Inr (Fall (csrrwi e f instruction s))
      else if f_func3 f = 0b110 then Inr (Fall (csrrsi e f instruction s))
      else if f_func3 f = 0b111 then Inr (Fall (csrrci e f instruction s))
      else if f_func3 f = 0b000 then
        (if f_imm11_0 f = 0 then exec_ecall s
         else if f_imm11_0 f = 1 then Inr (Fall (raise_fault (EBREAK_update (\<lambda>_. True)) s))
         else if f_imm11_0 f = 770 then Inr (Fall (exec_mret s))
         else if f_imm11_0 f = 258 then Inr (Fall (exec_sret s))
         else if f_imm11_0 f = 2 then Inl (Exit 0)
         else Inr (Fall s))
      else Inr (Fall s))"

section \<open>What the CSR instructions do\<close>

text \<open>
  The six bodies follow one scheme: read the register, write a new value, put the old one in
  \<^verbatim>\<open>rd\<close>; any failure is an illegal instruction. \<open>always\<close> says whether \<^verbatim>\<open>rd = x0\<close> is written too.
\<close>

definition csr_rmw :: "bool \<Rightarrow> (u64 \<Rightarrow> u64) \<Rightarrow> env \<Rightarrow> fields \<Rightarrow> u64 \<Rightarrow> emu \<Rightarrow> emu" where
  "csr_rmw always new e f instruction s =
     (let a = f_imm11_0 f; old = fst (csr_read (no_return_value e) a s);
          s = s\<lparr>csr_read_success := may_read a (cp s)\<rparr> in
      if csr_read_success s \<and> a \<in> set csr_implemented \<and> a \<noteq> CYCLE
      then (let s = snd (csr_write a (new old) s) in
            if always \<or> f_rd f \<noteq> 0 then set_reg (f_rd f) old s else s)
      else illegal instruction s)"

lemma csr_write_reg_file [simp]: "reg_file (snd (csr_write a v s)) = reg_file s"
  by (subst csr_write_frame) simp

lemma csr_scheme:
  "(case csr_read nr a s of (d, s1) \<Rightarrow>
      if csr_read_success s1 then
        (case csr_write a (g d s1) s1 of (ok, s2) \<Rightarrow> if \<not> ok then illegal ins s2 else h d s2)
      else illegal ins s1) =
   (let old = fst (csr_read nr a s); s1 = s\<lparr>csr_read_success := may_read a (cp s)\<rparr> in
    if may_read a (cp s) \<and> a \<in> set csr_implemented \<and> a \<noteq> CYCLE
    then h old (snd (csr_write a (g old s1) s1)) else illegal ins s1)"
proof -
  obtain d s1 where rd: "csr_read nr a s = (d, s1)" by (cases "csr_read nr a s")
  have s1: "s1 = s\<lparr>csr_read_success := may_read a (cp s)\<rparr>"
    using csr_read_state [of nr a s] by (simp add: rd)
  obtain ok s2 where wr: "csr_write a (g d s1) s1 = (ok, s2)" by (cases "csr_write a (g d s1) s1")
  have ok: "ok \<longleftrightarrow> a \<in> set csr_implemented \<and> a \<noteq> CYCLE" "\<not> ok \<Longrightarrow> s2 = s1"
    using csr_write_success [of a "g d s1" s1] csr_write_fail [of a "g d s1" s1] by (auto simp: wr)
  show ?thesis using wr ok by (auto simp: rd s1 Let_def)
qed

lemma MASK64_minus: "MASK64 - x = NOT x"
  by (simp add: not_eq_complement)

lemma csr_rmw_eq:
  "csrrw e f ins s = csr_rmw False (\<lambda>_. reg_file s (f_rs1 f)) e f ins s"
  "csrrc e f ins s = csr_rmw True (\<lambda>old. old AND NOT (reg_file s (f_rs1 f))) e f ins s"
  "csrrwi e f ins s = csr_rmw False (\<lambda>_. f_rs1 f) e f ins s"
  "csrrsi e f ins s = csr_rmw True (\<lambda>old. f_rs1 f OR old) e f ins s"
  "csrrci e f ins s = csr_rmw True (\<lambda>old. old AND NOT (f_rs1 f)) e f ins s"
  unfolding csrrw_def csrrc_def csrrwi_def csrrsi_def csrrci_def Let_def csr_scheme MASK64_minus
  by (simp_all add: csr_rmw_def Let_def)

lemma csrrs_eq:
  "csrrs e f ins s =
     (if f_imm11_0 f = CYCLE \<or> f_imm11_0 f = TIME \<or> f_imm11_0 f = INSTRET
      then set_reg (f_rd f) (fst (csr_read (no_return_value e) (f_imm11_0 f) s))
        (s\<lparr>csr_read_success := True\<rparr>)
      else csr_rmw True (\<lambda>old. reg_file s (f_rs1 f) OR old) e f ins s)"
proof (cases "f_imm11_0 f = CYCLE \<or> f_imm11_0 f = TIME \<or> f_imm11_0 f = INSTRET")
  case True
  then show ?thesis by (auto simp: csrrs_def csr_read_at)
next
  case False
  then show ?thesis unfolding csrrs_def Let_def if_not_P [OF False] csr_scheme
    by (simp add: csr_rmw_def Let_def)
qed

lemmas csr_instruction_eqs = csr_rmw_eq csrrs_eq


lemma csr_write_cp [simp]: "cp (snd (csr_write a v s)) = cp s"
  by (subst csr_write_frame) simp

lemma csr_read_reg_update [simp]:
  "fst (csr_read nr a (set_reg r v s)) = fst (csr_read nr a s)"
  by (cases "a \<in> set csr_implemented")
    ((elim csr_implemented_cases; simp add: csr_read_at), simp add: csr_read_other)




lemma csr_rmw_illegal:
  assumes "f_imm11_0 f \<notin> set csr_implemented \<or> f_imm11_0 f = CYCLE \<or> \<not> may_read (f_imm11_0 f) (cp s)"
  shows "csr_rmw always new e f ins s =
     illegal ins (s\<lparr>csr_read_success := may_read (f_imm11_0 f) (cp s)\<rparr>)"
  using assms by (auto simp: csr_rmw_def Let_def)

text \<open>No CSR but \<^verbatim>\<open>mstatus\<close> and \<^verbatim>\<open>sstatus\<close> is protected: the privilege level does not matter.\<close>

lemma csr_write_any_mode:
  "csr_write a v (s\<lparr>cp := p\<rparr>) = (fst (csr_write a v s), (snd (csr_write a v s))\<lparr>cp := p\<rparr>)"
  by (cases "a \<in> set csr_implemented")
    ((elim csr_implemented_cases; simp add: csr_write_at), simp add: csr_write_other)

section \<open>Returning from a trap\<close>

lemma sret_after_trap:
  assumes "cp s = SMODE \<or> cp s = UMODE"
  shows "exec_sret (trap_enter SMODE i code epc s) =
     (trap_enter SMODE i code epc s)\<lparr>PC := epc, cp := cp s,
       csrs := (csrs (trap_enter SMODE i code epc s))\<lparr>mstatus := (mstatus (csrs s))
         \<lparr>ms_mpp := plevel_code (cp s), ms_spp := 0, ms_spie := 1\<rparr>\<rparr>\<rparr>"
  using assms by (auto simp: exec_sret_def trap_enter_def Let_def plevel_of_def)

lemma mret_after_trap:
  "exec_mret (trap_enter MMODE i code epc s) =
     (trap_enter MMODE i code epc s)\<lparr>PC := epc, cp := cp s,
       csrs := (csrs (trap_enter MMODE i code epc s))\<lparr>mstatus := (mstatus (csrs s))
         \<lparr>ms_mpp := 0, ms_mie := 1, ms_mpie := 0\<rparr>\<rparr>\<rparr>"
  by (simp add: exec_mret_def trap_enter_def Let_def)

section \<open>Invariants of the CSR file\<close>

lemma csr_write_cycle_count [simp]: "cycle_count (snd (csr_write a v s)) = cycle_count s"
  by (subst csr_write_frame) simp

context csr_invariant
begin

lemma illegal: "P n (csrs (illegal ins s)) = P n (csrs s)"
  by (simp add: illegal_def inv_tval)

lemma csr_rmw:
  "P (cycle_count s) (csrs s) \<Longrightarrow>
   P (cycle_count (csr_rmw always new e f ins s)) (csrs (csr_rmw always new e f ins s))"
  by (simp add: csr_rmw_def Let_def inv_write illegal_def inv_tval)

lemma ret:
  assumes "P n (csrs s)"
  shows "P n (csrs (exec_mret s))" "P n (csrs (exec_sret s))"
  using assms by (simp_all add: exec_mret_def exec_sret_def inv_ret)

lemma exec_ecall:
  assumes "exec_ecall s = Inr fl" "P (cycle_count s) (csrs s)"
  shows "P (cycle_count (flow_state fl)) (csrs (flow_state fl))"
proof -
  from assms(1) obtain pc' s' where
    ex: "excep_function (PC s) 0xb 0x9 0x8 (cp s) s = Inr (pc', s')" and fl: "fl = Fall (s'\<lparr>PC := pc'\<rparr>)"
    by (auto simp: exec_ecall_def andThen_Inr_iff)
  have "P (cycle_count s) (csrs s')" by (rule excep [OF ex assms(2)]) simp_all
  moreover have "cycle_count s' = cycle_count s" by (subst excep_function_frame [OF ex]) simp
  ultimately show ?thesis by (simp add: fl)
qed

lemma exec_systm:
  assumes "exec_systm e f ins s = Inr fl" "P (cycle_count s) (csrs s)"
  shows "P (cycle_count (flow_state fl)) (csrs (flow_state fl))"
  using assms ret [of "cycle_count s" s]
  by (auto simp: exec_systm_def csr_instruction_eqs csr_rmw exec_mret_def exec_sret_def
      dest: exec_ecall split: if_splits)

end

section \<open>Further facts\<close>

text \<open>
  Each CSR instruction on a register that is not implemented, that the current level may not
  read, or that is \<^verbatim>\<open>cycle\<close> (which \<^verbatim>\<open>csr_write\<close> does not list) raises \<^verbatim>\<open>ILL_INS\<close> with the instruction
  in \<^verbatim>\<open>mtval\<close> and changes nothing else but the success flag; the exception is \<^verbatim>\<open>CSRRS\<close> on \<^verbatim>\<open>cycle\<close>,
  which reads the counter.
\<close>

theorem csr_access_faults:
  assumes "f_imm11_0 f \<notin> set csr_implemented \<or> f_imm11_0 f = CYCLE \<or> \<not> may_read (f_imm11_0 f) (cp s)"
    and "s1 = s\<lparr>csr_read_success := may_read (f_imm11_0 f) (cp s)\<rparr>"
  shows "csrrw e f ins s = illegal ins s1 \<and> csrrc e f ins s = illegal ins s1 \<and>
    csrrwi e f ins s = illegal ins s1 \<and> csrrsi e f ins s = illegal ins s1 \<and>
    csrrci e f ins s = illegal ins s1 \<and>
    csrrs e f ins s =
      (if f_imm11_0 f = CYCLE then set_reg (f_rd f) (cycle (csrs s)) s1 else illegal ins s1) \<and>
    mtval (csrs (illegal ins s1)) = ins \<and> ILL_INS (faults (illegal ins s1))"
proof -
  have "f_imm11_0 f \<noteq> TIME \<and> f_imm11_0 f \<noteq> INSTRET"
    using assms(1) by (auto simp: csr_implemented_def may_read_def)
  moreover have "may_read CYCLE (cp s)" by (simp add: may_read_def)
  ultimately show ?thesis
    using assms unfolding csr_instruction_eqs
    by (auto simp: csr_rmw_illegal csr_read_at illegal_def)
qed

theorem csr_access_faults_witness:
  "csrrw \<lparr>now = 0, getchar_result = EOF, no_return_value = 0\<rparr> ((decode 0)\<lparr>f_imm11_0 := 0x7A3\<rparr>) 0x7A309073
     bare_demo = illegal 0x7A309073 (bare_demo\<lparr>csr_read_success := True\<rparr>)"
  using csr_access_faults [of "(decode 0)\<lparr>f_imm11_0 := 0x7A3\<rparr>" bare_demo _
      "\<lparr>now = 0, getchar_result = EOF, no_return_value = 0\<rparr>" "0x7A309073", OF _ refl]
  by (simp add: csr_implemented_def may_read_def)

section \<open>Properties\<close>




text \<open>
  C39: an exception taken to supervisor mode and a following \<^verbatim>\<open>sret\<close>, or taken to machine mode and a
  following \<^verbatim>\<open>mret\<close>, come back to the faulting instruction (\<^verbatim>\<open>PC - 4\<close>) at the same privilege level
  with the same registers and memory. \<^verbatim>\<open>sret\<close> restores \<^verbatim>\<open>mstatus.sie\<close>; \<^verbatim>\<open>mret\<close> sets \<^verbatim>\<open>mstatus.mie\<close>
  whatever it was, and both leave \<^verbatim>\<open>mstatus.mpp\<close> changed.
\<close>

theorem trap_return:
  assumes "excep_function pc m se u (cp s) s = Inr (pc', s')"
    and "r = (if cp s' = SMODE then exec_sret s' else exec_mret s')"
  shows "PC r = pc - 4 \<and> cp r = cp s \<and> reg_file r = reg_file s \<and> memory r = memory s \<and>
    mstatus (csrs r) = (if cp s' = SMODE
      then (mstatus (csrs s))\<lparr>ms_mpp := plevel_code (cp s), ms_spp := 0, ms_spie := 1\<rparr>
      else (mstatus (csrs s))\<lparr>ms_mpp := 0, ms_mie := 1, ms_mpie := 0\<rparr>)"
  using assms(1)
proof (cases rule: excep_function_Inr)
  case (1 h)
  note s' = 1(7)
  have cp: "cp s' = h" unfolding s' using 1(3,4) by (rule trap_enter_cp [rotated])
  show ?thesis
  proof (cases "h = SMODE")
    case True
    then have "cp s = SMODE \<or> cp s = UMODE" using 1(2,5) by (cases "cp s") (simp_all add: less_eq_plevel_t_def word_le_nat_alt)
    from sret_after_trap [OF this, where i = 0] True cp show ?thesis
      unfolding assms(2) s' by (simp add: trap_enter_def Let_def)
  next
    case False
    with 1(3,4) have "h = MMODE" by (cases h) simp_all
    with mret_after_trap [of 0] cp show ?thesis
      unfolding assms(2) s' by (simp add: trap_enter_def Let_def)
  qed
qed

theorem trap_return_witness:
  "\<exists>s'. excep_function 4 11 9 8 MMODE bare_demo = Inr (0, s') \<and> PC (exec_mret s') = 0 \<and>
     cp (exec_mret s') = MMODE \<and> reg_file (exec_mret s') = reg_file bare_demo"
proof -
  let ?s' = "trap_enter MMODE 0 11 0 bare_demo"
  have cp: "cp bare_demo = MMODE" by (simp add: bare_demo_def emu_init_def)
  have "tv_base (mtvec (csrs bare_demo)) = 0"
    by (simp add: bare_demo_def emu_init_def csr_init_def tvec_init_def)
  then have ex: "excep_function 4 11 9 8 (cp bare_demo) bare_demo = Inr (0, ?s')"
    by (simp add: cp excep_function_eq ecode_for_def trap_mode_select_eq handler_tvec_def)
  have "cp ?s' = MMODE" by (simp add: trap_enter_cp)
  then show ?thesis
    using trap_return [OF ex refl] ex by (simp add: cp)
qed

end
