(* ===== verification/Step.thy ===== *)
theory Step
  imports ALU Atomics System
begin

text \<open>
  One iteration of the main loop of \<^verbatim>\<open>emu.cpp\<close> (lines 227 to 1732), the loader before it, and runs of
  the loop. An iteration ends the process, or yields the state of the next one.
\<close>

section \<open>The loader\<close>

text \<open>
  Line \<open>i\<close> of the hex file is word \<open>i\<close> of 32 bits: the even ones replace a memory word, the odd
  ones are added to its upper half. \<open>ws\<close> are the values \<^verbatim>\<open>stoul\<close> returns for the lines.
\<close>

fun load_lines :: "u64 \<Rightarrow> u64 list \<Rightarrow> memory \<Rightarrow> memory result" where
  "load_lines i [] m = Inr m"
| "load_lines i (temp # ws) m =
     andThen (if i mod 2 = 0 then mem_put m (i div 2) temp
              else andThen (mem_at m (i div 2)) (\<lambda>w.
                mem_put m (i div 2) (w OR push_bit 32 temp)))
       (load_lines (i + 1) ws)"

section \<open>Executing an instruction\<close>

text \<open>\<^verbatim>\<open>switch(opcode)\<close>; \<^verbatim>\<open>PC\<close> is already advanced.\<close>

definition exec :: "env \<Rightarrow> u64 \<Rightarrow> emu \<Rightarrow> flow result" where
  "exec e instruction s =
     (let f = decode instruction; rd = f_rd f; a = reg_file s (f_rs1 f); b = reg_file s (f_rs2 f);
          put = (\<lambda>r. case r of None \<Rightarrow> Fall s | Some v \<Rightarrow> Fall (set_reg rd v s)) in
      case f_opcode f of
        Some lui \<Rightarrow>
          Inr (Fall (set_reg rd (sign_extend (instruction AND 0xFFFFF000) 32) s))
      | Some auipc \<Rightarrow>
          Inr (Fall (set_reg rd (PC s - 4 + sign_extend (push_bit 12 (f_imm31_12 f)) 32) s))
      | Some jump \<Rightarrow>
          (let wb_data = PC s; s = s\<lparr>PC := PC s - 4 + sign_extend (f_imm_j f) 21\<rparr> in
           Inr (Fall (set_reg rd wb_data s)))
      | Some jumpr \<Rightarrow>
          (let wb_data = PC s;
               s = s\<lparr>PC := (a + sign_extend (f_imm11_0 f) 12) AND 0xFFFFFFFFFFFFFFFE\<rparr> in
           Inr (Fall (set_reg rd wb_data s)))
      | Some cjump \<Rightarrow>
          (let s = s\<lparr>branch := branch_cond (f_func3 f) a b (branch s)\<rparr> in
           Inr (Fall (if branch s then s\<lparr>PC := PC s - 4 + sign_extend (f_imm_b f) 13\<rparr> else s)))
      | Some load \<Rightarrow> exec_load e f s
      | Some store \<Rightarrow> exec_store f s
      | Some iops \<Rightarrow>
          Inr (Fall (set_reg rd (exec_iops (f_func3 f) (f_func7 f) (f_imm11_0 f) a) s))
      | Some iops64 \<Rightarrow>
          Inr (Fall (set_reg rd (exec_iops64 (f_func3 f) (f_func7 f) (f_imm11_0 f) a) s))
      | Some rops \<Rightarrow> andThen (exec_rops (f_func3 f) (f_func7 f) a b) (\<lambda>r. Inr (put r))
      | Some rops64 \<Rightarrow> andThen (exec_rops64 (f_func3 f) (f_func7 f) a b) (\<lambda>r. Inr (put r))
      | Some amo \<Rightarrow> exec_amo f instruction s
      | Some fence \<Rightarrow> Inr (Continue s)
      | Some systm \<Rightarrow> exec_systm e f instruction s
      | Some _ \<Rightarrow> Inr (Fall (illegal instruction s))
      | None \<Rightarrow> Inr (Fall s))"

section \<open>Interrupts and exceptions at the end of an iteration\<close>

abbreviation CAUSE_MISALIGNED_FETCH :: u64 where "CAUSE_MISALIGNED_FETCH \<equiv> 0x0"
abbreviation CAUSE_FETCH_ACCESS :: u64 where "CAUSE_FETCH_ACCESS \<equiv> 0x1"
abbreviation CAUSE_ILLEGAL_INSTRUCTION :: u64 where "CAUSE_ILLEGAL_INSTRUCTION \<equiv> 0x2"
abbreviation CAUSE_BREAKPOINT :: u64 where "CAUSE_BREAKPOINT \<equiv> 0x3"
abbreviation CAUSE_MISALIGNED_LOAD :: u64 where "CAUSE_MISALIGNED_LOAD \<equiv> 0x4"
abbreviation CAUSE_LOAD_ACCESS :: u64 where "CAUSE_LOAD_ACCESS \<equiv> 0x5"
abbreviation CAUSE_MISALIGNED_STORE :: u64 where "CAUSE_MISALIGNED_STORE \<equiv> 0x6"
abbreviation CAUSE_FETCH_PAGE_FAULT :: u64 where "CAUSE_FETCH_PAGE_FAULT \<equiv> 0xc"

text \<open>The first interrupt of the \<^verbatim>\<open>else if\<close> chain that is enabled and pending.\<close>

definition pending_interrupt :: "csr_t \<Rightarrow> u64 option" where
  "pending_interrupt c =
     (if ie_MEIE (mie c) AND ip_MEIP (mip c) \<noteq> 0 then Some 0xb
      else if ie_MTIE (mie c) AND ip_MTIP (mip c) \<noteq> 0 then Some 0x7
      else if ie_MSIE (mie c) AND ip_MSIP (mip c) \<noteq> 0 then Some 0x3
      else if ie_SEIE (mie c) AND ip_SEIP (mip c) \<noteq> 0 then Some 0x9
      else if ie_STIE (mie c) AND ip_STIP (mip c) \<noteq> 0 then Some 0x5
      else if ie_SSIE (mie c) AND ip_SSIP (mip c) \<noteq> 0 then Some 0x1
      else if ie_UEIE (mie c) AND ip_UEIP (mip c) \<noteq> 0 then Some 0x8
      else if ie_UTIE (mie c) AND ip_UTIP (mip c) \<noteq> 0 then Some 0x4
      else if ie_USIE (mie c) AND ip_USIP (mip c) \<noteq> 0 then Some 0x0
      else None)"

text \<open>One branch of the exception chain: clear the flag, enter the handler.\<close>

definition sync_trap :: "(fault_flags \<Rightarrow> fault_flags) \<Rightarrow> u64 \<Rightarrow> bool \<Rightarrow> emu \<Rightarrow> emu result" where
  "sync_trap clear cause wt s =
     (let s = faults_update clear s in
      andThen (excep_function (PC s) cause cause cause (cp s) s) (\<lambda>(pc, s).
      Inr (s\<lparr>PC := pc, write_tval := wt\<rparr>)))"

definition take_traps :: "emu \<Rightarrow> emu result" where
  "take_traps s =
     (let fl = faults s in
      if LD_ACC_FAULT fl then sync_trap (LD_ACC_FAULT_update (\<lambda>_. False)) CAUSE_LOAD_ACCESS False s
      else case pending_interrupt (csrs s) of
        Some cause \<Rightarrow>
          andThen (interrupt_function (PC s) cause (cp s) s) (\<lambda>(pc, s). Inr (s\<lparr>PC := pc\<rparr>))
      | None \<Rightarrow>
          if INS_ACC_FAULT fl
          then sync_trap (INS_ACC_FAULT_update (\<lambda>_. False)) CAUSE_FETCH_ACCESS False s
          else if ILL_INS fl
          then sync_trap (ILL_INS_update (\<lambda>_. False)) CAUSE_ILLEGAL_INSTRUCTION True s
          else if EBREAK fl then sync_trap (EBREAK_update (\<lambda>_. False)) CAUSE_BREAKPOINT False s
          else if INS_ADDR_MISSALIG fl
          then sync_trap (INS_ADDR_MISSALIG_update (\<lambda>_. False)) CAUSE_MISALIGNED_FETCH True s
          else if LD_ADDR_MISSALIG fl
          then sync_trap (LD_ADDR_MISSALIG_update (\<lambda>_. False)) CAUSE_MISALIGNED_LOAD True s
          else if STORE_ADDR_MISSALIG fl
          then sync_trap (STORE_ADDR_MISSALIG_update (\<lambda>_. False)) CAUSE_MISALIGNED_STORE True s
          else Inr s)"

text \<open>What the end of the loop body does before it looks for traps.\<close>

definition refresh :: "emu \<Rightarrow> emu" where
  "refresh s =
     (let s = upd_mstatus (\<lambda>m. m\<lparr>ms_sd := if ms_fs m = 3 then 1 else 0\<rparr>) s in
      upd_mip (ip_STIP_update (\<lambda>_. of_bool (mtime s \<ge> mtimecmp s))) s)"

definition finish :: "u64 \<Rightarrow> emu \<Rightarrow> emu result" where
  "finish lPC s =
     andThen (take_traps (refresh s)) (\<lambda>s. if lPC = PC s then Inl Break else Inr s)"

section \<open>One iteration\<close>

definition tick :: "env \<Rightarrow> emu \<Rightarrow> emu" where
  "tick e s =
     (let s = s\<lparr>cycle_count := cycle_count s + 1\<rparr>;
          s = csrs_update (\<lambda>c. c\<lparr>cycle := cycle_count s, instret := cycle_count s\<rparr>) s;
          s = memory_update (\<lambda>m. m(MTIME_WORD := now e * 10)) s in
      csrs_update (\<lambda>c. c\<lparr>time_csr := mtime s\<rparr>) s)"

definition fetch_page_fault :: "emu \<Rightarrow> emu result" where
  "fetch_page_fault s =
     (let s = set_mtval (PC s) s in
      andThen (excep_function (PC s + 4) CAUSE_FETCH_PAGE_FAULT CAUSE_FETCH_PAGE_FAULT
        CAUSE_FETCH_PAGE_FAULT (cp s) s) (\<lambda>(pc, s).
      let s = s\<lparr>PC := pc\<rparr>; s = set_utval (mtval (csrs s)) s in
      Inr (set_stval (mtval (csrs s)) s)))"

text \<open>The part before \<^verbatim>\<open>switch(opcode)\<close> that changes state once the instruction is known.\<close>

definition issue :: "emu \<Rightarrow> emu" where
  "issue s =
     (let s = set_reg 0 0 s;
          s = (if amo_reserve_valid64 s then s\<lparr>LR_count64 := LR_count64 s + 1\<rparr> else s);
          s = (if amo_reserve_valid s then s\<lparr>LR_count := LR_count s + 1\<rparr> else s) in
      s\<lparr>PC := PC s + 4\<rparr>)"

definition step :: "env \<Rightarrow> emu \<Rightarrow> emu result" where
  "step e s =
     (let s = tick e s in
      andThen (translate (PC s) INST (cp s) s) (\<lambda>PC_phy.
      if cp s = UMODE \<and> PC s = 0 then Inl (Exit 0)
      else if PC_phy = -1 then fetch_page_fault s
      else if PC_phy \<ge> DRAM_BASE then
        andThen (getINST ((PC_phy - DRAM_BASE) div 4) (memory s)) (\<lambda>instruction.
        let lPC = PC s in
        andThen (exec e instruction (issue s)) (\<lambda>fl.
        case fl of Continue s \<Rightarrow> Inr s | Fall s \<Rightarrow> finish lPC s))
      else Inl Break))"

fun run :: "env list \<Rightarrow> emu \<Rightarrow> emu result" where
  "run [] s = Inr s"
| "run (e # es) s = andThen (step e s) (run es)"

text \<open>The loop as a transition relation, and the states the process can be in.\<close>

inductive steps :: "emu \<Rightarrow> nat \<Rightarrow> emu \<Rightarrow> bool" where
  start: "steps s 0 s"
| more: "steps s n s' \<Longrightarrow> step e s' = Inr s'' \<Longrightarrow> steps s (Suc n) s''"

inductive_cases steps_SucE: "steps s (Suc n) s'"

section \<open>Runs\<close>

lemma steps_cons: "step e s = Inr s' \<Longrightarrow> steps s' n s'' \<Longrightarrow> steps s (Suc n) s''"
  by (rotate_tac, induction rule: steps.induct) (auto intro: steps.intros)

lemma run_steps: "run es s = Inr s' \<Longrightarrow> steps s (length es) s'"
  by (induction es arbitrary: s) (auto simp: andThen_Inr_iff intro: steps.intros steps_cons)

lemma run_append: "run (es @ es') s = andThen (run es s) (run es')"
proof (induction es arbitrary: s)
  case (Cons e es)
  then show ?case by (cases "step e s") simp_all
qed simp

lemma steps_run: "steps s n s' \<Longrightarrow> \<exists>es. length es = n \<and> run es s = Inr s'"
proof (induction rule: steps.induct)
  case (start s)
  show ?case by (intro exI [of _ "[]"]) simp
next
  case (more s n s' e s'')
  then obtain es where "length es = n" "run es s = Inr s'" by blast
  with more.hyps(2) show ?case
    by (intro exI [of _ "es @ [e]"]) (simp add: run_append)
qed

section \<open>What an iteration leaves alone\<close>

lemma sync_trap_Inr:
  assumes "sync_trap clear cause wt s = Inr s'"
  obtains pc s1 where "excep_function (PC s) cause cause cause (cp (faults_update clear s))
      (faults_update clear s) = Inr (pc, s1)" "s' = s1\<lparr>PC := pc, write_tval := wt\<rparr>"
    "s1 = (faults_update clear s)\<lparr>cp := cp s1, csrs := csrs s1\<rparr>"
proof -
  from assms obtain pc s1 where *: "excep_function (PC s) cause cause cause
      (cp (faults_update clear s)) (faults_update clear s) = Inr (pc, s1)"
    "s' = s1\<lparr>PC := pc, write_tval := wt\<rparr>"
    by (auto simp: sync_trap_def Let_def andThen_Inr_iff)
  moreover note excep_function_frame [OF *(1)]
  ultimately show thesis by (rule that)
qed

lemma pending_interrupt_bit: "pending_interrupt c = Some cause \<Longrightarrow> \<not> bit cause 63"
  by (auto simp: pending_interrupt_def split: if_splits)

context csr_invariant
begin

lemma exec:
  assumes "exec e ins s = Inr fl" "P (cycle_count s) (csrs s)"
  shows "P (cycle_count (flow_state fl)) (csrs (flow_state fl))"
  using assms
  by (auto simp: exec_def Let_def andThen_Inr_iff illegal_def inv_tval
      dest: exec_load exec_store exec_amo exec_systm split: option.splits opcode_t.splits)

lemma sync_trap:
  assumes "sync_trap clear cause wt s = Inr s'" "P (cycle_count s) (csrs s)" "\<not> bit cause 63"
  shows "P (cycle_count s') (csrs s')"
  using assms(1)
proof (cases rule: sync_trap_Inr)
  case (1 pc s1)
  have "P (cycle_count s) (csrs s1)" by (rule excep [OF 1(1)]) (simp_all add: assms)
  moreover have "cycle_count s1 = cycle_count s" by (subst 1(3)) simp
  ultimately show ?thesis by (simp add: 1(2))
qed

lemma take_traps:
  assumes "take_traps s = Inr s'" "P (cycle_count s) (csrs s)"
  shows "P (cycle_count s') (csrs s')"
proof -
  have int: "P (cycle_count s') (csrs s')"
    if "pending_interrupt (csrs s) = Some c" "interrupt_function (PC s) c (cp s) s = Inr (pc, s1)"
      "s' = s1\<lparr>PC := pc\<rparr>" for c pc s1
  proof -
    have "cycle_count s1 = cycle_count s" by (subst interrupt_function_frame [OF that(2)]) simp
    with interrupt [OF that(2) assms(2)] pending_interrupt_bit [OF that(1)] that(3)
    show ?thesis by simp
  qed
  show ?thesis
    using assms int
    by (auto simp: take_traps_def Let_def andThen_Inr_iff elim: sync_trap
        split: if_splits option.splits)
qed

lemma refresh: "P (cycle_count s) (csrs s) \<Longrightarrow> P (cycle_count (refresh s)) (csrs (refresh s))"
  by (simp add: refresh_def Let_def inv_sd inv_irq)

lemma finish:
  assumes "finish lPC s = Inr s'" "P (cycle_count s) (csrs s)"
  shows "P (cycle_count s') (csrs s')"
  using assms refresh [of s]
  by (auto simp: finish_def andThen_Inr_iff dest: take_traps split: if_splits)

lemma fetch_page_fault:
  assumes "fetch_page_fault s = Inr s'" "P (cycle_count s) (csrs s)"
  shows "P (cycle_count s') (csrs s')"
proof -
  from assms(1) obtain pc s1 where ex: "excep_function (PC s + 4) 0xc 0xc 0xc
      (cp (set_mtval (PC s) s)) (set_mtval (PC s) s) = Inr (pc, s1)"
    and s': "cycle_count s' = cycle_count s1"
      "csrs s' = stval_update (\<lambda>_. mtval (csrs s1)) (utval_update (\<lambda>_. mtval (csrs s1)) (csrs s1))"
    by (auto simp: fetch_page_fault_def Let_def andThen_Inr_iff)
  have "P (cycle_count s) (csrs s1)" by (rule excep [OF ex]) (simp_all add: assms(2) inv_tval)
  moreover have "cycle_count s1 = cycle_count s" by (subst excep_function_frame [OF ex]) simp
  ultimately show ?thesis by (simp add: s' inv_tval)
qed

end

text \<open>An invariant of the CSR file that the clock keeps is an invariant of the loop.\<close>

locale loop_invariant = csr_invariant +
  assumes inv_tick: "P n c \<Longrightarrow> P (n + 1) (c\<lparr>cycle := n + 1, instret := n + 1, time_csr := t\<rparr>)"
begin

lemma tick: "P (cycle_count s) (csrs s) \<Longrightarrow> P (cycle_count (tick e s)) (csrs (tick e s))"
  using inv_tick [of "cycle_count s" "csrs s"] by (simp add: tick_def Let_def mtime_def)

lemma step:
  assumes "step e s = Inr s'" "P (cycle_count s) (csrs s)"
  shows "P (cycle_count s') (csrs s')"
proof -
  have issue: "cycle_count (issue s) = cycle_count s" "csrs (issue s) = csrs s" for s
    by (simp_all add: issue_def Let_def)
  have "P (cycle_count s') (csrs s')"
    if "exec e i (issue t) = Inr fl" "(case fl of Continue s \<Rightarrow> Inr s | Fall s \<Rightarrow> finish l s) = Inr s'"
      "P (cycle_count t) (csrs t)" for i t fl l
    using exec [OF that(1)] that(2,3) by (cases fl) (auto simp: issue intro: finish)
  then show ?thesis
    using assms(1) tick [OF assms(2), of e]
    by (auto simp: step_def Let_def andThen_Inr_iff intro: fetch_page_fault split: if_splits)
qed

lemma steps: "steps s n s' \<Longrightarrow> P (cycle_count s) (csrs s) \<Longrightarrow> P (cycle_count s') (csrs s')"
  by (induction rule: steps.induct) (auto intro: step)

end

interpretation wf_loop: loop_invariant "\<lambda>_. csr_ok"
  by unfold_locales (simp add: csr_ok_def)

interpretation cycle_loop: loop_invariant "\<lambda>n c. cycle c = n"
  by unfold_locales simp

section \<open>Counting iterations\<close>

interpretation counted: csr_invariant "\<lambda>n c. n = k" for k
  by unfold_locales simp_all

lemma step_cycle_count:
  assumes "step e s = Inr s'"
  shows "cycle_count s' = cycle_count s + 1"
proof -
  have t: "cycle_count (issue (tick e s)) = cycle_count s + 1" "cycle_count (tick e s) = cycle_count s + 1"
    by (simp_all add: issue_def tick_def Let_def)
  have "cycle_count s' = cycle_count s + 1"
    if "exec e i (issue (tick e s)) = Inr fl"
      "(case fl of Continue s \<Rightarrow> Inr s | Fall s \<Rightarrow> finish l s) = Inr s'" for i fl l
    using counted.exec [OF that(1) t(1)] that(2) counted.finish [of l _ s' "cycle_count s + 1"]
    by (cases fl) auto
  then show ?thesis
    using assms counted.fetch_page_fault [OF _ t(2)]
    by (auto simp: step_def Let_def andThen_Inr_iff split: if_splits)
qed

lemma steps_cycle_count: "steps s n s' \<Longrightarrow> cycle_count s' = cycle_count s + of_nat n"
  by (induction rule: steps.induct) (simp_all add: step_cycle_count)

section \<open>The initial state\<close>

lemma emu_init_wf: "csr_ok (csrs (emu_init m t))"
  using csr_ok_init by (simp add: emu_init_def csr_ok_def mstatus_ok_def)

lemma emu_init_cycle: "cycle (csrs (emu_init m t)) = cycle_count (emu_init m t)"
  by (simp add: emu_init_def csr_init_def)

section \<open>Fetch, execute, finish\<close>

text \<open>The fetched word is the 32-bit value at the physical address.\<close>

lemma getINST_ram:
  assumes "lane pa = 0 \<or> lane pa = 4" "pa - DRAM_BASE < DRAM_SIZE"
  shows "getINST ((pa - DRAM_BASE) div 4) m = Inr (ram_value m pa 4)"
proof -
  define d where "d = pa - DRAM_BASE"
  have idx: "d div 4 div 2 = ram_index pa"
    by (simp add: word_unat_eq_iff unat_div ram_index_unat d_def flip: div_mult2_eq)
  have mem: "mem_at m (ram_index pa) = Inr (m (ram_index pa))"
    by (simp add: mem_at_def ram_index_less [OF assms(2)])
  have lane: "unat d mod 8 = lane pa" using lane_unat [of pa] by (simp add: d_def)
  have even: "d div 4 mod 2 = 0 \<longleftrightarrow> lane pa = 0"
  proof -
    have "unat (d div 4 mod 2) = unat d div 4 mod 2" by (simp add: unat_div unat_mod)
    moreover have "lane pa = 4 * (unat d div 4 mod 2) + unat d mod 4"
      using mod_mult2_eq [of "unat d" 4 2] lane by simp
    moreover have "unat d mod 4 < 4" by simp
    ultimately have "unat (d div 4 mod 2) = 0 \<longleftrightarrow> lane pa = 0" using assms(1) by linarith
    then show ?thesis by (simp only: unat_eq_0)
  qed
  show ?thesis
    using assms(1)
  proof
    assume "lane pa = 0"
    then show ?thesis
      using even by (simp add: getINST_def idx mem MASK32_and ram_value_def get_field_def flip: d_def)
  next
    assume l: "lane pa = 4"
    have "drop_bit 32 w = get_field 32 32 w" for w
      by (rule bit_word_eqI) (auto simp: bit_simps dest: bit_imp_le_length)
    with l show ?thesis using even by (simp add: getINST_def idx mem ram_value_def flip: d_def)
  qed
qed

lemma step_fetch:
  fixes e s
  defines "t \<equiv> tick e s"
  assumes "translate (PC s) INST (cp s) t = Inr pa" "pa \<noteq> -1" "\<not> (cp s = UMODE \<and> PC s = 0)"
    and "DRAM_BASE \<le> pa" "pa - DRAM_BASE < DRAM_SIZE" "lane pa = 0 \<or> lane pa = 4"
  shows "step e s = andThen (exec e (ram_value (memory t) pa 4) (issue t)) (\<lambda>fl.
    case fl of Continue s \<Rightarrow> Inr s | Fall s' \<Rightarrow> finish (PC s) s')"
proof -
  have t: "PC t = PC s" "cp t = cp s" by (simp_all add: t_def tick_def Let_def)
  show ?thesis
    unfolding step_def Let_def t_def [symmetric] t assms(2) andThen_simps
    using assms(3-) by (auto simp: getINST_ram)
qed

text \<open>With nothing pending and no fault raised, the end of the body only refreshes the state.\<close>

definition quiet :: "emu \<Rightarrow> bool" where
  "quiet s \<longleftrightarrow> faults s = no_faults \<and> pending_interrupt (csrs (refresh s)) = None"

lemma finish_quiet:
  assumes "quiet s"
  shows "finish lPC s = (if lPC = PC s then Inl Break else Inr (refresh s))"
proof -
  have "faults (refresh s) = no_faults" "PC (refresh s) = PC s"
    using assms by (simp_all add: quiet_def refresh_def Let_def)
  then show ?thesis
    using assms by (simp add: finish_def take_traps_def Let_def quiet_def no_faults_def)
qed

lemma refresh_simps:
  "PC (refresh s) = PC s" "reg_file (refresh s) = reg_file s" "memory (refresh s) = memory s"
  "cp (refresh s) = cp s" "faults (refresh s) = faults s" "console (refresh s) = console s"
  by (simp_all add: refresh_def Let_def)

lemma issue_simps:
  "PC (issue s) = PC s + 4" "reg_file (issue s) = (reg_file s)(0 := 0)" "memory (issue s) = memory s"
  "cp (issue s) = cp s" "faults (issue s) = faults s" "csrs (issue s) = csrs s"
  "console (issue s) = console s"
  by (simp_all add: issue_def Let_def)

lemma tick_simps:
  "PC (tick e s) = PC s" "reg_file (tick e s) = reg_file s" "cp (tick e s) = cp s"
  "faults (tick e s) = faults s" "memory (tick e s) = (memory s)(MTIME_WORD := now e * 10)"
  "console (tick e s) = console s"
  by (simp_all add: tick_def Let_def)

lemma quiet_cong: "csrs s' = csrs s \<Longrightarrow> memory s' = memory s \<Longrightarrow> faults s' = faults s \<Longrightarrow> quiet s' = quiet s"
  by (simp add: quiet_def refresh_def Let_def mtime_def mtimecmp_def)

section \<open>A fetched instruction\<close>

text \<open>The iteration that starts in \<open>s\<close> executes the instruction \<open>ins\<close> from RAM.\<close>

definition fetches :: "env \<Rightarrow> emu \<Rightarrow> u64 \<Rightarrow> bool" where
  "fetches e s ins \<longleftrightarrow>
     (\<exists>pa. translate (PC s) INST (cp s) (tick e s) = Inr pa \<and> pa \<noteq> -1 \<and>
       \<not> (cp s = UMODE \<and> PC s = 0) \<and> DRAM_BASE \<le> pa \<and> pa - DRAM_BASE < DRAM_SIZE \<and>
       (lane pa = 0 \<or> lane pa = 4) \<and> ins = ram_value (memory (tick e s)) pa 4)"

lemma step_fetches:
  assumes "fetches e s ins"
  shows "step e s = andThen (exec e ins (issue (tick e s))) (\<lambda>fl.
    case fl of Continue s \<Rightarrow> Inr s | Fall s' \<Rightarrow> finish (PC s) s')"
  using assms unfolding fetches_def by (auto simp: step_fetch)

lemma fetches_bare:
  assumes "sa_MODE (satp (csrs s)) = 0" "cp s \<noteq> UMODE" "PC s \<noteq> -1" "DRAM_BASE \<le> PC s"
    and "PC s - DRAM_BASE < DRAM_SIZE" "lane (PC s) = 0 \<or> lane (PC s) = 4"
  shows "fetches e s (ram_value (memory (tick e s)) (PC s) 4)"
proof -
  have "sa_MODE (satp (csrs (tick e s))) = 0" using assms(1) by (simp add: tick_def Let_def)
  with assms show ?thesis by (auto simp: fetches_def translate_bare)
qed

text \<open>An environment to try the loop in: no input, and the clock at \<open>t\<close>.\<close>

abbreviation env_demo :: "u64 \<Rightarrow> env" where
  "env_demo t \<equiv> \<lparr>now = t, getchar_result = EOF, no_return_value = 0\<rparr>"

end
