(* ===== verification/Temu_Loop.thy ===== *)
theory Temu_Loop
  imports Step Virtio_Block
begin

text \<open>
  The main loop of the build with \<^verbatim>\<open>TEMU\<close> defined, the one the \<^verbatim>\<open>Makefile\<close> makes: the loop of
  \<open>Step\<close> on a machine with the block device on its bus. Loads and stores have one more branch, to the
  registers of the device, and before the loop \<^verbatim>\<open>main\<close> creates the disk and the device.

  The device is a parameter: \<open>device_recv\<close> and \<open>config_write\<close> are its callbacks and \<open>'d\<close> its state.
  \<open>None\<close> means that a store to the notification register does not return.
\<close>

section \<open>The iteration\<close>

datatype 'd tflow = TFall "'d vm" | TContinue "'d vm"

primrec tflow_state :: "'d tflow \<Rightarrow> 'd vm" where
  "tflow_state (TFall s) = s"
| "tflow_state (TContinue s) = s"

text \<open>What only concerns the hart, on the whole machine.\<close>

definition on_hart :: "emu result \<Rightarrow> 'd vm \<Rightarrow> 'd vm result" where
  "on_hart r s = map_sum id (\<lambda>e. s\<lparr>vm_emu := e\<rparr>) r"

definition hart_flow :: "flow result \<Rightarrow> 'd vm \<Rightarrow> 'd tflow result" where
  "hart_flow r s = map_sum id (\<lambda>fl. case fl of Fall e \<Rightarrow> TFall (s\<lparr>vm_emu := e\<rparr>)
     | Continue e \<Rightarrow> TContinue (s\<lparr>vm_emu := e\<rparr>)) r"

definition at_virtio :: "u64 \<Rightarrow> bool" where
  "at_virtio addr \<longleftrightarrow> addr \<ge> VIRTIO_BASE \<and> addr \<le> VIRTIO_BASE + VIRTIO_SIZE"

text \<open>Where a load takes its data from; the device comes after CLINT and PLIC.\<close>

definition load_source_temu :: "u64 \<Rightarrow> 'd vm \<Rightarrow> (u64 \<times> u64 \<times> 'd vm) result" where
  "load_source_temu load_addr_phy s =
     (if load_addr_phy \<ge> DRAM_BASE \<or>
         load_addr_phy \<ge> CLINT_BASE \<and> load_addr_phy \<le> CLINT_BASE + CLINT_SIZE \<or>
         load_addr_phy \<ge> PLIC_BASE \<and> load_addr_phy \<le> PLIC_BASE + PLIC_SIZE then
        map_sum id (\<lambda>(addr, load_data, e). (addr, load_data, s\<lparr>vm_emu := e\<rparr>))
          (load_source load_addr_phy (vm_emu s))
      else if at_virtio load_addr_phy then
        andThen (virtio_load load_addr_phy (vm_dev s)) (\<lambda>load_data. Inr (load_addr_phy, load_data, s))
      else Inl (Exit 0))"

definition exec_load_temu :: "env \<Rightarrow> fields \<Rightarrow> 'd vm \<Rightarrow> 'd tflow result" where
  "exec_load_temu e f s =
     (let h = vm_emu s; load_addr = reg_file h (f_rs1 f) + sign_extend (f_imm11_0 f) 12 in
      if load_addr \<noteq> FIFO_ADDR_RX \<and> load_addr \<noteq> FIFO_ADDR_TX then
        andThen (translate load_addr LOAD (cp h) h) (\<lambda>load_addr_phy.
        if load_addr_phy = -1 then hart_flow (load_page_fault load_addr h) s
        else andThen (load_source_temu load_addr_phy s) (\<lambda>(load_addr_phy, load_data, s).
          Inr (TFall (s\<lparr>vm_emu :=
            load_writeback (f_func3 f) (f_rd f) load_addr load_addr_phy load_data (vm_emu s)\<rparr>))))
      else hart_flow (exec_load e f h) s)"

text \<open>
  The range of the device overlaps no other, so its branch can come first; the rest of the case is
  that of the other build.
\<close>

definition exec_store_temu ::
    "'d device_recv \<Rightarrow> ('d vm \<Rightarrow> 'd vm) option \<Rightarrow> fields \<Rightarrow> 'd vm \<Rightarrow> 'd tflow result option" where
  "exec_store_temu device_recv config_write f s =
     (let h = vm_emu s; store_addr = reg_file h (f_rs1 f) + sign_extend (f_imm_s f) 12;
          b = reg_file h (f_rs2 f) in
      if store_addr \<noteq> FIFO_ADDR_TX then
        (case translate store_addr STOR (cp h) h of
           Inl x \<Rightarrow> Some (Inl x)
         | Inr store_addr_phy \<Rightarrow>
             if at_virtio store_addr_phy
             then map_option (map_sum id TFall) (virtio_store device_recv config_write store_addr_phy b s)
             else Some (hart_flow (exec_store f h) s))
      else Some (hart_flow (exec_store f h) s))"

definition exec_temu ::
    "'d device_recv \<Rightarrow> ('d vm \<Rightarrow> 'd vm) option \<Rightarrow> env \<Rightarrow> u64 \<Rightarrow> 'd vm \<Rightarrow> 'd tflow result option" where
  "exec_temu device_recv config_write e instruction s =
     (let f = decode instruction in
      case f_opcode f of
        Some load \<Rightarrow> Some (exec_load_temu e f s)
      | Some store \<Rightarrow> exec_store_temu device_recv config_write f s
      | _ \<Rightarrow> Some (hart_flow (exec e instruction (vm_emu s)) s))"

definition step_temu ::
    "'d device_recv \<Rightarrow> ('d vm \<Rightarrow> 'd vm) option \<Rightarrow> env \<Rightarrow> 'd vm \<Rightarrow> 'd vm result option" where
  "step_temu device_recv config_write e s =
     (let s = s\<lparr>vm_emu := tick e (vm_emu s)\<rparr>; h = vm_emu s in
      case translate (PC h) INST (cp h) h of
        Inl x \<Rightarrow> Some (Inl x)
      | Inr PC_phy \<Rightarrow>
          if cp h = UMODE \<and> PC h = 0 then Some (Inl (Exit 0))
          else if PC_phy = -1 then Some (on_hart (fetch_page_fault h) s)
          else if PC_phy \<ge> DRAM_BASE then
            (case getINST ((PC_phy - DRAM_BASE) div 4) (memory h) of
               Inl x \<Rightarrow> Some (Inl x)
             | Inr instruction \<Rightarrow>
                 let lPC = PC h in
                 (case exec_temu device_recv config_write e instruction (s\<lparr>vm_emu := issue h\<rparr>) of
                    None \<Rightarrow> None
                  | Some (Inl x) \<Rightarrow> Some (Inl x)
                  | Some (Inr (TContinue s)) \<Rightarrow> Some (Inr s)
                  | Some (Inr (TFall s)) \<Rightarrow> Some (on_hart (finish lPC (vm_emu s)) s)))
          else Some (Inl Break))"

text \<open>
  What \<^verbatim>\<open>main\<close> does before its loop: it opens the first drive of the configuration read-write (\<open>content\<close>
  are the bytes of that host file, if it exists), creates the block device on it and then sets up the
  hart \<open>e\<close>.
\<close>

definition temu_start :: "u8 list option \<Rightarrow> emu \<Rightarrow> bvm result" where
  "temu_start content e =
     andThen (block_device_init content BF_MODE_RW) (\<lambda>drive. Inr (block_start e drive))"

text \<open>The states the process can be in; \<open>malloc\<close> may return any contents in every iteration.\<close>

inductive temu_steps :: "bvm \<Rightarrow> nat \<Rightarrow> bvm \<Rightarrow> bool" where
  start: "temu_steps s 0 s"
| more: "temu_steps s n s' \<Longrightarrow> step_temu (virtio_block_recv_request junk) None e s' = Some (Inr s'') \<Longrightarrow>
    temu_steps s (Suc n) s''"

inductive_cases temu_steps_SucE: "temu_steps s (Suc n) s'"

section \<open>The other build is the part without the device\<close>

lemma not_at_virtio:
  "at_virtio a \<Longrightarrow> \<not> a \<ge> DRAM_BASE" "at_virtio a \<Longrightarrow> \<not> (a \<ge> CLINT_BASE \<and> a \<le> CLINT_BASE + CLINT_SIZE)"
  "at_virtio a \<Longrightarrow> \<not> (a \<ge> PLIC_BASE \<and> a \<le> PLIC_BASE + PLIC_SIZE)" "at_virtio a \<Longrightarrow> a \<noteq> -1"
proof -
  have "\<not> at_virtio (-1)" by code_simp
  then show "at_virtio a \<Longrightarrow> a \<noteq> -1" by auto
qed (simp_all add: at_virtio_def word_le_nat_alt)

lemma load_source_temu_hart:
  assumes "load_source a (vm_emu s) = Inr (a', d, e)"
  shows "load_source_temu a s = Inr (a', d, s\<lparr>vm_emu := e\<rparr>)"
  using assms by (simp add: load_source_temu_def) (auto simp: load_source_def split: if_splits)

lemma exec_load_temu_hart:
  assumes "exec_load e f (vm_emu s) = Inr fl"
  shows "exec_load_temu e f s = hart_flow (Inr fl) s"
  using assms unfolding exec_load_temu_def exec_load_def Let_def
  by (auto simp: andThen_Inr_iff load_source_temu_hart hart_flow_def split: if_splits list.splits)

lemma exec_store_temu_hart:
  assumes "exec_store f (vm_emu s) = Inr fl"
  shows "exec_store_temu device_recv config_write f s = Some (hart_flow (Inr fl) s)"
proof -
  have "\<not> at_virtio pa"
    if tr: "translate a STOR (cp (vm_emu s)) (vm_emu s) = Inr pa" and a: "a \<noteq> FIFO_ADDR_TX"
      and addr: "a = reg_file (vm_emu s) (f_rs1 f) + sign_extend (f_imm_s f) 12" for a pa
  proof
    assume "at_virtio pa"
    then have "exec_store f (vm_emu s) = Inl (Exit 0)"
      using not_at_virtio [of pa] a unfolding exec_store_def Let_def addr [symmetric] tr andThen_simps
      by (simp only: if_False simp_thms if_True)
    with assms show False by simp
  qed
  then show ?thesis
    using assms unfolding exec_store_temu_def Let_def
    by (auto simp: exec_store_def andThen_Inr_iff split: sum.split)
qed

lemma exec_temu_hart:
  assumes "exec e ins (vm_emu s) = Inr fl"
  shows "exec_temu device_recv config_write e ins s = Some (hart_flow (Inr fl) s)"
  using assms exec_load_temu_hart [of e "decode ins" s fl] exec_store_temu_hart [of "decode ins" s fl]
  by (auto simp: exec_temu_def Let_def exec_def split: option.splits opcode_t.splits)

lemma step_temu_hart:
  assumes "step e (vm_emu s) = Inr h"
  shows "step_temu device_recv config_write e s = Some (Inr (s\<lparr>vm_emu := h\<rparr>))"
proof -
  let ?t = "tick e (vm_emu s)"
  note defs = step_def step_temu_def Let_def
  from assms consider (fault) "translate (PC ?t) INST (cp ?t) ?t = Inr (-1)" "\<not> (cp ?t = UMODE \<and> PC ?t = 0)"
      "fetch_page_fault ?t = Inr h"
    | (fetch) pa ins fl where "translate (PC ?t) INST (cp ?t) ?t = Inr pa" "\<not> (cp ?t = UMODE \<and> PC ?t = 0)"
      "pa \<noteq> -1" "DRAM_BASE \<le> pa" "getINST ((pa - DRAM_BASE) div 4) (memory ?t) = Inr ins"
      "exec e ins (issue ?t) = Inr fl" "(case fl of Continue s \<Rightarrow> Inr s | Fall s \<Rightarrow> finish (PC ?t) s) = Inr h"
    unfolding defs by (auto simp only: andThen_Inr_iff split: if_splits)
  then show ?thesis
  proof cases
    case fault
    then show ?thesis unfolding defs by (simp add: on_hart_def)
  next
    case fetch
    have "exec_temu device_recv config_write e ins (s\<lparr>vm_emu := issue ?t\<rparr>) =
        Some (hart_flow (Inr fl) (s\<lparr>vm_emu := issue ?t\<rparr>))"
      by (rule exec_temu_hart) (simp add: fetch(6))
    with fetch show ?thesis unfolding defs by (cases fl) (auto simp: hart_flow_def on_hart_def)
  qed
qed

section \<open>What the hart leaves alone\<close>

text \<open>No iteration of the hart drives the interrupt line of the device.\<close>

lemma trap_pending:
  "excep_function pc m se u p s = Inr (pc', s') \<Longrightarrow> plic_pending_irq s' = plic_pending_irq s"
  "interrupt_function pc code p s = Inr (pc', s') \<Longrightarrow> plic_pending_irq s' = plic_pending_irq s"
  by (subst excep_function_frame, assumption, simp) (subst interrupt_function_frame, assumption, simp)

lemma pending_simps:
  "plic_pending_irq (tval_by_mode s) = plic_pending_irq s"
  "plic_pending_irq (load_writeback func3 rd va a d s) = plic_pending_irq s"
  "plic_pending_irq (clint_write off v s) = plic_pending_irq s"
  "plic_pending_irq (snd (plic_read off s)) = plic_pending_irq s"
  "plic_pending_irq (plic_write off v s) = plic_pending_irq s"
  "plic_pending_irq (amo_misaligned va s) = plic_pending_irq s"
  by (simp_all add: tval_by_mode_def load_writeback_def load_misaligned_def clint_write_def amo_misaligned_def
      plic_read_def plic_write_def Let_def split: plevel_t.split prod.splits)

lemma page_fault_pending:
  "load_page_fault va s = Inr fl \<Longrightarrow> plic_pending_irq (flow_state fl) = plic_pending_irq s"
  "store_page_fault va s = Inr fl \<Longrightarrow> plic_pending_irq (flow_state fl) = plic_pending_irq s"
proof -
  show "plic_pending_irq (flow_state fl) = plic_pending_irq s" if "load_page_fault va s = Inr fl"
    using that by (cases rule: load_page_fault_Inr) (simp add: pending_simps trap_pending(1))
  show "plic_pending_irq (flow_state fl) = plic_pending_irq s" if "store_page_fault va s = Inr fl"
    using that by (cases rule: store_page_fault_Inr) (simp add: pending_simps trap_pending(1))
qed

lemma load_source_pending: "load_source a s = Inr (a', d, s') \<Longrightarrow> plic_pending_irq s' = plic_pending_irq s"
  using pending_simps(4) [of "a - PLIC_BASE" s]
  by (auto simp: load_source_def Let_def andThen_Inr_iff case_prod_unfold split: if_splits)

lemma exec_load_pending:
  "exec_load e f s = Inr fl \<Longrightarrow> plic_pending_irq (flow_state fl) = plic_pending_irq s"
  by (auto simp: exec_load_def Let_def andThen_Inr_iff pending_simps dest: load_source_pending page_fault_pending
      split: if_splits list.splits)

lemma exec_store_pending:
  "exec_store f s = Inr fl \<Longrightarrow> plic_pending_irq (flow_state fl) = plic_pending_irq s"
  by (auto simp: exec_store_def Let_def andThen_Inr_iff pending_simps case_prod_unfold
      dest: page_fault_pending split: if_splits)

lemma amo_pending:
  "amo_w f ins va a d s = Inr s' \<Longrightarrow> plic_pending_irq s' = plic_pending_irq s"
  "amo_d f va a d s = Inr s' \<Longrightarrow> plic_pending_irq s' = plic_pending_irq s"
  by (auto simp: amo_w_def amo_d_def Let_def andThen_Inr_iff case_prod_unfold pending_simps
      split: if_splits option.splits)

lemma exec_amo_pending:
  "exec_amo f ins s = Inr fl \<Longrightarrow> plic_pending_irq (flow_state fl) = plic_pending_irq s"
  by (auto simp: exec_amo_def Let_def andThen_Inr_iff dest: page_fault_pending amo_pending split: if_splits)

lemma csr_pending:
  "plic_pending_irq (snd (csr_write a v s)) = plic_pending_irq s"
  by (subst csr_write_frame) simp

lemma exec_systm_pending:
  "exec_systm e f ins s = Inr fl \<Longrightarrow> plic_pending_irq (flow_state fl) = plic_pending_irq s"
  by (auto simp: exec_systm_def csr_instruction_eqs csr_rmw_def csr_pending exec_ecall_def exec_mret_def exec_sret_def
      illegal_def Let_def andThen_Inr_iff dest!: trap_pending split: if_splits)

lemma exec_pending:
  "exec e ins s = Inr fl \<Longrightarrow> plic_pending_irq (flow_state fl) = plic_pending_irq s"
  by (auto simp: exec_def Let_def andThen_Inr_iff illegal_def
      dest: exec_load_pending exec_store_pending exec_amo_pending exec_systm_pending
      split: option.splits opcode_t.splits if_splits)

lemma finish_pending: "finish lPC s = Inr s' \<Longrightarrow> plic_pending_irq s' = plic_pending_irq s"
  by (auto simp: finish_def take_traps_def sync_trap_def refresh_def Let_def andThen_Inr_iff dest!: trap_pending
      split: if_splits option.splits)

lemma step_parts_pending:
  "plic_pending_irq (tick e s) = plic_pending_irq s" "plic_pending_irq (issue s) = plic_pending_irq s"
  "fetch_page_fault s = Inr s' \<Longrightarrow> plic_pending_irq s' = plic_pending_irq s"
  by (auto simp: tick_def issue_def fetch_page_fault_def Let_def andThen_Inr_iff dest!: trap_pending)

section \<open>Invariants of the whole machine\<close>

lemma map_sum_Inr_iff: "map_sum f g r = Inr y \<longleftrightarrow> (\<exists>x. r = Inr x \<and> y = g x)"
  by (cases r) auto

text \<open>An iteration leaves the device alone, or is one store to its registers.\<close>

definition same_device :: "'d vm \<Rightarrow> 'd vm \<Rightarrow> bool" where
  "same_device s s' \<longleftrightarrow> vm_dev s' = vm_dev s \<and> vm_opaque s' = vm_opaque s \<and>
     plic_pending_irq (vm_emu s') = plic_pending_irq (vm_emu s)"

lemma same_device_trans: "same_device s t \<Longrightarrow> same_device t u \<Longrightarrow> same_device s u"
  by (simp add: same_device_def)

lemma hart_flow_device:
  assumes "hart_flow r s = Inr fl" "\<And>h. r = Inr h \<Longrightarrow> plic_pending_irq (flow_state h) = plic_pending_irq (vm_emu s)"
  shows "same_device s (tflow_state fl)"
  using assms by (cases r) (auto simp: hart_flow_def same_device_def split: flow.splits)

lemma on_hart_device:
  assumes "on_hart r s = Inr s'" "\<And>h. r = Inr h \<Longrightarrow> plic_pending_irq h = plic_pending_irq (vm_emu s)"
  shows "same_device s s'"
  using assms by (cases r) (auto simp: on_hart_def same_device_def)

lemma exec_load_temu_cases:
  assumes "exec_load_temu e f s = Inr fl"
  obtains (fault) a where "hart_flow (load_page_fault a (vm_emu s)) s = Inr fl"
    | (console) "hart_flow (exec_load e f (vm_emu s)) s = Inr fl"
    | (data) a pa d s1 va where "load_source_temu a s = Inr (pa, d, s1)"
      "fl = TFall (s1\<lparr>vm_emu := load_writeback (f_func3 f) (f_rd f) va pa d (vm_emu s1)\<rparr>)"
  using assms unfolding exec_load_temu_def Let_def
  by (auto simp: andThen_Inr_iff split: if_splits intro: that)

lemma load_source_temu_cases:
  assumes "load_source_temu a s = Inr (pa, d, s1)"
  obtains (hart) e where "load_source a (vm_emu s) = Inr (pa, d, e)" "s1 = s\<lparr>vm_emu := e\<rparr>" | (device) "s1 = s"
  using assms that
  by (cases "load_source a (vm_emu s)") (auto simp: load_source_temu_def andThen_Inr_iff split: if_splits)

lemma exec_load_temu_device:
  assumes "exec_load_temu e f s = Inr fl"
  shows "same_device s (tflow_state fl)"
  using assms
proof (cases rule: exec_load_temu_cases)
  case (fault a)
  then show ?thesis by (rule hart_flow_device) (rule page_fault_pending)
next
  case console
  then show ?thesis by (rule hart_flow_device) (rule exec_load_pending)
next
  case (data a pa d s1 va)
  from data(1) have "same_device s s1"
    by (cases rule: load_source_temu_cases) (auto simp: same_device_def dest: load_source_pending)
  then show ?thesis by (simp add: data(2) same_device_def pending_simps)
qed

lemma exec_store_temu_cases:
  assumes "exec_store_temu device_recv config_write f s = Some (Inr fl)"
  obtains (hart) "hart_flow (exec_store f (vm_emu s)) s = Inr fl"
    | (device) a b where "virtio_store device_recv config_write a b s = Some (Inr (tflow_state fl))"
proof -
  have "r = Some (Inr (tflow_state fl))" if "map_option (map_sum id TFall) r = Some (Inr fl)" for r
    using that by (auto simp: map_sum_Inr_iff)
  with assms that show thesis
    unfolding exec_store_temu_def Let_def by (auto split: if_splits sum.splits)
qed

lemma exec_temu_cases:
  assumes "exec_temu device_recv config_write e ins s = Some (Inr fl)"
  obtains (load) f where "exec_load_temu e f s = Inr fl"
    | (store) f where "exec_store_temu device_recv config_write f s = Some (Inr fl)"
    | (other) "hart_flow (exec e ins (vm_emu s)) s = Inr fl"
  using assms that unfolding exec_temu_def Let_def
  by (auto split: option.splits opcode_t.splits)

lemma step_temu_cases:
  assumes "step_temu device_recv config_write e s = Some (Inr s')"
  obtains (fault) "on_hart (fetch_page_fault (tick e (vm_emu s))) s = Inr s'"
    | (fetch) ins fl lPC where
      "exec_temu device_recv config_write e ins (s\<lparr>vm_emu := issue (tick e (vm_emu s))\<rparr>) = Some (Inr fl)"
      "fl = TContinue s' \<or> (\<exists>t. fl = TFall t \<and> on_hart (finish lPC (vm_emu t)) t = Inr s')"
proof -
  have same: "on_hart r (s\<lparr>vm_emu := h\<rparr>) = on_hart r s" for r h by (simp add: on_hart_def)
  from assms that show thesis
    unfolding step_temu_def Let_def
    by (auto simp: same split: sum.splits option.splits tflow.splits if_splits)
qed

lemma step_temu_device:
  assumes "step_temu device_recv config_write e s = Some (Inr s')"
  obtains (hart) "same_device s s'"
    | (device) t a b s1 where "same_device s t" "virtio_store device_recv config_write a b t = Some (Inr s1)"
      "same_device s1 s'"
  using assms
proof (cases rule: step_temu_cases)
  case fault
  have "same_device s s'"
    using fault by (rule on_hart_device) (simp add: step_parts_pending)
  then show ?thesis by (rule hart)
next
  case (fetch ins fl lPC)
  let ?t = "s\<lparr>vm_emu := issue (tick e (vm_emu s))\<rparr>"
  have t: "same_device s ?t" by (simp add: same_device_def step_parts_pending)
  have s': "same_device (tflow_state fl) s'"
    using fetch(2)
  proof (elim disjE exE conjE)
    fix t assume "fl = TFall t" "on_hart (finish lPC (vm_emu t)) t = Inr s'"
    then show ?thesis using on_hart_device [of "finish lPC (vm_emu t)" t s'] finish_pending by auto
  qed (simp add: same_device_def)
  from fetch(1) show ?thesis
  proof (cases rule: exec_temu_cases)
    case (load f)
    then show ?thesis using hart same_device_trans [OF t same_device_trans [OF exec_load_temu_device s']] by blast
  next
    case (store f)
    from store show ?thesis
    proof (cases rule: exec_store_temu_cases)
      case hart
      have "same_device ?t (tflow_state fl)" using hart by (rule hart_flow_device) (rule exec_store_pending)
      then show ?thesis using that(1) same_device_trans [OF t same_device_trans [OF _ s']] by blast
    next
      case (device a b)
      then show ?thesis using that(2) t s' by blast
    qed
  next
    case other
    have "same_device ?t (tflow_state fl)" using other by (rule hart_flow_device) (rule exec_pending)
    then show ?thesis using hart same_device_trans [OF t same_device_trans [OF _ s']] by blast
  qed
qed

text \<open>
  Invariants of the CSR file: those that the hart and its clock keep, and that a bus access keeps
  because it only sets a pending bit.
\<close>

locale temu_invariant = loop_invariant P + bus_device device_recv
  for P :: "u64 \<Rightarrow> csr_t \<Rightarrow> bool" and device_recv :: "'d device_recv"
begin

abbreviation holds :: "emu \<Rightarrow> bool" where "holds h \<equiv> P (cycle_count h) (csrs h)"

lemma bus: "bus_access h h' \<Longrightarrow> holds h \<Longrightarrow> holds h'"
proof -
  have same: "mip_update (ip_SEIP_update (\<lambda>_. SEIP h)) (csrs h) = csrs h" by simp
  then show "bus_access h h' \<Longrightarrow> holds h \<Longrightarrow> holds h'"
    unfolding bus_access_def by (auto simp: inv_irq same)
qed

lemma hart_flow:
  assumes "hart_flow r s = Inr fl" "\<And>h. r = Inr h \<Longrightarrow> holds (flow_state h)"
  shows "holds (vm_emu (tflow_state fl))"
  using assms by (cases r) (auto simp: hart_flow_def split: flow.splits)

lemma exec_load_temu:
  assumes "exec_load_temu e f s = Inr fl" "holds (vm_emu s)"
  shows "holds (vm_emu (tflow_state fl))"
  using assms(1)
proof (cases rule: exec_load_temu_cases)
  case (fault a)
  then show ?thesis by (rule hart_flow) (rule load_page_fault [OF _ assms(2)])
next
  case console
  then show ?thesis by (rule hart_flow) (rule exec_load [OF _ assms(2)])
next
  case (data a pa d s1 va)
  from data(1) have "holds (vm_emu s1)"
    by (cases rule: load_source_temu_cases) (auto intro: load_source assms(2))
  then show ?thesis by (simp add: data(2) load_writeback)
qed

lemma exec_temu:
  assumes "exec_temu device_recv None e ins s = Some (Inr fl)" "holds (vm_emu s)" "mmio_ok (vm_dev s)"
  shows "holds (vm_emu (tflow_state fl))"
  using assms(1)
proof (cases rule: exec_temu_cases)
  case (load f)
  then show ?thesis using assms(2) by (rule exec_load_temu)
next
  case (store f)
  from store show ?thesis
  proof (cases rule: exec_store_temu_cases)
    case hart
    then show ?thesis by (rule hart_flow) (rule exec_store [OF _ assms(2)])
  next
    case (device a b)
    then show ?thesis using store_bus [OF assms(3), of a b] bus assms(2) by (auto simp: stays_def)
  qed
next
  case other
  then show ?thesis by (rule hart_flow) (rule exec [OF _ assms(2)])
qed

lemma step_temu:
  assumes "step_temu device_recv None e s = Some (Inr s')" "holds (vm_emu s)" "mmio_ok (vm_dev s)"
  shows "holds (vm_emu s')"
proof -
  have t: "holds (tick e (vm_emu s))" by (rule tick [OF assms(2)])
  have on_hart: "holds (vm_emu s')" if "on_hart r t = Inr s'" "\<And>h. r = Inr h \<Longrightarrow> holds h" for r and t s' :: "'d vm"
    using that by (cases r) (auto simp: on_hart_def)
  from assms(1) show ?thesis
  proof (cases rule: step_temu_cases)
    case fault
    then show ?thesis by (rule on_hart) (rule fetch_page_fault [OF _ t])
  next
    case (fetch ins fl lPC)
    have "holds (issue (tick e (vm_emu s)))" using t by (simp add: issue_def Let_def)
    with fetch(1) assms(3) have "holds (vm_emu (tflow_state fl))" by (intro exec_temu [OF fetch(1)]) simp_all
    then show ?thesis using fetch(2) on_hart [of "finish lPC _"] finish by auto
  qed
qed

end

interpretation temu_wf: temu_invariant "\<lambda>_. csr_ok" "virtio_block_recv_request junk" for junk
  by unfold_locales

interpretation temu_cycle: temu_invariant "\<lambda>n c. cycle c = n" "virtio_block_recv_request junk" for junk
  by unfold_locales

section \<open>Runs of the whole machine\<close>

lemma step_reach:
  assumes "device_reach bs s" "step_temu (virtio_block_recv_request junk) None e s = Some (Inr s')"
  shows "device_reach bs s'"
proof -
  have hart: "device_reach bs t" if "device_reach bs s" "same_device s t" for s t
  proof -
    have "t = s\<lparr>vm_emu := vm_emu t\<rparr>" using that(2) by (cases s; cases t) (simp add: same_device_def)
    then show ?thesis using device_reach.hart [OF that(1), of "vm_emu t"] that(2) by (simp add: same_device_def)
  qed
  from assms(2) show ?thesis
    using hart assms(1) device_reach.store by (cases rule: step_temu_device) blast+
qed

lemma temu_steps_reach: "temu_steps s n s' \<Longrightarrow> device_reach bs s \<Longrightarrow> device_reach bs s'"
  by (induction rule: temu_steps.induct) (auto intro: step_reach)

lemma temu_steps_csrs:
  assumes "temu_steps s n s'" "device_reach bs s" "csr_ok (csrs (vm_emu s))"
    and "cycle (csrs (vm_emu s)) = cycle_count (vm_emu s)"
  shows "csr_ok (csrs (vm_emu s')) \<and> cycle (csrs (vm_emu s')) = cycle_count (vm_emu s')"
  using assms
proof (induction rule: temu_steps.induct)
  case (more s n s' junk e s'')
  have "mmio_ok (vm_dev s')"
    using device_reach_ok [OF temu_steps_reach [OF more.hyps(1) more.prems(1)]] by (simp add: device_ok_def)
  then show ?case
    using more.IH more.prems temu_wf.step_temu [OF more.hyps(2)] temu_cycle.step_temu [OF more.hyps(2)] by blast
qed simp

section \<open>One request through the loop\<close>

text \<open>A supervisor interrupt that is pending, delegated and not masked is taken.\<close>

lemma finish_supervisor_interrupt:
  assumes "pending_interrupt (csrs (refresh s)) = Some c" "cp s = SMODE \<or> cp s = UMODE" "\<not> LD_ACC_FAULT (faults s)"
    and "bit (mideleg (csrs s)) (unat c)" "sideleg (csrs s) = 0" "ms_sie (mstatus (csrs s)) = 1"
    and "tv_mode (stvec (csrs s)) = 0" "tv_base (stvec (csrs s)) \<noteq> lPC"
  shows "finish lPC s = Inr ((trap_enter SMODE 1 c (PC s) (refresh s))\<lparr>PC := tv_base (stvec (csrs s))\<rparr>)"
proof -
  let ?t = "refresh s"
  have t: "LD_ACC_FAULT (faults ?t) = False" "cp ?t = cp s" "PC ?t = PC s" "mideleg (csrs ?t) = mideleg (csrs s)"
    "sideleg (csrs ?t) = 0" "stvec (csrs ?t) = stvec (csrs s)" "ms_sie (mstatus (csrs ?t)) = 1"
    using assms by (simp_all add: refresh_def Let_def)
  have "interrupt_function (PC ?t) c (cp ?t) ?t = Inr (tv_base (stvec (csrs s)), trap_enter SMODE 1 c (PC s) ?t)"
    using assms(2,4,7) t
    by (auto simp: interrupt_function_eq trap_mode_select_eq interrupt_entry_def handler_tvec_def
        int_enabled_def Let_def)
  then show ?thesis
    using t(1) assms(1,8) by (simp add: finish_def take_traps_def Let_def)
qed

text \<open>What is pending once the line of the device is up.\<close>

lemma pending_external:
  assumes "SEIP s = 1" "ie_MEIE (mie (csrs s)) = 0" "ie_MTIE (mie (csrs s)) = 0" "ie_MSIE (mie (csrs s)) = 0"
    and "ie_SEIE (mie (csrs s)) = 1"
  shows "pending_interrupt (csrs (refresh s)) = Some 9"
  using assms by (simp add: pending_interrupt_def refresh_def Let_def)

end
