(* ===== verification/Virtio_PCI.thy ===== *)
theory Virtio_PCI
  imports Virtio_Serve
begin

text \<open>
  The PCI transport of \<^verbatim>\<open>temu/virtio.c\<close>: the same registers as those of \<open>Virtio_MMIO\<close> at other offsets
  and widths, an interrupt status that a read clears, and a page for notifications. The emulator puts no
  device on a PCI bus; the signal the transport drives is that of the other one.
\<close>

section \<open>Registers\<close>

abbreviation VIRTIO_PCI_DEVICE_FEATURE_SEL :: u32 where "VIRTIO_PCI_DEVICE_FEATURE_SEL \<equiv> 0x000"
abbreviation VIRTIO_PCI_DEVICE_FEATURE :: u32 where "VIRTIO_PCI_DEVICE_FEATURE \<equiv> 0x004"
abbreviation VIRTIO_PCI_NUM_QUEUES :: u32 where "VIRTIO_PCI_NUM_QUEUES \<equiv> 0x012"
abbreviation VIRTIO_PCI_DEVICE_STATUS :: u32 where "VIRTIO_PCI_DEVICE_STATUS \<equiv> 0x014"
abbreviation VIRTIO_PCI_QUEUE_SEL :: u32 where "VIRTIO_PCI_QUEUE_SEL \<equiv> 0x016"
abbreviation VIRTIO_PCI_QUEUE_SIZE :: u32 where "VIRTIO_PCI_QUEUE_SIZE \<equiv> 0x018"
abbreviation VIRTIO_PCI_QUEUE_ENABLE :: u32 where "VIRTIO_PCI_QUEUE_ENABLE \<equiv> 0x01c"
abbreviation VIRTIO_PCI_QUEUE_NOTIFY_OFF :: u32 where "VIRTIO_PCI_QUEUE_NOTIFY_OFF \<equiv> 0x01e"
abbreviation VIRTIO_PCI_QUEUE_DESC_LOW :: u32 where "VIRTIO_PCI_QUEUE_DESC_LOW \<equiv> 0x020"
abbreviation VIRTIO_PCI_QUEUE_DESC_HIGH :: u32 where "VIRTIO_PCI_QUEUE_DESC_HIGH \<equiv> 0x024"
abbreviation VIRTIO_PCI_QUEUE_AVAIL_LOW :: u32 where "VIRTIO_PCI_QUEUE_AVAIL_LOW \<equiv> 0x028"
abbreviation VIRTIO_PCI_QUEUE_AVAIL_HIGH :: u32 where "VIRTIO_PCI_QUEUE_AVAIL_HIGH \<equiv> 0x02c"
abbreviation VIRTIO_PCI_QUEUE_USED_LOW :: u32 where "VIRTIO_PCI_QUEUE_USED_LOW \<equiv> 0x030"
abbreviation VIRTIO_PCI_QUEUE_USED_HIGH :: u32 where "VIRTIO_PCI_QUEUE_USED_HIGH \<equiv> 0x034"

abbreviation VIRTIO_PCI_CFG_OFFSET :: u32 where "VIRTIO_PCI_CFG_OFFSET \<equiv> 0x0000"
abbreviation VIRTIO_PCI_ISR_OFFSET :: u32 where "VIRTIO_PCI_ISR_OFFSET \<equiv> 0x1000"
abbreviation VIRTIO_PCI_CONFIG_OFFSET :: u32 where "VIRTIO_PCI_CONFIG_OFFSET \<equiv> 0x2000"
abbreviation VIRTIO_PCI_NOTIFY_OFFSET :: u32 where "VIRTIO_PCI_NOTIFY_OFFSET \<equiv> 0x3000"

text \<open>The page of an offset, the operand of the outer \<^verbatim>\<open>switch\<close>.\<close>

abbreviation pci_page :: "u32 \<Rightarrow> u32" where "pci_page offset1 \<equiv> drop_bit 12 offset1"

definition virtio_pci_read :: "u32 \<Rightarrow> int \<Rightarrow> 'd vm \<Rightarrow> (u32 \<times> 'd vm) result" where
  "virtio_pci_read offset1 size_log2 s =
     (let offset = offset1 AND 0xfff; d = vm_dev s; q = v_queue d ! unat (v_queue_sel d) in
      if pci_page offset1 = pci_page VIRTIO_PCI_CFG_OFFSET then
        Inr (if size_log2 = 2 then
               (if offset = VIRTIO_PCI_DEVICE_FEATURE then
                  (if v_device_features_sel d = 0 then v_device_features d
                   else if v_device_features_sel d = 1 then 1 else 0)
                else if offset = VIRTIO_PCI_DEVICE_FEATURE_SEL then v_device_features_sel d
                else if offset = VIRTIO_PCI_QUEUE_DESC_LOW then ucast (q_desc_addr q)
                else if offset = VIRTIO_PCI_QUEUE_AVAIL_LOW then ucast (q_avail_addr q)
                else if offset = VIRTIO_PCI_QUEUE_USED_LOW then ucast (q_used_addr q)
                else if offset = VIRTIO_PCI_QUEUE_DESC_HIGH then ucast (drop_bit 32 (q_desc_addr q))
                else if offset = VIRTIO_PCI_QUEUE_AVAIL_HIGH then ucast (drop_bit 32 (q_avail_addr q))
                else if offset = VIRTIO_PCI_QUEUE_USED_HIGH then ucast (drop_bit 32 (q_used_addr q))
                else 0)
             else if size_log2 = 1 then
               (if offset = VIRTIO_PCI_NUM_QUEUES then MAX_QUEUE_NUM
                else if offset = VIRTIO_PCI_QUEUE_SEL then v_queue_sel d
                else if offset = VIRTIO_PCI_QUEUE_SIZE then q_num q
                else if offset = VIRTIO_PCI_QUEUE_ENABLE then q_ready q
                else if offset = VIRTIO_PCI_QUEUE_NOTIFY_OFF then 0
                else 0)
             else if size_log2 = 0 then
               (if offset = VIRTIO_PCI_DEVICE_STATUS then v_status d else 0)
             else 0, s)
      else if pci_page offset1 = pci_page VIRTIO_PCI_ISR_OFFSET then
        (if offset = 0 \<and> size_log2 = 0
         then Inr (v_int_status d, set_irq 0 (s\<lparr>vm_dev := d\<lparr>v_int_status := 0\<rparr>\<rparr>))
         else Inr (0, s))
      else if pci_page offset1 = pci_page VIRTIO_PCI_CONFIG_OFFSET then
        andThen (virtio_config_read offset size_log2 d) (\<lambda>val. Inr (val, s))
      else Inr (0, s))"

definition virtio_pci_write ::
    "'d device_recv \<Rightarrow> ('d vm \<Rightarrow> 'd vm) option \<Rightarrow> u32 \<Rightarrow> u32 \<Rightarrow> int \<Rightarrow> 'd vm \<Rightarrow> 'd vm result option" where
  "virtio_pci_write device_recv config_write offset1 val size_log2 s =
     (let offset = offset1 AND 0xfff; d = vm_dev s;
          ok = (\<lambda>d. Some (Inr (s\<lparr>vm_dev := d\<rparr>)));
          on_queue = (\<lambda>f. ok (upd_queue (unat (v_queue_sel d)) f d)) in
      if pci_page offset1 = pci_page VIRTIO_PCI_CFG_OFFSET then
        (if size_log2 = 2 then
           (if offset = VIRTIO_PCI_DEVICE_FEATURE_SEL then ok (d\<lparr>v_device_features_sel := val\<rparr>)
            else if offset = VIRTIO_PCI_QUEUE_DESC_LOW then on_queue (q_desc_addr_update (set_low32 val))
            else if offset = VIRTIO_PCI_QUEUE_AVAIL_LOW then on_queue (q_avail_addr_update (set_low32 val))
            else if offset = VIRTIO_PCI_QUEUE_USED_LOW then on_queue (q_used_addr_update (set_low32 val))
            else if offset = VIRTIO_PCI_QUEUE_DESC_HIGH then on_queue (q_desc_addr_update (set_high32 val))
            else if offset = VIRTIO_PCI_QUEUE_AVAIL_HIGH then on_queue (q_avail_addr_update (set_high32 val))
            else if offset = VIRTIO_PCI_QUEUE_USED_HIGH then on_queue (q_used_addr_update (set_high32 val))
            else ok d)
         else if size_log2 = 1 then
           (if offset = VIRTIO_PCI_QUEUE_SEL then
              (if val < of_nat MAX_QUEUE then ok (d\<lparr>v_queue_sel := val\<rparr>) else ok d)
            else if offset = VIRTIO_PCI_QUEUE_SIZE then
              (if val AND (val - 1) = 0 \<and> val > 0 then on_queue (q_num_update (\<lambda>_. val)) else ok d)
            else if offset = VIRTIO_PCI_QUEUE_ENABLE then on_queue (q_ready_update (\<lambda>_. val AND 1))
            else ok d)
         else if size_log2 = 0 then
           (if offset = VIRTIO_PCI_DEVICE_STATUS then
              (let s = s\<lparr>vm_dev := d\<lparr>v_status := val\<rparr>\<rparr> in
               if val = 0
               then (let s = set_irq 0 s in Some (Inr (s\<lparr>vm_dev := virtio_reset (vm_dev s)\<rparr>)))
               else Some (Inr s))
            else ok d)
         else ok d)
      else if pci_page offset1 = pci_page VIRTIO_PCI_CONFIG_OFFSET then
        Some (Inr (virtio_config_write config_write offset val size_log2 s))
      else if pci_page offset1 = pci_page VIRTIO_PCI_NOTIFY_OFFSET then
        (if val < of_nat MAX_QUEUE then queue_notify device_recv (unat val) s else ok d)
      else ok d)"

text \<open>\<^verbatim>\<open>virtio_config_change_notify\<close>, for a device that changes its configuration space.\<close>

definition virtio_config_change_notify :: "'d vm \<Rightarrow> 'd vm" where
  "virtio_config_change_notify s =
     set_irq 1 (s\<lparr>vm_dev := (vm_dev s)\<lparr>v_int_status := v_int_status (vm_dev s) OR 2\<rparr>\<rparr>)"

section \<open>Both transports drive the same device\<close>

text \<open>The registers both have: the offset on the MMIO bus, and the offset and width on the PCI bus.\<close>

definition shared_registers :: "(u32 \<times> u32 \<times> int) list" where
  "shared_registers =
     [(VIRTIO_MMIO_DEVICE_FEATURES_SEL, VIRTIO_PCI_DEVICE_FEATURE_SEL, 2),
      (VIRTIO_MMIO_DEVICE_FEATURES, VIRTIO_PCI_DEVICE_FEATURE, 2),
      (VIRTIO_MMIO_QUEUE_SEL, VIRTIO_PCI_QUEUE_SEL, 1), (VIRTIO_MMIO_QUEUE_NUM, VIRTIO_PCI_QUEUE_SIZE, 1),
      (VIRTIO_MMIO_QUEUE_DESC_LOW, VIRTIO_PCI_QUEUE_DESC_LOW, 2),
      (VIRTIO_MMIO_QUEUE_AVAIL_LOW, VIRTIO_PCI_QUEUE_AVAIL_LOW, 2),
      (VIRTIO_MMIO_QUEUE_USED_LOW, VIRTIO_PCI_QUEUE_USED_LOW, 2),
      (VIRTIO_MMIO_QUEUE_DESC_HIGH, VIRTIO_PCI_QUEUE_DESC_HIGH, 2),
      (VIRTIO_MMIO_QUEUE_AVAIL_HIGH, VIRTIO_PCI_QUEUE_AVAIL_HIGH, 2),
      (VIRTIO_MMIO_QUEUE_USED_HIGH, VIRTIO_PCI_QUEUE_USED_HIGH, 2),
      (VIRTIO_MMIO_STATUS, VIRTIO_PCI_DEVICE_STATUS, 0), (VIRTIO_MMIO_QUEUE_READY, VIRTIO_PCI_QUEUE_ENABLE, 1)]"

lemma shared_register:
  assumes "(mmio, pci, width) \<in> set shared_registers"
  shows "virtio_pci_read pci width s = andThen (virtio_mmio_read mmio 2 (vm_dev s)) (\<lambda>v. Inr (v, s))"
    "virtio_pci_write device_recv config_write pci val width s = virtio_mmio_write device_recv config_write mmio val 2 s"
proof -
  note cases = assms [unfolded shared_registers_def, simplified]
  show "virtio_pci_read pci width s = andThen (virtio_mmio_read mmio 2 (vm_dev s)) (\<lambda>v. Inr (v, s))"
    using cases by (elim disjE) (simp_all add: virtio_pci_read_def virtio_mmio_read_def Let_def)
  show "virtio_pci_write device_recv config_write pci val width s = virtio_mmio_write device_recv config_write mmio val 2 s"
    using cases by (elim disjE) (simp_all add: virtio_pci_write_def virtio_mmio_write_def Let_def)
qed

text \<open>The page of the configuration space and that of the notifications.\<close>

lemma in_page:
  fixes offset k :: u32
  assumes "offset < 0x1000"
  shows "drop_bit 12 offset = 0" "(offset OR push_bit 12 k) AND 0xfff = offset"
proof -
  have t: "take_bit 12 offset = offset"
    by (rule word_unat_eq_iff [THEN iffD2])
      (use assms in \<open>simp add: unsigned_take_bit_eq take_bit_nat_eq_self word_less_nat_alt\<close>)
  then have hi: "\<not> bit offset i" if "12 \<le> i" for i
    using that by (metis bit_take_bit_iff not_le)
  show "drop_bit 12 offset = 0"
    by (rule bit_word_eqI) (auto simp: bit_simps hi)
  have "take_bit 12 (offset OR push_bit 12 k) = take_bit 12 offset"
    by (rule bit_word_eqI) (auto simp: bit_simps)
  then show "(offset OR push_bit 12 k) AND 0xfff = offset"
    using t by (simp add: take_bit_eq_mask mask_eq_exp_minus_1)
qed

lemma pci_pages:
  fixes offset :: u32
  assumes "offset < 0x1000"
  shows "pci_page offset = 0" "(offset OR 0x2000) AND 0xfff = offset" "(offset OR 0x3000) AND 0xfff = offset"
  using in_page(1) [OF assms] in_page(2) [OF assms, of 2] in_page(2) [OF assms, of 3] by simp_all

lemma pci_config:
  assumes "offset < 0x1000"
  shows "virtio_pci_read (offset OR VIRTIO_PCI_CONFIG_OFFSET) k s =
      andThen (virtio_mmio_read (offset + VIRTIO_MMIO_CONFIG) k (vm_dev s)) (\<lambda>v. Inr (v, s))"
    "virtio_pci_write device_recv config_write (offset OR VIRTIO_PCI_CONFIG_OFFSET) val k s =
      virtio_mmio_write device_recv config_write (offset + VIRTIO_MMIO_CONFIG) val k s"
proof -
  have "VIRTIO_MMIO_CONFIG \<le> offset + VIRTIO_MMIO_CONFIG"
    using assms by (simp add: word_le_nat_alt word_less_nat_alt unat_word_ariths)
  then show "virtio_pci_read (offset OR VIRTIO_PCI_CONFIG_OFFSET) k s =
      andThen (virtio_mmio_read (offset + VIRTIO_MMIO_CONFIG) k (vm_dev s)) (\<lambda>v. Inr (v, s))"
    "virtio_pci_write device_recv config_write (offset OR VIRTIO_PCI_CONFIG_OFFSET) val k s =
      virtio_mmio_write device_recv config_write (offset + VIRTIO_MMIO_CONFIG) val k s"
    by (simp_all add: virtio_pci_read_def virtio_mmio_read_def virtio_pci_write_def virtio_mmio_write_def Let_def
        pci_pages [OF assms])
qed

lemma pci_notify:
  assumes "offset < 0x1000"
  shows "virtio_pci_write device_recv config_write (offset OR VIRTIO_PCI_NOTIFY_OFFSET) val k s =
    virtio_mmio_write device_recv config_write VIRTIO_MMIO_QUEUE_NOTIFY val 2 s"
  by (simp add: virtio_pci_write_def virtio_mmio_write_def Let_def pci_pages [OF assms])

text \<open>Reading the interrupt status acknowledges all of it.\<close>

lemma pci_acknowledge:
  "virtio_pci_read VIRTIO_PCI_ISR_OFFSET 0 s =
     map_sum id (Pair (v_int_status (vm_dev s)))
       (the (virtio_mmio_write device_recv config_write VIRTIO_MMIO_INTERRUPT_ACK (v_int_status (vm_dev s)) 2 s))"
  by (simp add: virtio_pci_read_def virtio_mmio_write_def Let_def)

section \<open>The registers stay well-formed\<close>

context queue_device
begin

lemma pci_write_keeps:
  assumes "device_ok s" "keeps_config config_write"
  shows "stays device_ok (virtio_pci_write device_recv config_write offset val k s)"
proof -
  have lt: "unat val < MAX_QUEUE" if "val < of_nat MAX_QUEUE" using that by (simp add: word_less_nat_alt)
  note queue = device_ok_queue [OF assms(1)]
  show ?thesis
    unfolding virtio_pci_write_def Let_def
    by (intro stays_if; (unfold stays_state)?;
        ((rule queue; simp add: queue_ok_def word_gt_0) |
          simp add: assms config_write_ok device_ok_regs [OF assms(1)] notify_keeps [OF assms(1)] lt
            device_ok_reset [OF assms(1)]))
qed

end

lemma pci_read_keeps:
  assumes "device_ok s" "virtio_pci_read offset k s = Inr (v, s')"
  shows "device_ok s'"
  using assms
  by (auto simp: virtio_pci_read_def Let_def andThen_Inr_iff device_ok_def set_irq_line mmio_ok_def split: if_splits)

lemma config_change_keeps: "device_ok s \<Longrightarrow> device_ok (virtio_config_change_notify s)"
proof -
  have "x OR 2 \<noteq> 0" for x :: u32
  proof
    assume "x OR 2 = 0"
    from arg_cong [OF this, of "\<lambda>w. bit w 1"] show False by (simp add: bit_simps)
  qed
  then show "device_ok s \<Longrightarrow> device_ok (virtio_config_change_notify s)"
    by (simp add: virtio_config_change_notify_def device_ok_def set_irq_line mmio_ok_def)
qed

end
