(* ===== verification/Virtio_Net.thy ===== *)
theory Virtio_Net
  imports Virtio_PCI
begin

text \<open>
  The network and console devices of \<^verbatim>\<open>temu/virtio.c\<close>. What is behind them is a parameter: its state is
  part of the state of the device, and \<open>write_packet\<close> and \<open>write_data\<close> are its callbacks, which do not
  call the device back.
\<close>

section \<open>The network device\<close>

record 'e VIRTIONetDevice =
  net_es :: 'e
  net_header_size :: int

abbreviation sizeof_VIRTIONetHeader :: int where "sizeof_VIRTIONetHeader \<equiv> 12"

definition virtio_net_recv_request ::
    "(u8 list \<Rightarrow> 'e \<Rightarrow> 'e) \<Rightarrow> (nat \<Rightarrow> u8) \<Rightarrow> 'e VIRTIONetDevice device_recv" where
  "virtio_net_recv_request write_packet junk queue_idx desc_idx read_size write_size s =
     (if queue_idx = 1 then
        (let header_size = net_header_size (vm_opaque s) in
         andDo (memcpy_from_queue (vm_dev s) (malloc_bytes junk sizeof_VIRTIONetHeader) queue_idx desc_idx 0
           header_size (memory (vm_emu s))) (\<lambda>(ret, h, _).
         if ret < 0 then Some (Inr (0, s))
         else
           (let len = read_size - header_size in
            andDo (memcpy_from_queue (vm_dev s) (malloc_bytes junk len) queue_idx desc_idx header_size len
              (memory (vm_emu s))) (\<lambda>(_, buf, _).
            let s = vm_opaque_update (net_es_update (write_packet buf)) s in
            andDo (Some (virtio_consume_desc queue_idx desc_idx 0 s)) (\<lambda>s. Some (Inr (0, s)))))))
      else Some (Inr (0, s)))"

definition virtio_net_can_write_packet :: "'e VIRTIONetDevice vm \<Rightarrow> bool result" where
  "virtio_net_can_write_packet s = can_send s"

definition virtio_net_write_packet :: "u8 list \<Rightarrow> 'e VIRTIONetDevice vm \<Rightarrow> 'e VIRTIONetDevice vm result option" where
  "virtio_net_write_packet buf s =
     andDo (Some (next_avail 0 s)) (\<lambda>next. case next of
       None \<Rightarrow> Some (Inr s)
     | Some desc_idx \<Rightarrow>
         andDo (get_desc_rw_size (vm_dev s) 0 desc_idx (memory (vm_emu s))) (\<lambda>sizes. case sizes of
           None \<Rightarrow> Some (Inr s)
         | Some (read_size, write_size) \<Rightarrow>
             (let header_size = net_header_size (vm_opaque s); len = header_size + int (length buf) in
              if len > write_size then Some (Inr s)
              else
                andDo (to_queue 0 desc_idx 0 (replicate (nat header_size) 0) header_size s) (\<lambda>s.
                andDo (to_queue 0 desc_idx header_size buf (int (length buf)) s) (\<lambda>s.
                andDo (Some (virtio_consume_desc 0 desc_idx len s)) (\<lambda>s.
                Some (Inr (advance 0 s))))))))"

text \<open>The body is in an \<^verbatim>\<open>#if 0\<close>.\<close>

definition virtio_net_set_carrier :: "bool \<Rightarrow> 'e VIRTIONetDevice vm \<Rightarrow> 'e VIRTIONetDevice vm" where
  "virtio_net_set_carrier carrier_state s = s"

definition virtio_net_init :: "u8 list \<Rightarrow> 'e \<Rightarrow> VIRTIODevice \<times> 'e VIRTIONetDevice" where
  "virtio_net_init mac_addr es =
     (let d = virtio_init 1 (6 + 2); d = d\<lparr>v_device_features := push_bit 5 1\<rparr>;
          d = upd_queue 0 (q_manual_recv_update (\<lambda>_. True)) d;
          d = v_config_space_update (\<lambda>p. take 6 mac_addr @ drop 6 p) d;
          d = v_config_space_update (\<lambda>p. p[6 := 0, 7 := 0]) d in
      (d, \<lparr>net_es = es, net_header_size = sizeof_VIRTIONetHeader\<rparr>))"

interpretation net_bus: bus_device "virtio_net_recv_request write_packet junk" for write_packet junk
proof (rule bus_deviceI)
  fix queue_idx d r w ret and s s' :: "'a VIRTIONetDevice vm"
  assume "virtio_net_recv_request write_packet junk queue_idx d r w s = Some (Inr (ret, s'))"
  then show "vm_emu s' = vm_emu s \<and> vm_dev s' = vm_dev s \<or> replied s s'"
    by (auto simp: virtio_net_recv_request_def Let_def andDo_Inr_iff split: if_splits dest!: consume_desc_replied(1))
qed

interpretation net: eager_device "virtio_net_recv_request write_packet junk" "\<lambda>_. True" for write_packet junk
  by unfold_locales
    (auto simp: virtio_net_recv_request_def Let_def andDo_Inr_iff split: if_splits)

text \<open>A packet the driver sends: what follows the header reaches the back end.\<close>

lemma net_transmits:
  assumes "request_ok s 1 d rs ws index" "net_header_size (vm_opaque s) = 12" "12 \<le> chain_len rs"
  shows "\<exists>s'. virtio_net_recv_request write_packet junk 1 (uint d) (chain_len rs) w s = Some (Inr (0, s')) \<and>
    net_es (vm_opaque s') = write_packet (drop 12 (payload (memory (vm_emu s)) rs)) (net_es (vm_opaque s)) \<and>
    answered s 1 d 0 index ws (payload (memory (vm_emu s)) ws) s'"
proof -
  let ?p = "payload (memory (vm_emu s)) rs"
  have head: "memcpy_from_queue (vm_dev s) (malloc_bytes junk 12) 1 (uint d) 0 12 (memory (vm_emu s)) =
      Some (Inr (0, take 12 ?p, memory (vm_emu s)))"
    using gather_request [OF assms(1), of 0 "malloc_bytes junk 12"] assms(3) by (simp add: malloc_bytes_def)
  have len: "int (length (malloc_bytes junk (chain_len rs - 12))) = chain_len rs - 12"
    using assms(3) by (simp add: malloc_bytes_def)
  have "take (length (malloc_bytes junk (chain_len rs - 12))) (drop 12 ?p) = drop 12 ?p"
    by (simp add: malloc_bytes_def length_payload nat_diff_distrib)
  then have body: "memcpy_from_queue (vm_dev s) (malloc_bytes junk (chain_len rs - 12)) 1 (uint d) 12
      (chain_len rs - 12) (memory (vm_emu s)) = Some (Inr (0, drop 12 ?p, memory (vm_emu s)))"
    using gather_request [OF assms(1), of 12 "malloc_bytes junk (chain_len rs - 12)"] unfolding len by simp
  let ?s = "vm_opaque_update (net_es_update (write_packet (drop 12 ?p))) s"
  have "request_ok ?s 1 d rs ws index" using assms(1) by simp
  then obtain s' where s': "virtio_consume_desc 1 (uint d) 0 ?s = Inr s'" "vm_opaque s' = vm_opaque ?s"
      "answered ?s 1 d 0 index ws (payload (memory (vm_emu ?s)) ws) s'" by (rule consume_ok)
  show ?thesis
    using s' by (simp add: virtio_net_recv_request_def assms(2) head body del: One_nat_def)
qed

text \<open>
  A packet for the driver: the header of zeros and the packet go to the buffers of the next chain, if
  they fit; otherwise nothing changes.
\<close>

lemma splice_header: "length zs = k \<Longrightarrow> splice k xs (splice 0 zs ys) = splice 0 (zs @ xs) ys"
  by (simp add: splice_def add.commute)

lemma net_receives:
  assumes "next_avail 0 s = Inr (Some (uint d))" "request_ok s 0 d rs ws index"
    and "net_header_size (vm_opaque s) = 12" "12 + int (length buf) \<le> chain_len ws"
  shows "\<exists>s'. virtio_net_write_packet buf s = Some (Inr (advance 0 s')) \<and> vm_opaque s' = vm_opaque s \<and> replied s s' \<and>
    answered s 0 d (12 + int (length buf)) index ws
      (splice 0 (replicate 12 0 @ buf) (payload (memory (vm_emu s)) ws)) s'"
proof -
  note sizes = request_sizes [OF assms(2)]
  obtain m1 where m1: "to_queue 0 (uint d) 0 (replicate 12 0) 12 s = Some (Inr (with_ram m1 s))"
      "payload m1 ws = splice 0 (replicate 12 0) (payload (memory (vm_emu s)) ws)"
      "\<And>b. b \<notin> (\<Union>x \<in> set ws. desc_window x) \<Longrightarrow> ram_byte m1 b = ram_byte (memory (vm_emu s)) b"
      "request_ok (with_ram m1 s) 0 d rs ws index"
    using scatter_ok [OF assms(2), of 0 12 "replicate 12 0"] assms(4) by auto
  obtain m2 where m2: "to_queue 0 (uint d) 12 buf (int (length buf)) (with_ram m1 s) = Some (Inr (with_ram m2 s))"
      "payload m2 ws = splice 12 buf (payload m1 ws)"
      "\<And>b. b \<notin> (\<Union>x \<in> set ws. desc_window x) \<Longrightarrow> ram_byte m2 b = ram_byte m1 b"
      "request_ok (with_ram m2 s) 0 d rs ws index"
    using scatter_ok [OF m1(4), of 12 "int (length buf)" buf] assms(4) by auto
  obtain s' where s': "virtio_consume_desc 0 (uint d) (12 + int (length buf)) (with_ram m2 s) = Inr s'"
      "vm_opaque s' = vm_opaque s" "answered (with_ram m2 s) 0 d (12 + int (length buf)) index ws (payload m2 ws) s'"
    using consume_ok [OF m2(4), of "12 + int (length buf)"] by auto
  have "answered s 0 d (12 + int (length buf)) index ws (payload m2 ws) s'"
    using answered_after [OF s'(3)] m1(3) m2(3) by metis
  moreover have "payload m2 ws = splice 0 (replicate 12 0 @ buf) (payload (memory (vm_emu s)) ws)"
    using splice_header [of "replicate 12 (0 :: u8)" 12] by (simp add: m1(2) m2(2))
  moreover have "replied s s'"
    using consume_desc_replied(1) [OF s'(1)] bus_access_trans [OF bus_access_memory [of "vm_emu s" m2]]
    by (simp add: replied_def)
  ultimately show ?thesis
    using assms(1,3,4) sizes m1(1) m2(1) s'(1,2)
    by (intro exI [of _ s']) (simp add: virtio_net_write_packet_def Let_def)
qed

lemma net_drops:
  assumes "next_avail 0 s = Inr None \<or> (next_avail 0 s = Inr (Some (uint d)) \<and> request_ok s 0 d rs ws index \<and>
    chain_len ws < net_header_size (vm_opaque s) + int (length buf))"
  shows "virtio_net_write_packet buf s = Some (Inr s)"
  using assms request_sizes [of s 0 d rs ws index] by (auto simp: virtio_net_write_packet_def Let_def)

section \<open>The console device\<close>

record 'c VIRTIOConsoleDevice =
  con_cs :: 'c

definition virtio_console_recv_request ::
    "(u8 list \<Rightarrow> 'c \<Rightarrow> 'c) \<Rightarrow> (nat \<Rightarrow> u8) \<Rightarrow> 'c VIRTIOConsoleDevice device_recv" where
  "virtio_console_recv_request write_data junk queue_idx desc_idx read_size write_size s =
     (if queue_idx = 1 then
        andDo (memcpy_from_queue (vm_dev s) (malloc_bytes junk read_size) queue_idx desc_idx 0 read_size
          (memory (vm_emu s))) (\<lambda>(_, buf, _).
        let s = vm_opaque_update (con_cs_update (write_data buf)) s in
        andDo (Some (virtio_consume_desc queue_idx desc_idx 0 s)) (\<lambda>s. Some (Inr (0, s))))
      else Some (Inr (0, s)))"

definition virtio_console_can_write_data :: "'c VIRTIOConsoleDevice vm \<Rightarrow> bool result" where
  "virtio_console_can_write_data s = can_send s"

definition virtio_console_get_write_len :: "'c VIRTIOConsoleDevice vm \<Rightarrow> int result option" where
  "virtio_console_get_write_len s =
     andDo (Some (next_avail 0 s)) (\<lambda>next. case next of
       None \<Rightarrow> Some (Inr 0)
     | Some desc_idx \<Rightarrow>
         andDo (get_desc_rw_size (vm_dev s) 0 desc_idx (memory (vm_emu s))) (\<lambda>sizes. case sizes of
           None \<Rightarrow> Some (Inr 0)
         | Some (read_size, write_size) \<Rightarrow> Some (Inr write_size)))"

definition virtio_console_write_data ::
    "u8 list \<Rightarrow> 'c VIRTIOConsoleDevice vm \<Rightarrow> (int \<times> 'c VIRTIOConsoleDevice vm) result option" where
  "virtio_console_write_data buf s =
     andDo (Some (next_avail 0 s)) (\<lambda>next. case next of
       None \<Rightarrow> Some (Inr (0, s))
     | Some desc_idx \<Rightarrow>
         andDo (answer 0 desc_idx buf (int (length buf)) s) (\<lambda>s.
         Some (Inr (int (length buf), advance 0 s))))"

definition virtio_console_resize_event :: "int \<Rightarrow> int \<Rightarrow> 'c VIRTIOConsoleDevice vm \<Rightarrow> 'c VIRTIOConsoleDevice vm" where
  "virtio_console_resize_event width height s =
     virtio_config_change_notify (s\<lparr>vm_dev := v_config_space_update
       (\<lambda>p. put_le16 (put_le16 p 0 (of_int width)) 2 (of_int height)) (vm_dev s)\<rparr>)"

definition virtio_console_init :: "'c \<Rightarrow> VIRTIODevice \<times> 'c VIRTIOConsoleDevice" where
  "virtio_console_init cs =
     (let d = virtio_init 3 4; d = d\<lparr>v_device_features := push_bit 0 1\<rparr>;
          d = upd_queue 0 (q_manual_recv_update (\<lambda>_. True)) d in
      (d, \<lparr>con_cs = cs\<rparr>))"

interpretation console_bus: bus_device "virtio_console_recv_request write_data junk" for write_data junk
proof (rule bus_deviceI)
  fix queue_idx d r w ret and s s' :: "'a VIRTIOConsoleDevice vm"
  assume "virtio_console_recv_request write_data junk queue_idx d r w s = Some (Inr (ret, s'))"
  then show "vm_emu s' = vm_emu s \<and> vm_dev s' = vm_dev s \<or> replied s s'"
    by (auto simp: virtio_console_recv_request_def Let_def andDo_Inr_iff split: if_splits dest!: consume_desc_replied(1))
qed

interpretation console: eager_device "virtio_console_recv_request write_data junk" "\<lambda>_. True" for write_data junk
  by unfold_locales
    (auto simp: virtio_console_recv_request_def Let_def andDo_Inr_iff split: if_splits)

lemma console_outputs:
  assumes "request_ok s 1 d rs ws index"
  shows "\<exists>s'. virtio_console_recv_request write_data junk 1 (uint d) (chain_len rs) w s = Some (Inr (0, s')) \<and>
    con_cs (vm_opaque s') = write_data (payload (memory (vm_emu s)) rs) (con_cs (vm_opaque s)) \<and>
    answered s 1 d 0 index ws (payload (memory (vm_emu s)) ws) s'"
proof -
  let ?p = "payload (memory (vm_emu s)) rs"
  have len: "int (length (malloc_bytes junk (chain_len rs))) = chain_len rs" by (simp add: malloc_bytes_def)
  have "take (length (malloc_bytes junk (chain_len rs))) ?p = ?p" by (simp add: malloc_bytes_def length_payload)
  then have body: "memcpy_from_queue (vm_dev s) (malloc_bytes junk (chain_len rs)) 1 (uint d) 0
      (chain_len rs) (memory (vm_emu s)) = Some (Inr (0, ?p, memory (vm_emu s)))"
    using gather_request [OF assms(1), of 0 "malloc_bytes junk (chain_len rs)"] unfolding len by simp
  let ?s = "vm_opaque_update (con_cs_update (write_data ?p)) s"
  have "request_ok ?s 1 d rs ws index" using assms(1) by simp
  then obtain s' where s': "virtio_consume_desc 1 (uint d) 0 ?s = Inr s'" "vm_opaque s' = vm_opaque ?s"
      "answered ?s 1 d 0 index ws (payload (memory (vm_emu ?s)) ws) s'" by (rule consume_ok)
  show ?thesis
    using s' by (simp add: virtio_console_recv_request_def body del: One_nat_def)
qed

lemma console_inputs:
  assumes "next_avail 0 s = Inr (Some (uint d))" "request_ok s 0 d rs ws index" "int (length buf) \<le> chain_len ws"
  shows "virtio_console_get_write_len s = Some (Inr (chain_len ws)) \<and>
    (\<exists>s'. virtio_console_write_data buf s = Some (Inr (int (length buf), advance 0 s')) \<and> vm_opaque s' = vm_opaque s \<and>
      answered s 0 d (int (length buf)) index ws (splice 0 buf (payload (memory (vm_emu s)) ws)) s')"
  using answer_ok [OF assms(2), of "int (length buf)" buf] assms(1,3) request_sizes [OF assms(2)]
  by (auto simp: virtio_console_get_write_len_def virtio_console_write_data_def)

section \<open>The registers stay well-formed\<close>

lemma net_init_ok:
  assumes "length mac_addr = 6"
  shows "mmio_ok (fst (virtio_net_init mac_addr es))" "v_int_status (fst (virtio_net_init mac_addr es)) = 0"
proof -
  have d: "mmio_ok (virtio_init 1 8)" by (rule virtio_init_ok) simp_all
  have "mmio_ok (upd_queue 0 (q_manual_recv_update (\<lambda>_. True)) ((virtio_init 1 8)\<lparr>v_device_features := push_bit 5 1\<rparr>))"
    by (rule upd_queue_ok) (use d in \<open>simp_all add: queue_ok_def mmio_ok_def\<close>)
  then show "mmio_ok (fst (virtio_net_init mac_addr es))"
    using assms by (simp add: mmio_ok_def virtio_net_init_def Let_def)
  show "v_int_status (fst (virtio_net_init mac_addr es)) = 0"
    by (simp add: virtio_net_init_def Let_def virtio_init_def virtio_reset_def)
qed

lemma net_write_keeps:
  assumes "virtio_net_write_packet buf s = Some (Inr s')" "device_ok s"
  shows "device_ok s'"
proof -
  note def = assms(1) [unfolded virtio_net_write_packet_def Let_def andDo_Inr_iff]
  then obtain nx where nx: "next_avail 0 s = Inr nx" by blast
  show ?thesis
  proof (cases nx)
    case None
    then show ?thesis using def nx assms(2) by simp
  next
    case (Some d)
    then obtain sizes where sizes: "get_desc_rw_size (vm_dev s) 0 d (memory (vm_emu s)) = Some (Inr sizes)"
      using def nx by (auto simp: andDo_Inr_iff)
    show ?thesis
    proof (cases "\<exists>r w. sizes = Some (r, w) \<and> net_header_size (vm_opaque s) + int (length buf) \<le> w")
      case False
      then have "s' = s" using def nx Some sizes by (cases sizes) (auto simp: andDo_Inr_iff not_less split: if_splits)
      then show ?thesis using assms(2) by simp
    next
      case True
      then obtain t1 t2 t where "to_queue 0 d 0 (replicate (nat (net_header_size (vm_opaque s))) 0)
          (net_header_size (vm_opaque s)) s = Some (Inr t1)"
        "to_queue 0 d (net_header_size (vm_opaque s)) buf (int (length buf)) t1 = Some (Inr t2)"
        and t: "virtio_consume_desc 0 d (net_header_size (vm_opaque s) + int (length buf)) t2 = Inr t" "s' = advance 0 t"
        using def nx Some sizes by (auto simp: andDo_Inr_iff)
      then obtain m where m: "t2 = with_ram m s" by (auto elim!: to_queue_frame)
      have "device_ok t" using replied_ok [OF with_ram_ok [OF assms(2)]] consume_desc_replied(1) [OF t(1) [unfolded m]] .
      then show ?thesis using t(2) by (auto intro: advance_ok)
    qed
  qed
qed

lemma console_write_keeps:
  assumes "virtio_console_write_data buf s = Some (Inr (n, s'))" "device_ok s"
  shows "device_ok s'"
  using assms
  by (auto simp: virtio_console_write_data_def andDo_Inr_iff split: option.splits
      dest!: answer_replied(1) replied_ok [OF assms(2)] intro!: advance_ok)

lemma console_resize_keeps: "device_ok s \<Longrightarrow> device_ok (virtio_console_resize_event width height s)"
  unfolding virtio_console_resize_event_def
  by (rule config_change_keeps) (simp add: device_ok_def mmio_ok_def line_ok_def put_le16_def)

lemma console_size:
  assumes "device_ok s"
  shows "get_le16 (v_config_space (vm_dev (virtio_console_resize_event width height s))) 0 = of_int width"
    "get_le16 (v_config_space (vm_dev (virtio_console_resize_event width height s))) 2 = of_int height"
proof -
  have len: "length (v_config_space (vm_dev s)) = MAX_CONFIG_SPACE_SIZE" using assms by (simp add: device_ok_def mmio_ok_def)
  show "get_le16 (v_config_space (vm_dev (virtio_console_resize_event width height s))) 0 = of_int width"
    "get_le16 (v_config_space (vm_dev (virtio_console_resize_event width height s))) 2 = of_int height"
    using len by (simp_all add: virtio_console_resize_event_def virtio_config_change_notify_def get_le16_def
        put_le16_def join_le16)
qed

end
