(* ===== verification/Virtio_Input.thy ===== *)
theory Virtio_Input
  imports Virtio_Net
begin

text \<open>
  The input device of \<^verbatim>\<open>temu/virtio.c\<close>: a keyboard, a mouse or a tablet that sends events of eight bytes
  to the driver, and a configuration space that answers the queries the driver writes to it.
\<close>

section \<open>Events\<close>

datatype VirtioInputTypeEnum = VIRTIO_INPUT_TYPE_KEYBOARD | VIRTIO_INPUT_TYPE_MOUSE | VIRTIO_INPUT_TYPE_TABLET

record VIRTIOInputDevice =
  inp_type :: VirtioInputTypeEnum
  inp_buttons_state :: u32

type_synonym ivm = "VIRTIOInputDevice vm"

abbreviation VIRTIO_INPUT_EV_SYN :: u16 where "VIRTIO_INPUT_EV_SYN \<equiv> 0x00"
abbreviation VIRTIO_INPUT_EV_KEY :: u16 where "VIRTIO_INPUT_EV_KEY \<equiv> 0x01"
abbreviation VIRTIO_INPUT_EV_REL :: u16 where "VIRTIO_INPUT_EV_REL \<equiv> 0x02"
abbreviation VIRTIO_INPUT_EV_ABS :: u16 where "VIRTIO_INPUT_EV_ABS \<equiv> 0x03"
abbreviation VIRTIO_INPUT_EV_REP :: u16 where "VIRTIO_INPUT_EV_REP \<equiv> 0x14"

abbreviation BTN_LEFT :: u16 where "BTN_LEFT \<equiv> 0x110"
abbreviation BTN_RIGHT :: u16 where "BTN_RIGHT \<equiv> 0x111"
abbreviation BTN_MIDDLE :: u16 where "BTN_MIDDLE \<equiv> 0x112"
abbreviation REL_X :: u16 where "REL_X \<equiv> 0x00"
abbreviation REL_Y :: u16 where "REL_Y \<equiv> 0x01"
abbreviation REL_WHEEL :: u16 where "REL_WHEEL \<equiv> 0x08"
abbreviation ABS_X :: u16 where "ABS_X \<equiv> 0x00"
abbreviation ABS_Y :: u16 where "ABS_Y \<equiv> 0x01"

definition buttons_list :: "u16 list" where "buttons_list = [BTN_LEFT, BTN_RIGHT, BTN_MIDDLE]"

definition virtio_input_recv_request :: "VIRTIOInputDevice device_recv" where
  "virtio_input_recv_request queue_idx desc_idx read_size write_size s =
     (if queue_idx = 1
      then andDo (Some (virtio_consume_desc queue_idx desc_idx 0 s)) (\<lambda>s. Some (Inr (0, s)))
      else Some (Inr (0, s)))"

text \<open>The buffer of an event.\<close>

definition event_bytes :: "u16 \<Rightarrow> u16 \<Rightarrow> u32 \<Rightarrow> u8 list" where
  "event_bytes type code val = put_le32 (put_le16 (put_le16 (replicate 8 0) 0 type) 2 code) 4 val"

definition virtio_input_queue_event :: "u16 \<Rightarrow> u16 \<Rightarrow> u32 \<Rightarrow> ivm \<Rightarrow> (int \<times> ivm) result option" where
  "virtio_input_queue_event type code val s =
     andDo (Some (next_avail 0 s)) (\<lambda>next. case next of
       None \<Rightarrow> Some (Inr (-1, s))
     | Some desc_idx \<Rightarrow>
         andDo (answer 0 desc_idx (event_bytes type code val) 8 s) (\<lambda>s. Some (Inr (0, advance 0 s))))"

text \<open>\<^verbatim>\<open>if (ret != 0) return ret;\<close> after an event.\<close>

definition on_success :: "(int \<times> ivm) result option \<Rightarrow> (ivm \<Rightarrow> (int \<times> ivm) result option) \<Rightarrow> (int \<times> ivm) result option" where
  "on_success r f = andDo r (\<lambda>(ret, s). if ret \<noteq> 0 then Some (Inr (ret, s)) else f s)"

definition virtio_input_send_key_event :: "int \<Rightarrow> u16 \<Rightarrow> ivm \<Rightarrow> (int \<times> ivm) result option" where
  "virtio_input_send_key_event down key_code s =
     (if inp_type (vm_opaque s) \<noteq> VIRTIO_INPUT_TYPE_KEYBOARD then Some (Inr (-1, s))
      else
        on_success (virtio_input_queue_event VIRTIO_INPUT_EV_KEY key_code (of_int down) s)
          (virtio_input_queue_event VIRTIO_INPUT_EV_SYN 0 0))"

text \<open>The loop over the buttons, from button \<open>i\<close> on.\<close>

fun send_buttons :: "u32 \<Rightarrow> nat \<Rightarrow> u16 list \<Rightarrow> ivm \<Rightarrow> (int \<times> ivm) result option" where
  "send_buttons buttons i [] s = Some (Inr (0, s))"
| "send_buttons buttons i (btn # btns) s =
     (let b = drop_bit i buttons AND 1; last_b = drop_bit i (inp_buttons_state (vm_opaque s)) AND 1 in
      if b \<noteq> last_b
      then on_success (virtio_input_queue_event VIRTIO_INPUT_EV_KEY btn b s) (send_buttons buttons (i + 1) btns)
      else send_buttons buttons (i + 1) btns s)"

definition virtio_input_send_mouse_event ::
    "int \<Rightarrow> int \<Rightarrow> int \<Rightarrow> u32 \<Rightarrow> ivm \<Rightarrow> (int \<times> ivm) result option" where
  "virtio_input_send_mouse_event dx dy dz buttons s =
     (let type = inp_type (vm_opaque s) in
      if type \<noteq> VIRTIO_INPUT_TYPE_MOUSE \<and> type \<noteq> VIRTIO_INPUT_TYPE_TABLET then Some (Inr (-1, s))
      else
        on_success
          (if type = VIRTIO_INPUT_TYPE_MOUSE then
             on_success (virtio_input_queue_event VIRTIO_INPUT_EV_REL REL_X (of_int dx) s)
               (virtio_input_queue_event VIRTIO_INPUT_EV_REL REL_Y (of_int dy))
           else
             on_success (virtio_input_queue_event VIRTIO_INPUT_EV_ABS ABS_X (of_int dx) s)
               (virtio_input_queue_event VIRTIO_INPUT_EV_ABS ABS_Y (of_int dy))) (\<lambda>s.
        on_success
          (if dz \<noteq> 0 then virtio_input_queue_event VIRTIO_INPUT_EV_REL REL_WHEEL (of_int dz) s
           else Some (Inr (0, s))) (\<lambda>s.
        on_success
          (if buttons \<noteq> inp_buttons_state (vm_opaque s)
           then on_success (send_buttons buttons 0 buttons_list s)
             (\<lambda>s. Some (Inr (0, vm_opaque_update (inp_buttons_state_update (\<lambda>_. buttons)) s)))
           else Some (Inr (0, s)))
        (virtio_input_queue_event VIRTIO_INPUT_EV_SYN 0 0))))"

section \<open>Queries\<close>

abbreviation VIRTIO_INPUT_CFG_UNSET :: u8 where "VIRTIO_INPUT_CFG_UNSET \<equiv> 0x00"
abbreviation VIRTIO_INPUT_CFG_ID_NAME :: u8 where "VIRTIO_INPUT_CFG_ID_NAME \<equiv> 0x01"
abbreviation VIRTIO_INPUT_CFG_EV_BITS :: u8 where "VIRTIO_INPUT_CFG_EV_BITS \<equiv> 0x11"
abbreviation VIRTIO_INPUT_CFG_ABS_INFO :: u8 where "VIRTIO_INPUT_CFG_ABS_INFO \<equiv> 0x12"
abbreviation VIRTIO_INPUT_ABS_SCALE :: u32 where "VIRTIO_INPUT_ABS_SCALE \<equiv> 32768"

definition bytes_of_string :: "string \<Rightarrow> u8 list" where
  "bytes_of_string str = map (\<lambda>c. of_nat (of_char c)) str"

text \<open>\<^verbatim>\<open>set_bit(config + 8, k)\<close>.\<close>

definition set_config_bit :: "nat \<Rightarrow> u8 list \<Rightarrow> u8 list" where
  "set_config_bit k p = p[8 + k div 8 := p ! (8 + k div 8) OR push_bit (k mod 8) 1]"

abbreviation set_bits :: "u16 list \<Rightarrow> u8 list \<Rightarrow> u8 list" where
  "set_bits ks p \<equiv> fold (\<lambda>k. set_config_bit (unat k)) ks p"

definition input_name :: "VirtioInputTypeEnum \<Rightarrow> string" where
  "input_name type = (case type of
     VIRTIO_INPUT_TYPE_KEYBOARD \<Rightarrow> ''virtio_keyboard''
   | VIRTIO_INPUT_TYPE_MOUSE \<Rightarrow> ''virtio_mouse''
   | VIRTIO_INPUT_TYPE_TABLET \<Rightarrow> ''virtio_tablet'')"

text \<open>The case \<^verbatim>\<open>VIRTIO_INPUT_CFG_EV_BITS\<close>, with \<^verbatim>\<open>config[2]\<close> already 0.\<close>

definition ev_bits :: "VirtioInputTypeEnum \<Rightarrow> u8 list \<Rightarrow> u8 list" where
  "ev_bits type p =
     (let ev = ucast (p ! 1) :: u16 in
      case type of
        VIRTIO_INPUT_TYPE_KEYBOARD \<Rightarrow>
          (if ev = VIRTIO_INPUT_EV_KEY then splice 8 (replicate (128 div 8) 0xff) (p[2 := of_nat (128 div 8)])
           else if ev = VIRTIO_INPUT_EV_REP then p[2 := 1]
           else p)
      | VIRTIO_INPUT_TYPE_MOUSE \<Rightarrow>
          (if ev = VIRTIO_INPUT_EV_KEY then
             set_bits buttons_list (splice 8 (replicate (512 div 8) 0) (p[2 := of_nat (512 div 8)]))
           else if ev = VIRTIO_INPUT_EV_REL then set_bits [REL_X, REL_Y, REL_WHEEL] (p[2 := 2, 8 := 0, 9 := 0])
           else p)
      | VIRTIO_INPUT_TYPE_TABLET \<Rightarrow>
          (if ev = VIRTIO_INPUT_EV_KEY then
             set_bits buttons_list (splice 8 (replicate (512 div 8) 0) (p[2 := of_nat (512 div 8)]))
           else if ev = VIRTIO_INPUT_EV_REL then set_bits [REL_WHEEL] (p[2 := 2, 8 := 0, 9 := 0])
           else if ev = VIRTIO_INPUT_EV_ABS then set_bits [ABS_X, ABS_Y] (p[2 := 1, 8 := 0])
           else p))"

definition input_config :: "VirtioInputTypeEnum \<Rightarrow> u8 list \<Rightarrow> u8 list" where
  "input_config type p =
     (let sel = p ! 0 in
      if sel = VIRTIO_INPUT_CFG_UNSET then p
      else if sel = VIRTIO_INPUT_CFG_ID_NAME then
        (let name = bytes_of_string (input_name type) in splice 8 name (p[2 := of_nat (length name)]))
      else if sel = VIRTIO_INPUT_CFG_EV_BITS then ev_bits type (p[2 := 0])
      else if sel = VIRTIO_INPUT_CFG_ABS_INFO then
        (if type = VIRTIO_INPUT_TYPE_TABLET \<and> p ! 1 \<le> 1 then
           put_le32 (put_le32 (put_le32 (put_le32 (put_le32 (p[2 := 5 * 4]) 8 0)
             12 (VIRTIO_INPUT_ABS_SCALE - 1)) 16 0) 20 0) 24 0
         else p)
      else p[2 := 0])"

definition virtio_input_config_write :: "ivm \<Rightarrow> ivm" where
  "virtio_input_config_write s =
     s\<lparr>vm_dev := v_config_space_update (input_config (inp_type (vm_opaque s))) (vm_dev s)\<rparr>"

definition virtio_input_init :: "VirtioInputTypeEnum \<Rightarrow> VIRTIODevice \<times> VIRTIOInputDevice" where
  "virtio_input_init type =
     (let d = virtio_init 18 256; d = upd_queue 0 (q_manual_recv_update (\<lambda>_. True)) d;
          d = d\<lparr>v_device_features := 0\<rparr> in
      (d, \<lparr>inp_type = type, inp_buttons_state = 0\<rparr>))"

section \<open>The contracts\<close>

interpretation input_bus: bus_device virtio_input_recv_request
proof (rule bus_deviceI)
  fix queue_idx d r w ret and s s' :: ivm
  assume "virtio_input_recv_request queue_idx d r w s = Some (Inr (ret, s'))"
  then show "vm_emu s' = vm_emu s \<and> vm_dev s' = vm_dev s \<or> replied s s'"
    by (auto simp: virtio_input_recv_request_def andDo_Inr_iff split: if_splits dest!: consume_desc_replied(1))
qed

interpretation input: eager_device virtio_input_recv_request "\<lambda>_. True"
  by unfold_locales (auto simp: virtio_input_recv_request_def andDo_Inr_iff split: if_splits)

section \<open>What an event puts into memory\<close>

lemma event_bytes_eq:
  "event_bytes type code val = [ucast type, ucast (drop_bit 8 type), ucast code, ucast (drop_bit 8 code), ucast val,
     ucast (drop_bit 8 val), ucast (drop_bit 16 val), ucast (drop_bit 24 val)]"
  by (simp add: event_bytes_def put_le16_def put_le32_def numeral_nat)

lemma get_event:
  "get_le16 (event_bytes type code val) 0 = type" "get_le16 (event_bytes type code val) 2 = code"
  "get_le32 (event_bytes type code val) 4 = val" "length (event_bytes type code val) = 8"
  by (simp_all add: get_le16_def get_le32_def event_bytes_eq join_le16 join_le32)

lemma input_event:
  assumes "next_avail 0 s = Inr (Some (uint d))" "request_ok s 0 d rs ws index" "8 \<le> chain_len ws"
  shows "\<exists>s'. virtio_input_queue_event type code val s = Some (Inr (0, advance 0 s')) \<and> vm_opaque s' = vm_opaque s \<and>
    answered s 0 d 8 index ws (splice 0 (event_bytes type code val) (payload (memory (vm_emu s)) ws)) s'"
  using answer_ok [OF assms(2), of 8 "event_bytes type code val"] assms(1,3)
  by (auto simp: virtio_input_queue_event_def get_event(4))

lemma queue_event_cases:
  assumes "virtio_input_queue_event type code val s = Some (Inr (ret, s'))"
  obtains (full) "ret = -1" "s' = s" | (sent) t where "ret = 0" "s' = advance 0 t" "replied s t" "vm_opaque t = vm_opaque s"
proof -
  from assms consider "ret = -1" "s' = s"
    | d t where "ret = 0" "s' = advance 0 t" "answer 0 d (event_bytes type code val) 8 s = Some (Inr t)"
    by (auto simp: virtio_input_queue_event_def andDo_Inr_iff split: option.splits)
  then show thesis using that answer_replied by cases blast+
qed

text \<open>An operation that keeps the device well-formed when it returns, and how such operations compose.\<close>

definition safe_op :: "(ivm \<Rightarrow> (int \<times> ivm) result option) \<Rightarrow> bool" where
  "safe_op f \<longleftrightarrow> (\<forall>s ret s'. device_ok s \<longrightarrow> f s = Some (Inr (ret, s')) \<longrightarrow> device_ok s')"

lemma safe_ops:
  "safe_op (\<lambda>s. Some (Inr (ret, s)))"
  "safe_op (\<lambda>s. Some (Inr (ret, vm_opaque_update h s)))"
  "safe_op f \<Longrightarrow> (\<And>s. safe_op (g s)) \<Longrightarrow> safe_op (\<lambda>s. on_success (f s) (g s))"
  "safe_op f \<Longrightarrow> safe_op f' \<Longrightarrow> safe_op (\<lambda>s. if c s then f s else f' s)"
proof -
  fix f and g :: "ivm \<Rightarrow> ivm \<Rightarrow> (int \<times> ivm) result option"
  assume f: "safe_op f" and g: "\<And>s. safe_op (g s)"
  show "safe_op (\<lambda>s. on_success (f s) (g s))"
    unfolding safe_op_def
  proof (intro allI impI)
    fix s ret s' assume s: "device_ok s" and r: "on_success (f s) (g s) = Some (Inr (ret, s'))"
    from r obtain k t where t: "f s = Some (Inr (k, t))"
        "(if k \<noteq> 0 then Some (Inr (k, t)) else g s t) = Some (Inr (ret, s'))"
      by (auto simp: on_success_def andDo_Inr_iff)
    have "device_ok t" using f s t(1) unfolding safe_op_def by blast
    then show "device_ok s'" using t(2) g [of s] unfolding safe_op_def by (cases "k = 0") auto
  qed
next
  have "device_ok (vm_opaque_update h s) = device_ok s" for s by (simp add: device_ok_def line_ok_def)
  then show "safe_op (\<lambda>s. Some (Inr (ret, vm_opaque_update h s)))" by (simp add: safe_op_def)
next
  fix f f' :: "ivm \<Rightarrow> (int \<times> ivm) result option"
  assume "safe_op f" "safe_op f'"
  then show "safe_op (\<lambda>s. if c s then f s else f' s)" unfolding safe_op_def by metis
qed (simp add: safe_op_def)

lemma safe_queue_event: "safe_op (virtio_input_queue_event type code val)"
  unfolding safe_op_def by (auto elim!: queue_event_cases intro: advance_ok dest: replied_ok)

lemma safe_buttons: "safe_op (send_buttons buttons i btns)"
proof (induction btns arbitrary: i)
  case Nil
  have "send_buttons buttons i [] = (\<lambda>s. Some (Inr (0, s)))" by (rule ext) simp
  then show ?case by (simp only: safe_ops(1))
next
  case (Cons btn btns)
  have "send_buttons buttons i (btn # btns) = (\<lambda>s.
      if drop_bit i buttons AND 1 \<noteq> drop_bit i (inp_buttons_state (vm_opaque s)) AND 1
      then on_success (virtio_input_queue_event VIRTIO_INPUT_EV_KEY btn (drop_bit i buttons AND 1) s)
        (send_buttons buttons (i + 1) btns)
      else send_buttons buttons (i + 1) btns s)"
    by (rule ext) (simp add: Let_def)
  then show ?case by (simp only:) (intro safe_ops Cons.IH safe_queue_event)
qed

lemma safe_mouse_event: "safe_op (virtio_input_send_mouse_event dx dy dz buttons)"
  unfolding virtio_input_send_mouse_event_def Let_def
  by (intro safe_ops safe_queue_event safe_buttons)

lemma safe_key_event: "safe_op (virtio_input_send_key_event down key_code)"
  unfolding virtio_input_send_key_event_def
  by (intro safe_ops safe_queue_event)

section \<open>What the configuration space answers\<close>

lemma length_set_config_bit [simp]: "length (set_config_bit k p) = length p"
  by (simp add: set_config_bit_def)

lemma length_set_bits [simp]: "length (set_bits ks p) = length p"
  by (induction ks arbitrary: p) simp_all

lemma length_splice: "k + length xs \<le> length ys \<Longrightarrow> length (splice k xs ys) = length ys"
  by (simp add: splice_def)

lemma input_names: "length (bytes_of_string (input_name type)) \<le> 15"
  by (simp add: bytes_of_string_def input_name_def split: VirtioInputTypeEnum.split)

lemma length_input_config:
  assumes "length p = MAX_CONFIG_SPACE_SIZE"
  shows "length (input_config type p) = MAX_CONFIG_SPACE_SIZE"
  using assms input_names [of type]
  by (simp add: input_config_def ev_bits_def Let_def length_splice put_le32_def split: VirtioInputTypeEnum.split)

lemma input_keeps_config: "keeps_config (Some virtio_input_config_write)"
  unfolding keeps_config_def
  by (simp add: virtio_input_config_write_def device_ok_def mmio_ok_def line_ok_def length_input_config)

text \<open>The bit of the reply that stands for code \<open>k\<close>.\<close>

definition config_bit :: "nat \<Rightarrow> u8 list \<Rightarrow> bool" where
  "config_bit k p \<longleftrightarrow> bit (p ! (8 + k div 8)) (k mod 8)"

lemma config_bit_set:
  assumes "8 + k div 8 < length p"
  shows "config_bit j (set_config_bit k p) \<longleftrightarrow> j = k \<or> config_bit j p"
proof (cases "j div 8 = k div 8")
  case True
  then have "j = k \<longleftrightarrow> j mod 8 = k mod 8" by (metis mod_div_decomp)
  with True assms show ?thesis by (auto simp: config_bit_def set_config_bit_def bit_simps)
next
  case False
  then show ?thesis using assms by (auto simp: config_bit_def set_config_bit_def)
qed

lemma input_button_map:
  assumes "length p = MAX_CONFIG_SPACE_SIZE" "p ! 0 = VIRTIO_INPUT_CFG_EV_BITS" "p ! 1 = 1"
    and "type \<noteq> VIRTIO_INPUT_TYPE_KEYBOARD" "k < 512"
  shows "input_config type p ! 2 = 64 \<and> (config_bit k (input_config type p) \<longleftrightarrow> k \<in> {0x110, 0x111, 0x112})"
proof -
  let ?z = "splice 8 (replicate 64 0) (p[2 := 64])"
  have len: "length ?z = 256" using assms(1) by (simp add: length_splice)
  have eq: "input_config type p = set_bits buttons_list ?z"
    using assms(2-4) by (cases type) (simp_all add: input_config_def ev_bits_def Let_def)
  have "k div 8 < 64" using assms(5) by (simp add: div_less_iff_less_mult)
  then have zero: "\<not> config_bit k ?z"
    using assms(1) by (simp add: config_bit_def splice_def nth_append)
  have "config_bit k (set_bits buttons_list ?z) \<longleftrightarrow> k \<in> {0x110, 0x111, 0x112}"
    using zero len by (simp add: buttons_list_def config_bit_set) blast
  moreover have "set_bits buttons_list ?z ! 2 = 64"
    using assms(1) by (simp add: buttons_list_def set_config_bit_def splice_def nth_append)
  ultimately show ?thesis by (simp add: eq)
qed

text \<open>The reply that a query announces lies inside the configuration space.\<close>

lemma splice_at_2: "length p = MAX_CONFIG_SPACE_SIZE \<Longrightarrow> splice 8 xs (p[2 := n]) ! 2 = n"
  by (simp add: splice_def nth_append)

lemma set_bits_at_2: "length p = MAX_CONFIG_SPACE_SIZE \<Longrightarrow> set_bits ks p ! 2 = p ! 2"
  by (induction ks arbitrary: p) (simp_all add: set_config_bit_def)

lemma input_reply_bound:
  assumes "length p = MAX_CONFIG_SPACE_SIZE" "p ! 0 \<noteq> VIRTIO_INPUT_CFG_UNSET"
    and "p ! 0 = VIRTIO_INPUT_CFG_ABS_INFO \<longrightarrow> type = VIRTIO_INPUT_TYPE_TABLET \<and> p ! 1 \<le> 1"
  shows "input_config type p ! 2 \<le> 64"
proof -
  have sb: "set_config_bit k q ! 2 = q ! 2" if "length q = MAX_CONFIG_SPACE_SIZE" for k q
    using that by (simp add: set_config_bit_def)
  have name: "of_nat (length (bytes_of_string (input_name type))) \<le> (64 :: u8)"
    by (cases type) (simp_all add: bytes_of_string_def input_name_def)
  have ev: "ev_bits type (p[2 := 0]) ! 2 \<le> 64"
    using assms(1)
    by (simp add: ev_bits_def Let_def splice_at_2 set_bits_at_2 sb length_splice split: VirtioInputTypeEnum.split)
  show ?thesis
    using assms name ev by (simp add: input_config_def Let_def splice_at_2 put_le32_def)
qed

section \<open>The events of a mouse movement\<close>

text \<open>Sending a list of events, as long as the driver provides buffers.\<close>

primrec send_events :: "(u16 \<times> u16 \<times> u32) list \<Rightarrow> ivm \<Rightarrow> (int \<times> ivm) result option" where
  "send_events [] s = Some (Inr (0, s))"
| "send_events (e # es) s =
     on_success (case e of (type, code, val) \<Rightarrow> virtio_input_queue_event type code val s) (send_events es)"

text \<open>A key event for each button that has changed.\<close>

fun button_changes :: "u32 \<Rightarrow> u32 \<Rightarrow> nat \<Rightarrow> u16 list \<Rightarrow> (u16 \<times> u16 \<times> u32) list" where
  "button_changes old new i [] = []"
| "button_changes old new i (btn # btns) =
     (if drop_bit i new AND 1 \<noteq> drop_bit i old AND 1 then [(VIRTIO_INPUT_EV_KEY, btn, drop_bit i new AND 1)] else []) @
     button_changes old new (i + 1) btns"

definition movement :: "VirtioInputTypeEnum \<Rightarrow> int \<Rightarrow> int \<Rightarrow> int \<Rightarrow> (u16 \<times> u16 \<times> u32) list" where
  "movement type dx dy dz =
     (if type = VIRTIO_INPUT_TYPE_MOUSE
      then [(VIRTIO_INPUT_EV_REL, REL_X, of_int dx), (VIRTIO_INPUT_EV_REL, REL_Y, of_int dy)]
      else [(VIRTIO_INPUT_EV_ABS, ABS_X, of_int dx), (VIRTIO_INPUT_EV_ABS, ABS_Y, of_int dy)]) @
     (if dz \<noteq> 0 then [(VIRTIO_INPUT_EV_REL, REL_WHEEL, of_int dz)] else [])"

lemma on_success_assoc: "on_success (on_success r f) g = on_success r (\<lambda>s. on_success (f s) g)"
  by (auto simp: on_success_def andDo_def split: option.splits sum.splits)

lemma on_success_done [simp]: "on_success (Some (Inr (0, s))) f = f s"
  by (simp add: on_success_def)

lemma on_success_return [simp]: "on_success r (\<lambda>s. Some (Inr (0, s))) = r"
  by (auto simp: on_success_def andDo_def split: option.splits sum.splits)

lemma on_success_cong:
  assumes "\<And>t. r = Some (Inr (0, t)) \<Longrightarrow> f t = g t"
  shows "on_success r f = on_success r g"
  using assms by (auto simp: on_success_def andDo_def split: option.splits sum.splits)

lemma send_events_append: "send_events (es @ es') s = on_success (send_events es s) (send_events es')"
  by (induction es arbitrary: s) (auto simp: on_success_assoc intro: on_success_cong)

lemma send_events_opaque: "send_events es s = Some (Inr (ret, s')) \<Longrightarrow> vm_opaque s' = vm_opaque s"
proof (induction es arbitrary: s)
  case (Cons e es)
  obtain type code val where e: "e = (type, code, val)" by (cases e) auto
  from Cons.prems obtain k t where t: "virtio_input_queue_event type code val s = Some (Inr (k, t))"
      "(if k \<noteq> 0 then Some (Inr (k, t)) else send_events es t) = Some (Inr (ret, s'))"
    by (auto simp: e on_success_def andDo_Inr_iff)
  have "vm_opaque t = vm_opaque s" using t(1) by (rule queue_event_cases) simp_all
  then show ?case using t(2) Cons.IH [of t] by (cases "k = 0") auto
qed simp

lemma send_buttons_events:
  "inp_buttons_state (vm_opaque s) = old \<Longrightarrow>
   send_buttons buttons i btns s = send_events (button_changes old buttons i btns) s"
proof (induction btns arbitrary: i s)
  case (Cons btn btns)
  show ?case
  proof (cases "drop_bit i buttons AND 1 = drop_bit i old AND 1")
    case True
    then show ?thesis using Cons by (simp add: Let_def)
  next
    case False
    have "on_success (virtio_input_queue_event 1 btn (drop_bit i buttons AND 1) s) (send_buttons buttons (i + 1) btns) =
        on_success (virtio_input_queue_event 1 btn (drop_bit i buttons AND 1) s)
          (send_events (button_changes old buttons (i + 1) btns))"
    proof (rule on_success_cong)
      fix t assume "virtio_input_queue_event 1 btn (drop_bit i buttons AND 1) s = Some (Inr (0, t))"
      then have "vm_opaque t = vm_opaque s" by (rule queue_event_cases) simp_all
      then show "send_buttons buttons (i + 1) btns t = send_events (button_changes old buttons (i + 1) btns) t"
        using Cons.IH [of t "i + 1"] Cons.prems by simp
    qed
    then show ?thesis using False Cons.prems by (simp add: Let_def)
  qed
qed simp

lemma no_changes: "button_changes b b i btns = []"
  by (induction btns arbitrary: i) simp_all

abbreviation set_buttons :: "u32 \<Rightarrow> ivm \<Rightarrow> ivm" where
  "set_buttons buttons \<equiv> vm_opaque_update (inp_buttons_state_update (\<lambda>_. buttons))"

lemma mouse_event_eq:
  assumes "inp_type (vm_opaque s) \<noteq> VIRTIO_INPUT_TYPE_KEYBOARD"
  shows "virtio_input_send_mouse_event dx dy dz buttons s =
    on_success (send_events (movement (inp_type (vm_opaque s)) dx dy dz @
        button_changes (inp_buttons_state (vm_opaque s)) buttons 0 buttons_list) s)
      (\<lambda>t. virtio_input_queue_event VIRTIO_INPUT_EV_SYN 0 0 (set_buttons buttons t))"
proof -
  define old where "old = inp_buttons_state (vm_opaque s)"
  define final where "final = (\<lambda>t. virtio_input_queue_event VIRTIO_INPUT_EV_SYN 0 0 (set_buttons buttons t))"
  define rest where "rest = (\<lambda>s. on_success
    (if buttons \<noteq> inp_buttons_state (vm_opaque s)
     then on_success (send_buttons buttons 0 buttons_list s) (\<lambda>s. Some (Inr (0, set_buttons buttons s)))
     else Some (Inr (0, s))) (virtio_input_queue_event VIRTIO_INPUT_EV_SYN 0 0))"
  have rest: "rest t = on_success (send_events (button_changes old buttons 0 buttons_list) t) final"
    if "vm_opaque t = vm_opaque s" for t
  proof (cases "buttons = old")
    case True
    have id: "set_buttons buttons t = t" using that True by (cases t) (simp add: old_def)
    have "final t = virtio_input_queue_event VIRTIO_INPUT_EV_SYN 0 0 t" by (simp only: final_def id)
    moreover have "buttons = inp_buttons_state (vm_opaque t)" using that True by (simp add: old_def)
    ultimately show ?thesis using True by (simp add: rest_def no_changes)
  next
    case False
    have "send_buttons buttons 0 buttons_list t = send_events (button_changes old buttons 0 buttons_list) t"
      by (rule send_buttons_events) (simp add: that old_def)
    then show ?thesis using that False by (simp add: rest_def final_def old_def on_success_assoc)
  qed
  let ?m = "movement (inp_type (vm_opaque s)) dx dy dz"
  have "virtio_input_send_mouse_event dx dy dz buttons s = on_success (send_events ?m s) rest"
    using assms
    by (cases "inp_type (vm_opaque s)")
      (simp_all add: virtio_input_send_mouse_event_def movement_def Let_def rest_def on_success_assoc)
  also have "\<dots> = on_success (send_events ?m s)
      (\<lambda>t. on_success (send_events (button_changes old buttons 0 buttons_list) t) final)"
    by (rule on_success_cong) (rule rest, rule send_events_opaque)
  also have "\<dots> = on_success (send_events (?m @ button_changes old buttons 0 buttons_list) s) final"
    by (simp add: send_events_append on_success_assoc)
  finally show ?thesis by (simp add: final_def old_def)
qed

end
