(* ===== verification/Temu_Spec.thy ===== *)
theory Temu_Spec
  imports Virtio_Spec Temu_Loop Virtio_Input
begin

text \<open>
  The \<^verbatim>\<open>TEMU\<close> build of \<^verbatim>\<open>main\<close> from end to end: a store instruction of the guest reaches the
  VirtIO block device, the device serves the request and raises its line, and the same iteration
  of the loop enters the supervisor's trap handler.
\<close>


section \<open>A store that reaches the device\<close>

lemma step_temu_fetches:
  fixes s :: "'d vm" and e
  defines "t \<equiv> s\<lparr>vm_emu := issue (tick e (vm_emu s))\<rparr>"
  assumes "fetches e (vm_emu s) ins" "exec_temu device_recv config_write e ins t = Some (Inr (TFall s1))"
  shows "step_temu device_recv config_write e s = Some (on_hart (finish (PC (vm_emu s)) (vm_emu s1)) s1)"
  using assms(2,3) unfolding fetches_def step_temu_def Let_def t_def
  by (auto simp: tick_simps getINST_ram)

lemma exec_temu_notify:
  fixes ins and s :: "'d vm"
  defines "f \<equiv> decode ins" and "h \<equiv> vm_emu s"
  assumes "f_opcode f = Some store" "reg_file h (f_rs2 f) = 0"
    and "reg_file h (f_rs1 f) + sign_extend (f_imm_s f) 12 = va" "va \<noteq> FIFO_ADDR_TX"
    and "translate va STOR (cp h) h = Inr VIRTIO_NOTIFY"
    and "queue_notify device_recv 0 s = Some (Inr s')"
  shows "exec_temu device_recv config_write e ins s = Some (Inr (TFall s'))"
proof -
  have "at_virtio VIRTIO_NOTIFY" by code_simp
  then show ?thesis
    using assms(3-8) unfolding exec_temu_def exec_store_temu_def Let_def f_def [symmetric] h_def [symmetric]
    by (simp add: store_notifies_low)
qed

section \<open>A driver waiting for its disk\<close>

text \<open>What the driver has set up when it rings queue 0: one new entry in the available ring, the chain at
  its head.  What the hart has set up: supervisor or user code runs, machine interrupts are off, the
  external interrupt is delegated and enabled.\<close>

definition driver_ready :: "bvm \<Rightarrow> u16 \<Rightarrow> bool" where
  "driver_ready s d \<longleftrightarrow> (let qs = v_queue (vm_dev s) ! 0 in \<not> q_manual_recv qs \<and> 
     virtio_read16 (q_avail_addr qs + 2) (memory (vm_emu s)) = Inr (q_last_avail_idx qs + 1) \<and>
     avail_entry 0 s = Inr d)"

definition supervisor_listens :: "emu \<Rightarrow> bool" where
  "supervisor_listens h \<longleftrightarrow> (cp h = SMODE \<or> cp h = UMODE) \<and> \<not> LD_ACC_FAULT (faults h) \<and>
     ie_MEIE (mie (csrs h)) = 0 \<and> ie_MTIE (mie (csrs h)) = 0 \<and> ie_MSIE (mie (csrs h)) = 0 \<and>
     ie_SEIE (mie (csrs h)) = 1 \<and> bit (mideleg (csrs h)) 9 \<and> sideleg (csrs h) = 0 \<and>
     ms_sie (mstatus (csrs h)) = 1 \<and> tv_mode (stvec (csrs h)) = 0 \<and> tv_base (stvec (csrs h)) \<noteq> PC h"

lemma listens_finish:
  assumes "supervisor_listens h0" "bus_access (issue (tick e h0)) h" "SEIP h = 1"
  shows "\<exists>h'. finish (PC h0) h = Inr h' \<and> cp h' = SMODE \<and> PC h' = tv_base (stvec (csrs h0)) \<and>
    sepc (csrs h') = PC h0 + 4 \<and> scause (csrs h') = \<lparr>ca_interrupt = 1, ca_ecode = 9\<rparr> \<and> memory h' = memory h"
proof -
  from assms(2) obtain m p b where h: "h = upd_mip (ip_SEIP_update (\<lambda>_. b))
      ((issue (tick e h0))\<lparr>memory := m, plic_pending_irq := p\<rparr>)" unfolding bus_access_def by blast
  have eqs: "PC h = PC h0 + 4" "cp h = cp h0" "faults h = faults h0" "mie (csrs h) = mie (csrs h0)"
    "mideleg (csrs h) = mideleg (csrs h0)" "sideleg (csrs h) = sideleg (csrs h0)" "mstatus (csrs h) = mstatus (csrs h0)"
    "stvec (csrs h) = stvec (csrs h0)"
    by (simp_all add: h issue_def tick_def Let_def)
  note l = assms(1) [unfolded supervisor_listens_def]
  have "pending_interrupt (csrs (refresh h)) = Some 9"
    by (rule pending_external) (use l assms(3) in \<open>simp_all add: eqs\<close>)
  from finish_supervisor_interrupt [OF this, of "PC h0"] l show ?thesis
    by (simp add: eqs trap_enter_def Let_def refresh_simps)
qed

section \<open>A concrete driver\<close>

definition driver_hart :: emu where
  "driver_hart = (emu_init demo_mem 0)\<lparr>memory := demo_mem, cp := SMODE, PC := 0x80600000,
     reg_file := (\<lambda>_. 0)(1 := 0x40010050),
     csrs := csr_init\<lparr>mie := mie_init\<lparr>ie_SEIE := 1\<rparr>, mideleg := 0x200,
       mstatus := mstatus_init\<lparr>ms_sie := 1\<rparr>, stvec := \<lparr>tv_mode = 0, tv_base = 0x80700000\<rparr>\<rparr>\<rparr>"

lemma demo_mtime: "demo_mem(MTIME_WORD := 0) = demo_mem"
  by (rule fun_upd_idem) (simp add: demo_mem_def)

definition driver_demo :: bvm where "driver_demo = demo_vm\<lparr>vm_emu := driver_hart\<rparr>"

lemma driver_demo_fetches: "fetches (env_demo 0) driver_hart 0x20A023"
proof -
  have v: "ram_value (memory (tick (env_demo 0) driver_hart)) (PC driver_hart) 4 = 0x20A023"
    by (simp add: tick_simps driver_hart_def demo_mtime) code_simp
  have l: "lane (PC driver_hart) = 0" by code_simp
  have "fetches (env_demo 0) driver_hart (ram_value (memory (tick (env_demo 0) driver_hart)) (PC driver_hart) 4)"
    by (rule fetches_bare) (use l in \<open>simp_all add: driver_hart_def csr_init_def satp_init_def\<close>)
  then show ?thesis by (simp only: v)
qed

lemma driver_demo_decode:
  "f_opcode (decode 0x20A023) = Some store" "f_rs1 (decode 0x20A023) = 1" "f_rs2 (decode 0x20A023) = 2"
  "sign_extend (f_imm_s (decode 0x20A023)) 12 = 0"
  by code_simp+

lemma driver_demo_issued:
  fixes t
  defines "t \<equiv> driver_demo\<lparr>vm_emu := issue (tick (env_demo 0) driver_hart)\<rparr>"
  shows "memory (vm_emu t) = demo_mem" "vm_dev t = demo_dev" "vm_opaque t = vm_opaque demo_vm"
    "reg_file (vm_emu t) 1 = 0x40010050" "reg_file (vm_emu t) 2 = 0"
    "translate 0x40010050 STOR (cp (vm_emu t)) (vm_emu t) = Inr 0x40010050"
proof -
  show m: "memory (vm_emu t) = demo_mem"
    by (simp add: t_def issue_simps tick_simps driver_hart_def demo_mtime)
  show "vm_dev t = demo_dev" "vm_opaque t = vm_opaque demo_vm"
    by (simp_all add: t_def driver_demo_def demo_memory)
  show "reg_file (vm_emu t) 1 = 0x40010050" "reg_file (vm_emu t) 2 = 0"
    by (simp_all add: t_def issue_simps tick_simps driver_hart_def)
  have "sa_MODE (satp (csrs (vm_emu t))) = 0"
    by (simp add: t_def issue_def tick_def Let_def driver_hart_def csr_init_def satp_init_def)
  then show "translate 0x40010050 STOR (cp (vm_emu t)) (vm_emu t) = Inr 0x40010050"
    by (rule translate_bare)
qed

lemma request_ok_cong:
  "memory (vm_emu s') = memory (vm_emu s) \<Longrightarrow> vm_dev s' = vm_dev s \<Longrightarrow> request_ok s' = request_ok s"
  by (intro ext) (simp only: request_ok_def)

lemma driver_demo_ready:
  fixes t
  defines "t \<equiv> driver_demo\<lparr>vm_emu := issue (tick (env_demo 0) driver_hart)\<rparr>"
  shows "device_ok driver_demo" "driver_ready t 0" "request_ok t 0 0 [demo_desc 0] [demo_desc 1] 0"
    "supervisor_listens driver_hart"
proof -
  show "device_ok driver_demo"
    using demo_device_ok by (simp add: driver_demo_def device_ok_def line_ok_def demo_vm_def driver_hart_def emu_init_def)
  have "virtio_read16 0x80400002 demo_mem = Inr 1" "virtio_read16 0x80400004 demo_mem = Inr 0" by code_simp+
  then show "driver_ready t 0"
    unfolding driver_ready_def avail_entry_def Let_def t_def driver_demo_issued
    by (simp add: demo_queues demo_queue_def)
  show "request_ok t 0 0 [demo_desc 0] [demo_desc 1] 0"
    using request_ok_cong [of t demo_vm] demo_request_read driver_demo_issued
    by (simp add: t_def demo_memory)
  show "supervisor_listens driver_hart"
    by (simp add: supervisor_listens_def driver_hart_def emu_init_def csr_init_def mie_init_def no_faults_def)
qed

section \<open>Properties\<close>

text \<open>
  C3: the guest stores 0 to the notification register of the block device, with one well-formed read request
  queued and the supervisor's external interrupt delegated and enabled. That one iteration of the loop of
  \<^verbatim>\<open>main\<close> returns; the sectors asked for and the status byte 0 are in the buffers of the request, and the
  hart is in supervisor mode at its trap vector, with the cause "supervisor external interrupt" and the
  address of the next instruction in \<^verbatim>\<open>sepc\<close>.
\<close>

theorem disk_interrupt:
  fixes s :: bvm and e
  defines "t \<equiv> s\<lparr>vm_emu := issue (tick e (vm_emu s))\<rparr>" 
  assumes "fetches e (vm_emu s) ins" "f_opcode (decode ins) = Some store"
    and "reg_file (vm_emu t) (f_rs2 (decode ins)) = 0"
    and "reg_file (vm_emu t) (f_rs1 (decode ins)) + sign_extend (f_imm_s (decode ins)) 12 = va" "va \<noteq> FIFO_ADDR_TX"
    and "translate va STOR (cp (vm_emu t)) (vm_emu t) = Inr VIRTIO_NOTIFY"
    and "device_ok s" "\<not> blk_req_in_progress (vm_opaque s)" "driver_ready t d" "request_ok t 0 d rs ws index" "16 \<le> chain_len rs"
    and "h_type (request_header t rs) = VIRTIO_BLK_T_IN" "chain_len ws = int (SECTOR_SIZE * n + 1)"
    and "bf_ok (request_disk s)" "sec = h_sector_num (request_header t rs)"
    and "unat sec + n \<le> bf_sectors (request_disk s)" "supervisor_listens (vm_emu s)"
  shows "\<exists>s'. step_temu (virtio_block_recv_request junk) None e s = Some (Inr s') \<and>
    payload (memory (vm_emu s')) ws = concat (map (bf_disk (request_disk s)) [unat sec..<unat sec + n]) @ [VIRTIO_BLK_S_OK] \<and>
    PC (vm_emu s') = tv_base (stvec (csrs (vm_emu s))) \<and> cp (vm_emu s') = SMODE \<and>
    sepc (csrs (vm_emu s')) = PC (vm_emu s) + 4 \<and> scause (csrs (vm_emu s')) = \<lparr>ca_interrupt = 1, ca_ecode = 9\<rparr>"
proof -
  have t: "vm_dev t = vm_dev s" "vm_opaque t = vm_opaque s" by (simp_all add: t_def)
  have idle: "\<not> blk_req_in_progress (vm_opaque t)" "bf_ok (request_disk t)" using assms(9,15) by (simp_all add: t)
  obtain s1 where s1: "virtio_block_recv_request junk 0 (uint d) (chain_len rs) (chain_len ws) t = Some (Inr (0, s1))"
      "answered t 0 d (chain_len ws) index ws
        (concat (map (bf_disk (request_disk t)) [unat sec..<unat sec + n]) @ [VIRTIO_BLK_S_OK]) s1"
    using read_request [OF assms(11) idle(1) assms(12-14) idle(2) assms(16)] assms(17) t by auto
  have "0 < length (v_queue (vm_dev t))" using assms(8) by (simp add: t device_ok_def mmio_ok_def)
  then have "queue_notify (virtio_block_recv_request junk) 0 t = Some (Inr (advance 0 s1))"
    using assms(10) s1(1) request_sizes [OF assms(11)]
    by (intro block.notify_one [of 0 t d "chain_len rs" "chain_len ws" junk 0])
      (simp_all add: driver_ready_def Let_def)
  from exec_temu_notify [OF assms(3-7), of "virtio_block_recv_request junk", OF this]
  have "step_temu (virtio_block_recv_request junk) None e s =
      Some (on_hart (finish (PC (vm_emu s)) (vm_emu (advance 0 s1))) (advance 0 s1))"
    using step_temu_fetches [OF assms(2)] by (simp add: t_def)
  moreover have adv: "vm_emu (advance 0 s1) = vm_emu s1" by (simp add: advance_def)
  moreover have "bus_access (issue (tick e (vm_emu s))) (vm_emu s1)"
    using block_bus.recv_bus [OF s1(1)] by (simp add: t_def)
  from listens_finish [OF assms(18) this] s1(2)
  obtain h' where "finish (PC (vm_emu s)) (vm_emu s1) = Inr h'" "cp h' = SMODE" "PC h' = tv_base (stvec (csrs (vm_emu s)))"
    "sepc (csrs h') = PC (vm_emu s) + 4" "scause (csrs h') = \<lparr>ca_interrupt = 1, ca_ecode = 9\<rparr>"
    "memory h' = memory (vm_emu s1)" by (auto simp: answered_def Let_def)
  ultimately show ?thesis using s1(2) by (simp add: on_hart_def answered_def Let_def t)
qed

theorem disk_interrupt_witness:
  "\<exists>s'. step_temu (virtio_block_recv_request (\<lambda>_. 0)) None (env_demo 0) driver_demo = Some (Inr s') \<and>
    desc_bytes (memory (vm_emu s')) (demo_desc 1) = replicate 512 7 @ [0] \<and> PC (vm_emu s') = 0x80700000 \<and>
    cp (vm_emu s') = SMODE \<and> scause (csrs (vm_emu s')) = \<lparr>ca_interrupt = 1, ca_ecode = 9\<rparr>"
proof -
  have demo: "vm_emu driver_demo = driver_hart" "request_disk driver_demo = demo_disk"
    "\<not> blk_req_in_progress (vm_opaque driver_demo)" "stvec (csrs driver_hart) = \<lparr>tv_mode = 0, tv_base = 0x80700000\<rparr>"
    by (simp_all add: driver_demo_def demo_disk_ok driver_hart_def)
  have "\<exists>s'. step_temu (virtio_block_recv_request (\<lambda>_. 0)) None (env_demo 0) driver_demo = Some (Inr s') \<and>
    payload (memory (vm_emu s')) [demo_desc 1] =
      concat (map (bf_disk (request_disk driver_demo)) [unat (0 :: u64)..<unat (0 :: u64) + 1]) @ [VIRTIO_BLK_S_OK] \<and>
    PC (vm_emu s') = tv_base (stvec (csrs (vm_emu driver_demo))) \<and> cp (vm_emu s') = SMODE \<and>
    sepc (csrs (vm_emu s')) = PC (vm_emu driver_demo) + 4 \<and>
    scause (csrs (vm_emu s')) = \<lparr>ca_interrupt = 1, ca_ecode = 9\<rparr>"
    by (rule disk_interrupt [where ins = "0x20A023" and va = "0x40010050" and d = 0 and rs = "[demo_desc 0]" and index = 0])
      (use driver_demo_issued driver_demo_ready driver_demo_decode driver_demo_fetches in
        \<open>simp_all add: demo demo_buffers demo_headers demo_disk_ok\<close>)
  moreover have "bf_disk demo_disk 0 = replicate 512 7" by (simp add: bf_disk_def demo_disk_def)
  ultimately show ?thesis by (auto simp: demo)
qed

text \<open>
  C14: whatever requests a store to a register of the block device makes it serve, of the hart it changes
  RAM, the line of the device and the bit \<^verbatim>\<open>SEIP\<close> of \<^verbatim>\<open>mip\<close>, which is set or cleared; nothing else: no
  register, no privilege level, no other CSR.
\<close>

theorem device_isolation:
  assumes "device_reach bs s" "virtio_store (virtio_block_recv_request junk) None addr b s = Some (Inr s')"
  shows "\<exists>m p x. (x = ip_SEIP (mip (csrs (vm_emu s))) \<or> x \<le> 1) \<and>
    vm_emu s' = (vm_emu s)\<lparr>memory := m, plic_pending_irq := p,
      csrs := (csrs (vm_emu s))\<lparr>mip := (mip (csrs (vm_emu s)))\<lparr>ip_SEIP := x\<rparr>\<rparr>\<rparr>"
proof -
  have "mmio_ok (vm_dev s)" using device_reach_ok [OF assms(1)] by (simp add: device_ok_def)
  from block_bus.store_bus [OF this, of junk addr b] assms(2) have "bus_access (vm_emu s) (vm_emu s')"
    by (simp add: stays_def)
  then obtain m p x where "x = SEIP (vm_emu s) \<or> x \<le> 1"
      "vm_emu s' = upd_mip (ip_SEIP_update (\<lambda>_. x)) ((vm_emu s)\<lparr>memory := m, plic_pending_irq := p\<rparr>)"
    unfolding bus_access_def by blast
  then show ?thesis
    by (intro exI [of _ m] exI [of _ p] exI [of _ x]) (cases "vm_emu s", cases "csrs (vm_emu s)", simp)
qed

theorem device_isolation_witness:
  "\<exists>s'. virtio_store (virtio_block_recv_request (\<lambda>_. 0)) None 0x40010030 3
      (block_start (emu_init demo_mem 0) demo_disk) = Some (Inr s') \<and>
    PC (vm_emu s') = DRAM_BASE \<and> cp (vm_emu s') = MMODE"
proof -
  let ?start = "block_start (emu_init demo_mem 0) demo_disk"
  have reach: "device_reach demo_disk ?start" by (rule device_reach.start) (simp add: emu_init_def)
  have "\<exists>s'. virtio_store (virtio_block_recv_request (\<lambda>_. 0)) None 0x40010030 3 ?start = Some (Inr s')"
    by (simp add: virtio_store_def virtio_mmio_write_def)
  then obtain s' where s': "virtio_store (virtio_block_recv_request (\<lambda>_. 0)) None 0x40010030 3 ?start = Some (Inr s')" ..
  from device_isolation [OF reach s'] have "PC (vm_emu s') = DRAM_BASE \<and> cp (vm_emu s') = MMODE"
    by (auto simp: block_start_def emu_init_def)
  with s' show ?thesis by blast
qed

end
