(* ===== verification/Virtio_Short.thy ===== *)
theory Virtio_Short
  imports Virtio_Serve
begin

text \<open>
  Reading past the end of the buffers of a request: \<^verbatim>\<open>memcpy_from_queue\<close> returns -1, wherever the
  descriptors divide the buffers. Together with \<open>gather_request\<close> this covers every read of a
  well-formed request.
\<close>

text \<open>The buffers \<open>ds\<close> to be read are followed by none or by one to be written.\<close>

definition ends_with :: "u16 \<Rightarrow> VIRTIODesc list \<Rightarrow> bool" where
  "ends_with f xs \<longleftrightarrow> xs = [] \<or> write_flag (hd xs) \<noteq> f"

lemma seek_offset_short:
  assumes "chain dev queue_idx m d (ds @ xs)" "\<forall>x \<in> set ds. write_flag x = f" "ends_with f xs"
    and "chain_len ds \<le> offset" "offset < 2 ^ 31" "0 \<le> offset"
  shows "seek_offset dev queue_idx m f d offset = Some (Inr None)"
  using assms
proof (induction ds arbitrary: d offset)
  case Nil
  then obtain x xs' where "xs = x # xs'" using chain_not_Nil by (cases xs) auto
  moreover from this have "x = d" using Nil.prems(1) chain_hd by simp
  ultimately have "write_flag d \<noteq> f" using Nil.prems(3) by (simp add: ends_with_def)
  then show ?case by (subst seek_offset.simps) (simp add: write_flag_def)
next
  case (Cons x ds)
  have x: "x = d" using Cons.prems(1) chain_hd by simp
  note off = Cons.prems(6,5)
  have past: "\<not> offset < uint (d_len d)" "chain_len ds \<le> offset - uint (d_len d)"
    using Cons.prems(4) chain_len_nonneg [of ds] unfolding x chain_len_simps by linarith+
  have step: "seek_offset dev queue_idx m f d offset =
      (if \<not> has_next d then Some (Inr None)
       else case get_desc dev queue_idx (uint (d_next d)) m of
           Inl h \<Rightarrow> Some (Inl h)
         | Inr d' \<Rightarrow> seek_offset dev queue_idx m f d' (offset - uint (d_len d)))"
    using Cons.prems(2) x past(1)
    by (subst seek_offset.simps) (simp add: offset_less [OF off] sub_len [OF off] not_less split: sum.split flip: write_flag_def)
  show ?case
  proof (cases "ds @ xs")
    case Nil
    then have "\<not> has_next d" using Cons.prems(1) chain_end by (simp add: x)
    then show ?thesis by (simp add: step)
  next
    case (Cons y ys)
    then have ch: "has_next d" "get_desc dev queue_idx (uint (d_next d)) m = Inr y" "chain dev queue_idx m y (ds @ xs)"
      using chain_next [of dev queue_idx m d y ys] \<open>chain dev queue_idx m d ((x # ds) @ xs)\<close> by (simp_all add: x)
    have "offset - uint (d_len d) < 2 ^ 31" "0 \<le> offset - uint (d_len d)"
      using off past(1) uint_ge_0 [of "d_len d"] by linarith+
    then show ?thesis
      using Cons.IH [OF ch(3)] Cons.prems(2,3) past(2) ch(1,2) by (simp add: step)
  qed
qed

lemma copy_loop_short:
  assumes "chain dev queue_idx m d (d # ds @ xs)" "\<forall>x \<in> set ds. write_flag x = f" "ends_with f xs"
    and "\<forall>x \<in> set (d # ds). desc_in_ram x" "chain_len (d # ds) < 2 ^ 31"
    and "0 \<le> off" "off \<le> uint (d_len d)" "0 < count" "count < 2 ^ 31" "chain_len (d # ds) < off + count"
    and "0 \<le> pos" "int (length buf) = pos + count"
  shows "\<exists>buf'. copy_loop dev queue_idx False f d off count pos buf m = Some (Inr (-1, buf', m))"
  using assms
proof (induction ds arbitrary: d off count pos buf)
  have chunk: "\<exists>buf'. copy_chunk False (d_addr d + of_int off) pos (uint (d_len d) - off) buf m = Inr (buf', m) \<and>
      length buf' = length buf"
    if "desc_in_ram d" "0 \<le> off" "off \<le> uint (d_len d)" "0 \<le> pos" "pos + (uint (d_len d) - off) \<le> int (length buf)"
    for d off pos and buf :: "u8 list"
  proof -
    have fits: "nat off + nat (uint (d_len d) - off) \<le> unat (d_len d)"
      by (rule nat_fits) (use that in linarith)+
    have "ram_region (d_addr d + of_int off) (nat (uint (d_len d) - off))"
      using fits ram_region_slice [of "d_addr d" "unat (d_len d)" "nat off"] that by (simp add: desc_in_ram_def)
    from copy_chunk_from [OF that(4) _ that(5) this, of m] that show ?thesis
      by (auto simp: min_def nat_add_distrib)
  qed
  {
    case Nil
    have lim: "uint (d_len d) < 2 ^ 31" "uint (d_len d) - off < count"
      using Nil.prems(5,10) unfolding chain_len_simps by linarith+
    obtain buf' where buf': "copy_chunk False (d_addr d + of_int off) pos (uint (d_len d) - off) buf m = Inr (buf', m)"
      using chunk [of d off pos buf] Nil.prems lim by auto
    note round = copy_loop_round [OF Nil.prems(6,7) lim(1) Nil.prems(8,9) _ buf', of dev queue_idx f]
    have "\<not> has_next d \<or> (\<exists>y. has_next d \<and> get_desc dev queue_idx (uint (d_next d)) m = Inr y \<and> write_flag y \<noteq> f)"
    proof (cases xs)
      case Nil
      then show ?thesis using \<open>chain dev queue_idx m d (d # [] @ xs)\<close> chain_end by auto
    next
      case (Cons y ys)
      then show ?thesis
        using chain_next [of dev queue_idx m d y ys] Nil.prems(1,3) by (auto simp: ends_with_def)
    qed
    then show ?case using round lim(2) by (auto simp: min_def)
  next
    case (Cons d2 ds)
    have lim: "uint (d_len d) < 2 ^ 31" "uint (d_len d) - off < count" "chain_len (d2 # ds) < 2 ^ 31"
      using Cons.prems(5,10) chain_len_nonneg [of ds] uint_ge_0 [of "d_len d"] uint_ge_0 [of "d_len d2"]
      unfolding chain_len_simps by linarith+
    obtain buf' where buf': "copy_chunk False (d_addr d + of_int off) pos (uint (d_len d) - off) buf m = Inr (buf', m)"
        "length buf' = length buf"
      using chunk [of d off pos buf] Cons.prems lim by auto
    have ch: "has_next d" "get_desc dev queue_idx (uint (d_next d)) m = Inr d2"
        "chain dev queue_idx m d2 (d2 # ds @ xs)"
      using chain_next [of dev queue_idx m d d2 "ds @ xs"] Cons.prems(1) by simp_all
    have "\<exists>b. copy_loop dev queue_idx False f d2 0 (count - (uint (d_len d) - off)) (pos + (uint (d_len d) - off)) buf' m =
        Some (Inr (-1, b, m))"
      by (rule Cons.IH [OF ch(3)]) (use Cons.prems lim buf'(2) in auto)
    then show ?case
      using copy_loop_round [OF Cons.prems(6,7) lim(1) Cons.prems(8,9) _ buf'(1), of dev queue_idx f] lim(2) ch
        Cons.prems(2) by (auto simp: min_def)
  }
qed

lemma gather_short:
  assumes "request_ok s queue_idx d rs ws index" "0 \<le> offset" "offset < 2 ^ 31" "0 < count" "count < 2 ^ 31"
    and "chain_len rs < offset + count" "int (length buf) = count"
  shows "\<exists>buf'. memcpy_from_queue (vm_dev s) buf queue_idx (uint d) offset count (memory (vm_emu s)) =
    Some (Inr (-1, buf', memory (vm_emu s)))"
proof -
  let ?m = "memory (vm_emu s)" and ?dev = "vm_dev s"
  note ok = assms(1) [unfolded request_ok_def Let_def]
  from ok obtain d0 where d0: "get_desc ?dev queue_idx (uint d) ?m = Inr d0" "chain ?dev queue_idx ?m d0 (rs @ ws)"
    by blast
  have rs: "\<forall>x \<in> set rs. write_flag x = 0" "\<forall>x \<in> set rs. desc_in_ram x" "chain_len rs < 2 ^ 31"
    and ws: "ends_with 0 ws"
    using ok by (auto simp: ends_with_def neq_Nil_conv)
  show ?thesis
  proof (cases "offset < chain_len rs")
    case True
    obtain ds1 d' ds2 where ds: "rs = ds1 @ d' # ds2" "chain ?dev queue_idx ?m d' (d' # ds2 @ ws)"
        "chain_len ds1 \<le> offset" "offset < chain_len ds1 + uint (d_len d')"
        "seek_offset ?dev queue_idx ?m 0 d0 offset = Some (Inr (Some (d', offset - chain_len ds1)))"
      using seek_offset_ok [OF d0(2) rs(1) assms(2) True rs(3)] by blast
    have len: "chain_len rs = chain_len ds1 + chain_len (d' # ds2)" by (simp add: ds(1) chain_len_def)
    have lt: "chain_len (d' # ds2) < 2 ^ 31" using len rs(3) chain_len_nonneg [of ds1] by linarith
    have "\<exists>b. copy_loop ?dev queue_idx False 0 d' (offset - chain_len ds1) count 0 buf ?m = Some (Inr (-1, b, ?m))"
      by (rule copy_loop_short [OF ds(2) _ ws _ lt]) (use assms rs ds(1,3,4) len in auto)
    then show ?thesis
      using d0(1) ds(5) assms(4) by (auto simp: memcpy_from_queue_def memcpy_to_from_queue_def)
  next
    case False
    then have "seek_offset ?dev queue_idx ?m 0 d0 offset = Some (Inr None)"
      by (intro seek_offset_short [OF d0(2) rs(1) ws]) (use assms in simp_all)
    then show ?thesis
      using d0(1) assms(4) by (simp add: memcpy_from_queue_def memcpy_to_from_queue_def)
  qed
qed

end
