(* ===== verification/P9_Message.thy ===== *)
theory P9_Message
  imports Virtio_Short
begin

text \<open>
  The messages of the 9P device of \<^verbatim>\<open>temu/virtio.c\<close>: \<^verbatim>\<open>marshall\<close> writes the arguments of a reply into a
  buffer, \<^verbatim>\<open>unmarshall\<close> reads those of a request from the chain of the request. A format string names the
  types of the arguments; for \<^verbatim>\<open>marshall\<close> it is the list of the constructors.
\<close>

section \<open>Arguments\<close>

record FSQID =
  qid_type :: u8
  qid_version :: u32
  qid_path :: u64

datatype p9_arg = arg_b (get_b: u8) | arg_h (get_h: u16) | arg_w (get_w: u32) | arg_d (get_d: u64)
  | arg_s (get_s: "u8 list") | arg_Q (get_Q: FSQID)

definition get_le64 :: "u8 list \<Rightarrow> nat \<Rightarrow> u64" where
  "get_le64 p i = ucast (get_le32 p i) OR push_bit 32 (ucast (get_le32 p (i + 4)))"

definition put_le64 :: "u8 list \<Rightarrow> nat \<Rightarrow> u64 \<Rightarrow> u8 list" where
  "put_le64 p i v = put_le32 (put_le32 p i (ucast v)) (i + 4) (ucast (drop_bit 32 v))"

abbreviation le16 :: "u16 \<Rightarrow> u8 list" where "le16 v \<equiv> put_le16 (replicate 2 0) 0 v"
abbreviation le32 :: "u32 \<Rightarrow> u8 list" where "le32 v \<equiv> put_le32 (replicate 4 0) 0 v"
abbreviation le64 :: "u64 \<Rightarrow> u8 list" where "le64 v \<equiv> put_le64 (replicate 8 0) 0 v"

text \<open>A string in memory ends at its first zero byte.\<close>

definition c_string :: "u8 list \<Rightarrow> u8 list" where
  "c_string bs = takeWhile (\<lambda>b. b \<noteq> 0) bs"

section \<open>Writing\<close>

primrec arg_bytes :: "p9_arg \<Rightarrow> u8 list" where
  "arg_bytes (arg_b val) = [val]"
| "arg_bytes (arg_h val) = le16 val"
| "arg_bytes (arg_w val) = le32 val"
| "arg_bytes (arg_d val64) = le64 val64"
| "arg_bytes (arg_s str) = le16 (of_nat (length (c_string str))) @ c_string str"
| "arg_bytes (arg_Q qid) = qid_type qid # le32 (qid_version qid) @ le64 (qid_path qid)"

definition too_long :: "p9_arg \<Rightarrow> bool" where
  "too_long a \<longleftrightarrow> (case a of arg_s str \<Rightarrow> length (c_string str) > 65535 | _ \<Rightarrow> False)"

primrec marshall :: "int \<Rightarrow> p9_arg list \<Rightarrow> u8 list result" where
  "marshall max_len [] = Inr []"
| "marshall max_len (a # ap) =
     (if too_long a \<or> int (length (arg_bytes a)) > max_len then Inl Abort
      else andThen (marshall (max_len - int (length (arg_bytes a))) ap) (\<lambda>buf. Inr (arg_bytes a @ buf)))"

section \<open>Reading\<close>

text \<open>What follows a read that may have failed: the failure is \<open>None\<close>, the result -1 of the code.\<close>

definition andGet :: "'a option result option \<Rightarrow> ('a \<Rightarrow> 'b option result option) \<Rightarrow> 'b option result option" where
  "andGet r f = andDo r (\<lambda>x. case x of None \<Rightarrow> Some (Inr None) | Some y \<Rightarrow> f y)"

abbreviation found :: "'a \<Rightarrow> 'a option result option" where "found x \<equiv> Some (Inr (Some x))"
abbreviation not_found :: "'a option result option" where "not_found \<equiv> Some (Inr None)"

lemma andGet_simps [simp]:
  "andGet None f = None" "andGet (Some (Inl h)) f = Some (Inl h)" "andGet not_found f = not_found"
  "andGet (found x) f = f x"
  by (simp_all add: andGet_def)

definition queue_get :: "(nat \<Rightarrow> u8) \<Rightarrow> nat \<Rightarrow> int \<Rightarrow> 'd vm \<Rightarrow> int \<Rightarrow> int \<Rightarrow> u8 list option result option" where
  "queue_get junk queue_idx desc_idx s offset count =
     andDo (memcpy_from_queue (vm_dev s) (malloc_bytes junk count) queue_idx desc_idx offset count
       (memory (vm_emu s))) (\<lambda>(ret, buf, _). Some (Inr (if ret \<noteq> 0 then None else Some buf)))"

text \<open>One turn of the loop, for the letter \<open>c\<close>: the argument and the offset after it.\<close>

definition unmarshall_arg :: "(nat \<Rightarrow> u8) \<Rightarrow> nat \<Rightarrow> int \<Rightarrow> 'd vm \<Rightarrow> char \<Rightarrow> int \<Rightarrow> (int \<times> p9_arg) option result option" where
  "unmarshall_arg junk queue_idx desc_idx s c offset =
     (if c = CHR ''b'' then
        andGet (queue_get junk queue_idx desc_idx s offset 1) (\<lambda>buf. found (offset + 1, arg_b (buf ! 0)))
      else if c = CHR ''h'' then
        andGet (queue_get junk queue_idx desc_idx s offset 2) (\<lambda>buf. found (offset + 2, arg_h (get_le16 buf 0)))
      else if c = CHR ''w'' then
        andGet (queue_get junk queue_idx desc_idx s offset 4) (\<lambda>buf. found (offset + 4, arg_w (get_le32 buf 0)))
      else if c = CHR ''d'' then
        andGet (queue_get junk queue_idx desc_idx s offset 8) (\<lambda>buf. found (offset + 8, arg_d (get_le64 buf 0)))
      else if c = CHR ''s'' then
        andGet (queue_get junk queue_idx desc_idx s offset 2) (\<lambda>buf.
        let len = uint (get_le16 buf 0); offset = offset + 2 in
        andGet (queue_get junk queue_idx desc_idx s offset len) (\<lambda>str. found (offset + len, arg_s (c_string str))))
      else Some (Inl Abort))"

primrec unmarshall ::
    "(nat \<Rightarrow> u8) \<Rightarrow> nat \<Rightarrow> int \<Rightarrow> 'd vm \<Rightarrow> string \<Rightarrow> int \<Rightarrow> (int \<times> p9_arg list) option result option" where
  "unmarshall junk queue_idx desc_idx s [] offset = found (offset, [])"
| "unmarshall junk queue_idx desc_idx s (c # fmt) offset =
     andGet (unmarshall_arg junk queue_idx desc_idx s c offset) (\<lambda>(offset, a).
     andGet (unmarshall junk queue_idx desc_idx s fmt offset) (\<lambda>(offset, ap). found (offset, a # ap)))"

section \<open>Bytes of integers\<close>

lemma length_le [simp]: "length (le16 v) = 2" "length (le32 w) = 4" "length (le64 x) = 8"
  by (simp_all add: put_le16_def put_le32_def put_le64_def)

lemma le32_eq: "le32 v = [ucast v, ucast (drop_bit 8 v), ucast (drop_bit 16 v), ucast (drop_bit 24 v)]"
  by (simp add: put_le32_def numeral_nat)

lemma le64_eq: "le64 v = le32 (ucast v) @ le32 (ucast (drop_bit 32 v))"
  by (simp add: put_le64_def put_le32_def numeral_nat)

lemma get_le [simp]: "get_le16 (le16 v) 0 = v" "get_le32 (le32 w) 0 = w" "get_le64 (le64 x) 0 = x"
proof -
  show "get_le16 (le16 v) 0 = v"
    using join_le16 [of v] by (simp add: get_le16_def put_le16_def numeral_nat)
  show 32: "get_le32 (le32 w) 0 = w" for w
    using join_le32 [of w] by (simp add: get_le32_def le32_eq)
  have "get_le32 (le32 a @ le32 b) 0 = a" "get_le32 (le32 a @ le32 b) 4 = b" for a b
    using join_le32 [of a] join_le32 [of b] by (simp_all add: get_le32_def le32_eq)
  moreover have "ucast (ucast x :: u32) OR push_bit 32 (ucast (ucast (drop_bit 32 x) :: u32)) = x"
    by (rule bit_word_eqI) (auto simp: bit_simps)
  ultimately show "get_le64 (le64 x) 0 = x" unfolding get_le64_def le64_eq by simp
qed

section \<open>Reading is parsing\<close>

text \<open>The arguments at the start of a list of bytes, and what follows them.\<close>

definition split_at :: "nat \<Rightarrow> u8 list \<Rightarrow> (u8 list \<times> u8 list) option" where
  "split_at k bs = (if k \<le> length bs then Some (take k bs, drop k bs) else None)"

definition parse_arg :: "char \<Rightarrow> u8 list \<Rightarrow> (p9_arg \<times> u8 list) option" where
  "parse_arg c bs =
     (if c = CHR ''b'' then map_option (apfst (\<lambda>buf. arg_b (buf ! 0))) (split_at 1 bs)
      else if c = CHR ''h'' then map_option (apfst (\<lambda>buf. arg_h (get_le16 buf 0))) (split_at 2 bs)
      else if c = CHR ''w'' then map_option (apfst (\<lambda>buf. arg_w (get_le32 buf 0))) (split_at 4 bs)
      else if c = CHR ''d'' then map_option (apfst (\<lambda>buf. arg_d (get_le64 buf 0))) (split_at 8 bs)
      else if c = CHR ''s'' then
        Option.bind (split_at 2 bs) (\<lambda>(len, bs).
        map_option (apfst (\<lambda>str. arg_s (c_string str))) (split_at (unat (get_le16 len 0)) bs))
      else None)"

primrec parse :: "string \<Rightarrow> u8 list \<Rightarrow> (p9_arg list \<times> u8 list) option" where
  "parse [] bs = Some ([], bs)"
| "parse (c # fmt) bs =
     Option.bind (parse_arg c bs) (\<lambda>(a, bs). map_option (apfst (Cons a)) (parse fmt bs))"

text \<open>The formats the device reads.\<close>

definition readable :: "string \<Rightarrow> bool" where
  "readable fmt \<longleftrightarrow> set fmt \<subseteq> set ''bhwds''"

lemma readable_Cons: "readable (c # fmt) \<longleftrightarrow> c \<in> set ''bhwds'' \<and> readable fmt"
  by (simp add: readable_def)

lemma parse_arg_suffix: "parse_arg c bs = Some (a, rest) \<Longrightarrow> \<exists>k. rest = drop k bs \<and> k \<le> length bs"
  by (auto simp: parse_arg_def split_at_def bind_eq_Some_conv split: if_splits)

lemma parse_suffix: "parse fmt bs = Some (ap, rest) \<Longrightarrow> \<exists>k. rest = drop k bs \<and> k \<le> length bs"
proof (induction fmt arbitrary: bs ap)
  case (Cons c fmt)
  then obtain a bs1 ap1 where a: "parse_arg c bs = Some (a, bs1)" "parse fmt bs1 = Some (ap1, rest)"
    by (auto simp: bind_eq_Some_conv)
  obtain k where k: "bs1 = drop k bs" "k \<le> length bs" using parse_arg_suffix [OF a(1)] by blast
  obtain j where "rest = drop j bs1" "j \<le> length bs1" using Cons.IH [OF a(2)] by blast
  with k show ?case by (intro exI [of _ "j + k"]) (simp add: drop_drop)
qed (auto intro: exI [of _ 0])

text \<open>
  On a well-formed request, reading at position \<open>k\<close> of the buffers is parsing what follows it. \<open>positioned\<close>
  turns the rest that parsing leaves into the offset the code keeps.
\<close>

definition positioned :: "nat \<Rightarrow> ('a \<times> u8 list) option \<Rightarrow> (int \<times> 'a) option" where
  "positioned n r = map_option (\<lambda>(a, rest). (int (n - length rest), a)) r"

lemma queue_get_parse:
  assumes "request_ok s queue_idx d rs ws index" "k \<le> length (payload (memory (vm_emu s)) rs)" "n < 2 ^ 31"
  shows "queue_get junk queue_idx (uint d) s (int k) (int n) =
    Some (Inr (map_option fst (split_at n (drop k (payload (memory (vm_emu s)) rs)))))"
proof -
  have len: "chain_len rs = int (length (payload (memory (vm_emu s)) rs))"
    by (simp add: length_payload)
  have k: "int k < 2 ^ 31" using assms(1,2) len by (simp add: request_ok_def Let_def)
  have malloc: "int (length (malloc_bytes junk (int n))) = int n" by (simp add: malloc_bytes_def)
  show ?thesis
  proof (cases "n \<le> length (payload (memory (vm_emu s)) rs) - k")
    case True
    have "memcpy_from_queue (vm_dev s) (malloc_bytes junk (int n)) queue_idx (uint d) (int k)
        (int (length (malloc_bytes junk (int n)))) (memory (vm_emu s)) =
      Some (Inr (0, take (length (malloc_bytes junk (int n))) (drop (nat (int k)) (payload (memory (vm_emu s)) rs)),
        memory (vm_emu s)))"
      by (rule gather_request [OF assms(1)]) (use assms(2) True len malloc in simp_all)
    then show ?thesis
      using True by (simp add: queue_get_def malloc split_at_def) (simp add: malloc_bytes_def)
  next
    case False
    obtain buf' where "memcpy_from_queue (vm_dev s) (malloc_bytes junk (int n)) queue_idx (uint d) (int k) (int n)
        (memory (vm_emu s)) = Some (Inr (-1, buf', memory (vm_emu s)))"
      using gather_short [OF assms(1) _ k _ _ _ malloc] False assms(2,3) len by fastforce
    then show ?thesis using False by (simp add: queue_get_def split_at_def)
  qed
qed

lemma unmarshall_arg_parse:
  assumes "request_ok s queue_idx d rs ws index" "k \<le> length (payload (memory (vm_emu s)) rs)" "c \<in> set ''bhwds''"
  shows "unmarshall_arg junk queue_idx (uint d) s c (int k) =
    Some (Inr (positioned (length (payload (memory (vm_emu s)) rs))
      (parse_arg c (drop k (payload (memory (vm_emu s)) rs)))))"
proof -
  define P where "P = payload (memory (vm_emu s)) rs"
  have get: "queue_get junk queue_idx (uint d) s (int j) (int n) = Some (Inr (map_option fst (split_at n (drop j P))))"
    if "j \<le> length P" "n < 2 ^ 31" for j n
    using queue_get_parse [OF assms(1)] that by (simp add: P_def)
  have k: "k \<le> length P" using assms(2) by (simp add: P_def)
  note fixed = get [OF k, of 1, simplified] get [OF k, of 2, simplified] get [OF k, of 4, simplified]
    get [OF k, of 8, simplified]
  show ?thesis
  proof (cases "c = CHR ''s''")
    case False
    have "length P - (length P - (k + n)) = k + n" if "n \<le> length P - k" for n using that k by simp
    then show ?thesis
      using False assms(3)
      by (auto simp: unmarshall_arg_def parse_arg_def fixed positioned_def split_at_def P_def [symmetric] algebra_simps)
  next
    case True
    show ?thesis
    proof (cases "2 \<le> length P - k")
      case short: False
      then show ?thesis
        using True by (simp add: unmarshall_arg_def parse_arg_def fixed positioned_def split_at_def P_def [symmetric])
    next
      case long: True
      define len where "len = get_le16 (take 2 (drop k P)) 0"
      have k2: "k + 2 \<le> length P" using long by simp
      have "unat len < 2 ^ 31" using unsigned_less [of len, where 'a = nat] by simp
      from get [OF k2 this] have str: "queue_get junk queue_idx (uint d) s (int k + 2) (uint len) =
          Some (Inr (map_option fst (split_at (unat len) (drop (k + 2) P))))" by (simp add: add.commute)
      show ?thesis
        using True long str
        by (auto simp: unmarshall_arg_def parse_arg_def fixed positioned_def split_at_def Let_def
            len_def [symmetric] P_def [symmetric] algebra_simps)
    qed
  qed
qed

lemma unmarshall_parse:
  assumes "request_ok s queue_idx d rs ws index" "k \<le> length (payload (memory (vm_emu s)) rs)" "readable fmt"
  shows "unmarshall junk queue_idx (uint d) s fmt (int k) =
    Some (Inr (positioned (length (payload (memory (vm_emu s)) rs))
      (parse fmt (drop k (payload (memory (vm_emu s)) rs)))))"
  using assms(2,3)
proof (induction fmt arbitrary: k)
  case Nil
  then show ?case by (simp add: positioned_def)
next
  case (Cons c fmt)
  define P where "P = payload (memory (vm_emu s)) rs"
  have c: "c \<in> set ''bhwds''" "readable fmt" using Cons.prems(2) by (auto simp: readable_Cons)
  note arg = unmarshall_arg_parse [OF assms(1) Cons.prems(1) c(1), of junk, folded P_def]
  show ?case
  proof (cases "parse_arg c (drop k P)")
    case None
    then show ?thesis by (simp add: arg positioned_def P_def [symmetric])
  next
    case (Some r)
    obtain a bs where r: "r = (a, bs)" by (cases r)
    obtain j where j: "bs = drop j (drop k P)" "j \<le> length (drop k P)"
      using parse_arg_suffix Some r by blast
    have kj: "j + k \<le> length P" using j(2) Cons.prems(1) by (simp add: P_def)
    have off: "int (length P - length bs) = int (j + k)" "bs = drop (j + k) P" using j kj by simp_all
    show ?thesis
      using Cons.IH [OF kj [unfolded P_def] c(2), folded P_def] Some
      by (cases "parse fmt bs") (auto simp: arg r positioned_def off(2) off(1) [unfolded off(2)] P_def [symmetric]
        simp del: of_nat_add of_nat_diff length_drop)
  qed
qed

section \<open>What is written is read back\<close>

definition arg_letter :: "p9_arg \<Rightarrow> char" where
  "arg_letter a = (case a of arg_b _ \<Rightarrow> CHR ''b'' | arg_h _ \<Rightarrow> CHR ''h'' | arg_w _ \<Rightarrow> CHR ''w''
     | arg_d _ \<Rightarrow> CHR ''d'' | arg_s _ \<Rightarrow> CHR ''s'' | arg_Q _ \<Rightarrow> CHR ''Q'')"

text \<open>Strings without a zero byte, and no \<^verbatim>\<open>FSQID\<close>, which only replies hold.\<close>

definition plain_arg :: "p9_arg \<Rightarrow> bool" where
  "plain_arg a \<longleftrightarrow> (case a of arg_s str \<Rightarrow> 0 \<notin> set str | arg_Q _ \<Rightarrow> False | _ \<Rightarrow> True)"

lemma c_string_plain: "0 \<notin> set str \<Longrightarrow> c_string str = str"
  unfolding c_string_def by (rule takeWhile_eq_all_conv [THEN iffD2]) auto

lemma parse_arg_bytes:
  assumes "plain_arg a" "\<not> too_long a"
  shows "parse_arg (arg_letter a) (arg_bytes a @ rest) = Some (a, rest)"
proof (cases a)
  case (arg_s str)
  then have "c_string str = str" "length str < 2 ^ 16" using assms c_string_plain by (simp_all add: plain_arg_def too_long_def)
  then show ?thesis
    using arg_s by (simp add: parse_arg_def arg_letter_def split_at_def unsigned_of_nat take_bit_nat_eq_self)
qed (use assms in \<open>simp_all add: parse_arg_def arg_letter_def split_at_def plain_arg_def\<close>)

lemma marshall_bytes:
  "marshall n ap = Inr bs \<Longrightarrow> bs = concat (map arg_bytes ap) \<and> (\<forall>a \<in> set ap. \<not> too_long a)"
  by (induction ap arbitrary: n bs) (fastforce simp: andThen_Inr_iff split: if_splits)+

lemma marshall_bound: "marshall n ap = Inr bs \<Longrightarrow> int (length bs) \<le> max 0 n"
  by (induction ap arbitrary: n bs) (fastforce simp: andThen_Inr_iff split: if_splits)+

lemma parse_marshall:
  assumes "marshall n ap = Inr bs" "\<forall>a \<in> set ap. plain_arg a"
  shows "parse (map arg_letter ap) (bs @ rest) = Some (ap, rest)"
proof -
  have "bs = concat (map arg_bytes ap)" "\<forall>a \<in> set ap. \<not> too_long a" using marshall_bytes [OF assms(1)] by auto
  then show ?thesis
    using assms(2)
  proof (induction ap arbitrary: bs)
    case (Cons a ap)
    then show ?case by (simp add: parse_arg_bytes)
  qed simp
qed

text \<open>Arguments of a fixed size that fit are always written.\<close>

lemma marshall_fits:
  assumes "int (length (concat (map arg_bytes ap))) \<le> n" "\<forall>a \<in> set ap. \<not> too_long a"
  shows "marshall n ap = Inr (concat (map arg_bytes ap))"
  using assms by (induction ap arbitrary: n) (simp_all)

text \<open>From here on the formats are read as a whole.\<close>

declare unmarshall.simps [simp del] marshall.simps [simp del]

end
