(* ===== verification/P9_Device.thy ===== *)
theory P9_Device
  imports P9_Message
begin

text \<open>
  The state of the 9P device of \<^verbatim>\<open>temu/virtio.c\<close>, which serves the requests of a 9P2000.L client from a
  file system: the table of files, the replies, and the parts its requests are made of. The file system is
  a parameter, the record \<open>FSDevice\<close> of its operations: \<open>'s\<close> is its state, \<open>'f\<close> the type of its files; an
  operation returns what it returns in the code and what it writes to its output arguments.
\<close>

section \<open>The file system\<close>

record FSStatFS =
  f_bsize :: u32
  f_blocks :: u64
  f_bfree :: u64
  f_bavail :: u64
  f_files :: u64
  f_ffree :: u64

record FSStat =
  st_qid :: FSQID
  st_mode :: u32
  st_uid :: u32
  st_gid :: u32
  st_nlink :: u64
  st_rdev :: u64
  st_size :: u64
  st_blksize :: u64
  st_blocks :: u64
  st_atime_sec :: u64
  st_atime_nsec :: u32
  st_mtime_sec :: u64
  st_mtime_nsec :: u32
  st_ctime_sec :: u64
  st_ctime_nsec :: u32

record FSLock =
  lk_type :: u8
  lk_flags :: u32
  lk_start :: u64
  lk_length :: u64
  lk_proc_id :: u32
  lk_client_id :: "u8 list"

type_synonym c_str = "u8 list"

text \<open>
  \<open>fs_walk\<close>, \<open>fs_read\<close> and \<open>fs_readdir\<close> return what they have written to the array they are given; the code
  relies on them to write as many entries as they report.
\<close>

record ('f, 's) FSDevice =
  fs_delete :: "'f \<Rightarrow> 's \<Rightarrow> 's"
  fs_statfs :: "'s \<Rightarrow> FSStatFS \<times> 's"
  fs_attach :: "u32 \<Rightarrow> c_str \<Rightarrow> c_str \<Rightarrow> 's \<Rightarrow> (int \<times> 'f \<times> FSQID) \<times> 's"
  fs_walk :: "'f \<Rightarrow> c_str list \<Rightarrow> 's \<Rightarrow> (int \<times> 'f \<times> FSQID list) \<times> 's"
  fs_mkdir :: "'f \<Rightarrow> c_str \<Rightarrow> u32 \<Rightarrow> u32 \<Rightarrow> 's \<Rightarrow> (int \<times> FSQID) \<times> 's"
  fs_open :: "'f \<Rightarrow> u32 \<Rightarrow> 's \<Rightarrow> (int \<times> FSQID) \<times> 's"
  fs_create :: "'f \<Rightarrow> c_str \<Rightarrow> u32 \<Rightarrow> u32 \<Rightarrow> u32 \<Rightarrow> 's \<Rightarrow> (int \<times> FSQID) \<times> 's"
  fs_stat :: "'f \<Rightarrow> 's \<Rightarrow> (int \<times> FSStat) \<times> 's"
  fs_setattr :: "'f \<Rightarrow> u32 \<Rightarrow> u32 \<Rightarrow> u32 \<Rightarrow> u32 \<Rightarrow> u64 \<Rightarrow> u64 \<Rightarrow> u64 \<Rightarrow> u64 \<Rightarrow> u64 \<Rightarrow> 's \<Rightarrow> int \<times> 's"
  fs_readdir :: "'f \<Rightarrow> u64 \<Rightarrow> int \<Rightarrow> 's \<Rightarrow> (int \<times> u8 list) \<times> 's"
  fs_read :: "'f \<Rightarrow> u64 \<Rightarrow> int \<Rightarrow> 's \<Rightarrow> (int \<times> u8 list) \<times> 's"
  fs_write :: "'f \<Rightarrow> u64 \<Rightarrow> u8 list \<Rightarrow> int \<Rightarrow> 's \<Rightarrow> int \<times> 's"
  fs_link :: "'f \<Rightarrow> 'f \<Rightarrow> c_str \<Rightarrow> 's \<Rightarrow> int \<times> 's"
  fs_symlink :: "'f \<Rightarrow> c_str \<Rightarrow> c_str \<Rightarrow> u32 \<Rightarrow> 's \<Rightarrow> (int \<times> FSQID) \<times> 's"
  fs_mknod :: "'f \<Rightarrow> c_str \<Rightarrow> u32 \<Rightarrow> u32 \<Rightarrow> u32 \<Rightarrow> u32 \<Rightarrow> 's \<Rightarrow> (int \<times> FSQID) \<times> 's"
  fs_readlink :: "'f \<Rightarrow> 's \<Rightarrow> (int \<times> c_str) \<times> 's"
  fs_renameat :: "'f \<Rightarrow> c_str \<Rightarrow> 'f \<Rightarrow> c_str \<Rightarrow> 's \<Rightarrow> int \<times> 's"
  fs_unlinkat :: "'f \<Rightarrow> c_str \<Rightarrow> 's \<Rightarrow> int \<times> 's"
  fs_lock :: "'f \<Rightarrow> FSLock \<Rightarrow> 's \<Rightarrow> int \<times> 's"
  fs_getlock :: "'f \<Rightarrow> FSLock \<Rightarrow> 's \<Rightarrow> (int \<times> FSLock) \<times> 's"

text \<open>
  Where the code reads what it has not set: in the request \<^verbatim>\<open>getlock\<close>, the flags of the lock, and the
  arguments of the reply, for which it passes the addresses of the fields and not their values.
\<close>

record p9_unset =
  un_flags :: u32
  un_type :: u8
  un_start :: u64
  un_length :: u64
  un_proc_id :: u32
  un_client_id :: c_str

abbreviation P9_EPROTO :: int where "P9_EPROTO \<equiv> 71"
abbreviation P9_ENOTSUP :: int where "P9_ENOTSUP \<equiv> 524"

section \<open>The table of files\<close>

type_synonym 'f FIDDesc = "u32 \<times> 'f"

record ('f, 's) VIRTIO9PDevice =
  p9_fs :: 's
  p9_msize :: int
  p9_fid_list :: "'f FIDDesc list"
  p9_req_in_progress :: bool

type_synonym ('f, 's) pvm = "('f, 's) VIRTIO9PDevice vm"

definition fid_find1 :: "u32 \<Rightarrow> ('f, 's) VIRTIO9PDevice \<Rightarrow> 'f FIDDesc option" where
  "fid_find1 fid s = find (\<lambda>f. fst f = fid) (p9_fid_list s)"

definition fid_find :: "u32 \<Rightarrow> ('f, 's) VIRTIO9PDevice \<Rightarrow> 'f option" where
  "fid_find fid s = (case fid_find1 fid s of None \<Rightarrow> None | Some f \<Rightarrow> Some (snd f))"

text \<open>\<^verbatim>\<open>list_del\<close> of the entry found, and the assignment to its file.\<close>

primrec fid_list_del :: "u32 \<Rightarrow> 'f FIDDesc list \<Rightarrow> 'f FIDDesc list" where
  "fid_list_del fid [] = []"
| "fid_list_del fid (f # fs) = (if fst f = fid then fs else f # fid_list_del fid fs)"

primrec fid_list_put :: "u32 \<Rightarrow> 'f \<Rightarrow> 'f FIDDesc list \<Rightarrow> 'f FIDDesc list" where
  "fid_list_put fid fd [] = []"
| "fid_list_put fid fd (f # fs) = (if fst f = fid then (fid, fd) # fs else f # fid_list_put fid fd fs)"

definition fid_delete :: "('f, 's) FSDevice \<Rightarrow> u32 \<Rightarrow> ('f, 's) VIRTIO9PDevice \<Rightarrow> ('f, 's) VIRTIO9PDevice" where
  "fid_delete fs fid s =
     (case fid_find1 fid s of
        None \<Rightarrow> s
      | Some f \<Rightarrow> s\<lparr>p9_fs := fs_delete fs (snd f) (p9_fs s), p9_fid_list := fid_list_del fid (p9_fid_list s)\<rparr>)"

definition fid_set :: "('f, 's) FSDevice \<Rightarrow> u32 \<Rightarrow> 'f \<Rightarrow> ('f, 's) VIRTIO9PDevice \<Rightarrow> ('f, 's) VIRTIO9PDevice" where
  "fid_set fs fid fd s =
     (case fid_find1 fid s of
        Some f \<Rightarrow>
          s\<lparr>p9_fs := fs_delete fs (snd f) (p9_fs s), p9_fid_list := fid_list_put fid fd (p9_fid_list s)\<rparr>
      | None \<Rightarrow> s\<lparr>p9_fid_list := (fid, fd) # p9_fid_list s\<rparr>)"

section \<open>Replies\<close>

definition reply_message :: "u8 \<Rightarrow> u16 \<Rightarrow> u8 list \<Rightarrow> u8 list" where
  "reply_message oid tag buf = le32 (of_nat (length buf + 7)) @ [oid + 1] @ le16 tag @ buf"

definition virtio_9p_send_reply :: "nat \<Rightarrow> int \<Rightarrow> u8 \<Rightarrow> u16 \<Rightarrow> u8 list \<Rightarrow> ('f, 's) pvm \<Rightarrow> ('f, 's) pvm result option" where
  "virtio_9p_send_reply queue_idx desc_idx oid tag buf s =
     answer queue_idx desc_idx (reply_message oid tag buf) (int (length buf) + 7) s"

definition virtio_9p_send_error :: "nat \<Rightarrow> int \<Rightarrow> u16 \<Rightarrow> int \<Rightarrow> ('f, 's) pvm \<Rightarrow> ('f, 's) pvm result option" where
  "virtio_9p_send_error queue_idx desc_idx tag error s =
     andDo (Some (marshall 4 [arg_w (- of_int error)])) (\<lambda>buf.
     virtio_9p_send_reply queue_idx desc_idx 6 tag buf s)"

text \<open>
  How the service of a request ends: with a reply, with \<^verbatim>\<open>goto error\<close>, or with a file that is still being
  opened.
\<close>

datatype p9_outcome = Reply "u8 list" | Error int | Pending

definition p9_end :: "nat \<Rightarrow> int \<Rightarrow> u8 \<Rightarrow> u16 \<Rightarrow> p9_outcome \<Rightarrow> ('f, 's) pvm \<Rightarrow> ('f, 's) pvm result option" where
  "p9_end queue_idx desc_idx oid tag out s =
     (case out of
        Reply buf \<Rightarrow> virtio_9p_send_reply queue_idx desc_idx oid tag buf s
      | Error err \<Rightarrow> virtio_9p_send_error queue_idx desc_idx tag err s
      | Pending \<Rightarrow> Some (Inr s))"

abbreviation protocol_error :: p9_outcome where "protocol_error \<equiv> Error (- P9_EPROTO)"

section \<open>The requests\<close>

type_synonym ('f, 's) served = "(p9_outcome \<times> ('f, 's) pvm) result option"

text \<open>
  The parts the requests are made of: the arguments (if they are there), the file of a fid, a reply in
  a buffer of \<open>n\<close> bytes, and a result that \<^verbatim>\<open>if (err) goto error\<close> tests.
\<close>

definition served :: "p9_outcome \<Rightarrow> ('f, 's) pvm \<Rightarrow> ('f, 's) served" where
  "served out s = Some (Inr (out, s))"

definition replies :: "int \<Rightarrow> p9_arg list \<Rightarrow> ('f, 's) pvm \<Rightarrow> ('f, 's) served" where
  "replies n ap s = andDo (Some (marshall n ap)) (\<lambda>buf. served (Reply buf) s)"

definition arguments ::
    "(nat \<Rightarrow> u8) \<Rightarrow> nat \<Rightarrow> int \<Rightarrow> string \<Rightarrow> int \<Rightarrow> (int \<Rightarrow> p9_arg list \<Rightarrow> ('f, 's) served) \<Rightarrow> ('f, 's) pvm \<Rightarrow> ('f, 's) served" where
  "arguments junk queue_idx desc_idx fmt offset k s =
     andDo (unmarshall junk queue_idx desc_idx s fmt offset) (\<lambda>r. case r of
       None \<Rightarrow> served protocol_error s
     | Some (offset, ap) \<Rightarrow> k offset ap)"

definition file_of :: "p9_arg \<Rightarrow> ('f \<Rightarrow> ('f, 's) served) \<Rightarrow> ('f, 's) pvm \<Rightarrow> ('f, 's) served" where
  "file_of a k s = (case fid_find (get_w a) (vm_opaque s) of None \<Rightarrow> served protocol_error s | Some f \<Rightarrow> k f)"

definition with_fs :: "'s \<Rightarrow> ('f, 's) pvm \<Rightarrow> ('f, 's) pvm" where
  "with_fs st s = vm_opaque_update (p9_fs_update (\<lambda>_. st)) s"

definition on_fs :: "('s \<Rightarrow> 'a \<times> 's) \<Rightarrow> ('a \<Rightarrow> ('f, 's) pvm \<Rightarrow> ('f, 's) served) \<Rightarrow> ('f, 's) pvm \<Rightarrow> ('f, 's) served" where
  "on_fs operation k s = (case operation (p9_fs (vm_opaque s)) of (r, st) \<Rightarrow> k r (with_fs st s))"

definition unless_error :: "int \<Rightarrow> ('f, 's) served \<Rightarrow> ('f, 's) pvm \<Rightarrow> ('f, 's) served" where
  "unless_error err k s = (if err \<noteq> 0 then served (Error err) s else k)"

definition p9_open_reply :: "int \<Rightarrow> FSQID \<Rightarrow> ('f, 's) pvm \<Rightarrow> ('f, 's) served" where
  "p9_open_reply err qid s =
     (if err < 0 then served (Error err) s
      else replies 32 [arg_Q qid, arg_w (of_int (p9_msize (vm_opaque s) - 24))] s)"

definition stat_args :: "u64 \<Rightarrow> FSStat \<Rightarrow> p9_arg list" where
  "stat_args attr_mask st =
     [arg_d attr_mask, arg_Q (st_qid st), arg_w (st_mode st), arg_w (st_uid st), arg_w (st_gid st),
      arg_d (st_nlink st), arg_d (st_rdev st), arg_d (st_size st), arg_d (st_blksize st), arg_d (st_blocks st),
      arg_d (st_atime_sec st), arg_d (ucast (st_atime_nsec st)), arg_d (st_mtime_sec st),
      arg_d (ucast (st_mtime_nsec st)), arg_d (st_ctime_sec st), arg_d (ucast (st_ctime_nsec st)),
      arg_d 0, arg_d 0, arg_d 0, arg_d 0]"

text \<open>The reply to \<^verbatim>\<open>read\<close> and \<^verbatim>\<open>readdir\<close>: \<open>n\<close> and the \<open>n\<close> bytes.\<close>

definition data_reply :: "int \<Rightarrow> u8 list \<Rightarrow> ('f, 's) pvm \<Rightarrow> ('f, 's) served" where
  "data_reply n buf s =
     (if n < 0 then served (Error n) s else served (Reply (le32 (of_int n) @ take (nat n) buf)) s)"

end
