(* ===== verification/Virtio_9P.thy ===== *)
theory Virtio_9P
  imports P9_Device
begin

text \<open>
  The requests of the 9P device of \<^verbatim>\<open>temu/virtio.c\<close>, one definition for each \<^verbatim>\<open>case\<close> of
  \<^verbatim>\<open>virtio_9p_recv_request\<close>, the request as a whole, the completion of an open, and the initialisation.
  \<open>args\<close> reads the arguments of the request, \<open>offset\<close> is where they start.
\<close>

section \<open>The cases\<close>

type_synonym ('f, 's) reader =
  "string \<Rightarrow> int \<Rightarrow> (int \<Rightarrow> p9_arg list \<Rightarrow> ('f, 's) served) \<Rightarrow> ('f, 's) pvm \<Rightarrow> ('f, 's) served"

abbreviation sizeof_buf :: int where "sizeof_buf \<equiv> 1024"

abbreviation iounit :: "('f, 's) pvm \<Rightarrow> p9_arg" where
  "iounit s \<equiv> arg_w (of_int (p9_msize (vm_opaque s) - 24))"

definition p9_statfs :: "('f, 's) FSDevice \<Rightarrow> ('f, 's) pvm \<Rightarrow> ('f, 's) served" where
  "p9_statfs fs s =
     on_fs (fs_statfs fs) (\<lambda>st.
     replies sizeof_buf [arg_w 0, arg_w (f_bsize st), arg_d (f_blocks st), arg_d (f_bfree st), arg_d (f_bavail st),
       arg_d (f_files st), arg_d (f_ffree st), arg_d 0, arg_w 256]) s"

definition p9_lopen :: "('f, 's) FSDevice \<Rightarrow> ('f, 's) reader \<Rightarrow> int \<Rightarrow> ('f, 's) pvm \<Rightarrow> ('f, 's) served" where
  "p9_lopen fs args offset s =
     args ''ww'' offset (\<lambda>_ ap.
     file_of (ap ! 0) (\<lambda>f.
     on_fs (fs_open fs f (get_w (ap ! 1))) (\<lambda>(err, qid) s.
       if err \<le> 0 then p9_open_reply err qid s
       else served Pending (vm_opaque_update (p9_req_in_progress_update (\<lambda>_. True)) s)) s) s) s"

definition p9_lcreate :: "('f, 's) FSDevice \<Rightarrow> ('f, 's) reader \<Rightarrow> int \<Rightarrow> ('f, 's) pvm \<Rightarrow> ('f, 's) served" where
  "p9_lcreate fs args offset s =
     args ''wswww'' offset (\<lambda>_ ap.
     file_of (ap ! 0) (\<lambda>f.
     on_fs (fs_create fs f (get_s (ap ! 1)) (get_w (ap ! 2)) (get_w (ap ! 3)) (get_w (ap ! 4))) (\<lambda>(err, qid) s.
     unless_error err (replies sizeof_buf [arg_Q qid, iounit s] s) s) s) s) s"

definition p9_symlink :: "('f, 's) FSDevice \<Rightarrow> ('f, 's) reader \<Rightarrow> int \<Rightarrow> ('f, 's) pvm \<Rightarrow> ('f, 's) served" where
  "p9_symlink fs args offset s =
     args ''wssw'' offset (\<lambda>_ ap.
     file_of (ap ! 0) (\<lambda>f.
     on_fs (fs_symlink fs f (get_s (ap ! 1)) (get_s (ap ! 2)) (get_w (ap ! 3))) (\<lambda>(err, qid) s.
     unless_error err (replies sizeof_buf [arg_Q qid] s) s) s) s) s"

definition p9_mknod :: "('f, 's) FSDevice \<Rightarrow> ('f, 's) reader \<Rightarrow> int \<Rightarrow> ('f, 's) pvm \<Rightarrow> ('f, 's) served" where
  "p9_mknod fs args offset s =
     args ''wswwww'' offset (\<lambda>_ ap.
     file_of (ap ! 0) (\<lambda>f.
     on_fs (fs_mknod fs f (get_s (ap ! 1)) (get_w (ap ! 2)) (get_w (ap ! 3)) (get_w (ap ! 4)) (get_w (ap ! 5)))
       (\<lambda>(err, qid) s.
     unless_error err (replies sizeof_buf [arg_Q qid] s) s) s) s) s"

definition p9_readlink :: "('f, 's) FSDevice \<Rightarrow> ('f, 's) reader \<Rightarrow> int \<Rightarrow> ('f, 's) pvm \<Rightarrow> ('f, 's) served" where
  "p9_readlink fs args offset s =
     args ''w'' offset (\<lambda>_ ap.
     file_of (ap ! 0) (\<lambda>f.
     on_fs (fs_readlink fs f) (\<lambda>(err, buf1) s.
     unless_error err (replies sizeof_buf [arg_s buf1] s) s) s) s) s"

definition p9_getattr :: "('f, 's) FSDevice \<Rightarrow> ('f, 's) reader \<Rightarrow> int \<Rightarrow> ('f, 's) pvm \<Rightarrow> ('f, 's) served" where
  "p9_getattr fs args offset s =
     args ''wd'' offset (\<lambda>_ ap.
     file_of (ap ! 0) (\<lambda>f.
     on_fs (fs_stat fs f) (\<lambda>(err, st) s.
     unless_error err (replies sizeof_buf (stat_args (get_d (ap ! 1)) st) s) s) s) s) s"

definition p9_setattr :: "('f, 's) FSDevice \<Rightarrow> ('f, 's) reader \<Rightarrow> int \<Rightarrow> ('f, 's) pvm \<Rightarrow> ('f, 's) served" where
  "p9_setattr fs args offset s =
     args ''wwwwwddddd'' offset (\<lambda>_ ap.
     file_of (ap ! 0) (\<lambda>f.
     on_fs (fs_setattr fs f (get_w (ap ! 1)) (get_w (ap ! 2)) (get_w (ap ! 3)) (get_w (ap ! 4)) (get_d (ap ! 5))
       (get_d (ap ! 6)) (get_d (ap ! 7)) (get_d (ap ! 8)) (get_d (ap ! 9))) (\<lambda>err s.
     unless_error err (served (Reply []) s) s) s) s) s"

definition p9_xattrwalk :: "('f, 's) pvm \<Rightarrow> ('f, 's) served" where
  "p9_xattrwalk s = served (Error (- P9_ENOTSUP)) s"

text \<open>\<open>count\<close> is unsigned in the message and signed in the file system.\<close>

definition p9_readdir :: "('f, 's) FSDevice \<Rightarrow> ('f, 's) reader \<Rightarrow> int \<Rightarrow> ('f, 's) pvm \<Rightarrow> ('f, 's) served" where
  "p9_readdir fs args offset s =
     args ''wdw'' offset (\<lambda>_ ap.
     file_of (ap ! 0) (\<lambda>f.
     on_fs (fs_readdir fs f (get_d (ap ! 1)) (sint (get_w (ap ! 2)))) (\<lambda>(n, buf). data_reply n buf) s) s) s"

definition p9_fsync :: "('f, 's) reader \<Rightarrow> int \<Rightarrow> ('f, 's) pvm \<Rightarrow> ('f, 's) served" where
  "p9_fsync args offset s = args ''w'' offset (\<lambda>_ ap. served (Reply []) s) s"

definition p9_lock :: "('f, 's) FSDevice \<Rightarrow> ('f, 's) reader \<Rightarrow> int \<Rightarrow> ('f, 's) pvm \<Rightarrow> ('f, 's) served" where
  "p9_lock fs args offset s =
     args ''wbwddws'' offset (\<lambda>_ ap.
     file_of (ap ! 0) (\<lambda>f.
     on_fs (fs_lock fs f \<lparr>lk_type = get_b (ap ! 1), lk_flags = get_w (ap ! 2), lk_start = get_d (ap ! 3),
       lk_length = get_d (ap ! 4), lk_proc_id = get_w (ap ! 5), lk_client_id = get_s (ap ! 6)\<rparr>) (\<lambda>err s.
     if err < 0 then served (Error err) s else replies sizeof_buf [arg_b (of_int err)] s) s) s) s"

definition p9_getlock ::
    "('f, 's) FSDevice \<Rightarrow> p9_unset \<Rightarrow> ('f, 's) reader \<Rightarrow> int \<Rightarrow> ('f, 's) pvm \<Rightarrow> ('f, 's) served" where
  "p9_getlock fs un args offset s =
     args ''wbddws'' offset (\<lambda>_ ap.
     file_of (ap ! 0) (\<lambda>f.
     on_fs (fs_getlock fs f \<lparr>lk_type = get_b (ap ! 1), lk_flags = un_flags un, lk_start = get_d (ap ! 2),
       lk_length = get_d (ap ! 3), lk_proc_id = get_w (ap ! 4), lk_client_id = get_s (ap ! 5)\<rparr>) (\<lambda>(err, lock) s.
     if err < 0 then served (Error err) s
     else replies sizeof_buf [arg_b (un_type un), arg_d (un_start un), arg_d (un_length un), arg_w (un_proc_id un),
       arg_s (un_client_id un)] s) s) s) s"

definition p9_link :: "('f, 's) FSDevice \<Rightarrow> ('f, 's) reader \<Rightarrow> int \<Rightarrow> ('f, 's) pvm \<Rightarrow> ('f, 's) served" where
  "p9_link fs args offset s =
     args ''wws'' offset (\<lambda>_ ap.
     file_of (ap ! 0) (\<lambda>df. file_of (ap ! 1) (\<lambda>f.
     on_fs (fs_link fs df f (get_s (ap ! 2))) (\<lambda>err s.
     unless_error err (served (Reply []) s) s) s) s) s) s"

definition p9_mkdir :: "('f, 's) FSDevice \<Rightarrow> ('f, 's) reader \<Rightarrow> int \<Rightarrow> ('f, 's) pvm \<Rightarrow> ('f, 's) served" where
  "p9_mkdir fs args offset s =
     args ''wsww'' offset (\<lambda>_ ap.
     file_of (ap ! 0) (\<lambda>f.
     on_fs (fs_mkdir fs f (get_s (ap ! 1)) (get_w (ap ! 2)) (get_w (ap ! 3))) (\<lambda>(err, qid) s.
     unless_error err (replies sizeof_buf [arg_Q qid] s) s) s) s) s"

definition p9_renameat :: "('f, 's) FSDevice \<Rightarrow> ('f, 's) reader \<Rightarrow> int \<Rightarrow> ('f, 's) pvm \<Rightarrow> ('f, 's) served" where
  "p9_renameat fs args offset s =
     args ''wsws'' offset (\<lambda>_ ap.
     file_of (ap ! 0) (\<lambda>f. file_of (ap ! 2) (\<lambda>new_f.
     on_fs (fs_renameat fs f (get_s (ap ! 1)) new_f (get_s (ap ! 3))) (\<lambda>err s.
     unless_error err (served (Reply []) s) s) s) s) s) s"

definition p9_unlinkat :: "('f, 's) FSDevice \<Rightarrow> ('f, 's) reader \<Rightarrow> int \<Rightarrow> ('f, 's) pvm \<Rightarrow> ('f, 's) served" where
  "p9_unlinkat fs args offset s =
     args ''wsw'' offset (\<lambda>_ ap.
     file_of (ap ! 0) (\<lambda>f.
     on_fs (fs_unlinkat fs f (get_s (ap ! 1))) (\<lambda>err s.
     unless_error err (served (Reply []) s) s) s) s) s"

text \<open>The version of the protocol, \<^verbatim>\<open>"9P2000.L"\<close>.\<close>

definition p9_version_name :: c_str where
  "p9_version_name = [0x39, 0x50, 0x32, 0x30, 0x30, 0x30, 0x2E, 0x4C]"

definition p9_version :: "('f, 's) reader \<Rightarrow> int \<Rightarrow> ('f, 's) pvm \<Rightarrow> ('f, 's) served" where
  "p9_version args offset s =
     args ''ws'' offset (\<lambda>_ ap.
     let s = vm_opaque_update (p9_msize_update (\<lambda>_. sint (get_w (ap ! 0)))) s in
     replies sizeof_buf [arg_w (of_int (p9_msize (vm_opaque s))), arg_s p9_version_name] s) s"

definition p9_attach :: "('f, 's) FSDevice \<Rightarrow> ('f, 's) reader \<Rightarrow> int \<Rightarrow> ('f, 's) pvm \<Rightarrow> ('f, 's) served" where
  "p9_attach fs args offset s =
     args ''wwssw'' offset (\<lambda>_ ap.
     on_fs (fs_attach fs (get_w (ap ! 4)) (get_s (ap ! 2)) (get_s (ap ! 3))) (\<lambda>(err, f, qid) s.
     unless_error err
       (let s = vm_opaque_update (fid_set fs (get_w (ap ! 0)) f) s in
        replies sizeof_buf [arg_Q qid] s) s) s) s"

definition p9_flush :: "('f, 's) reader \<Rightarrow> int \<Rightarrow> ('f, 's) pvm \<Rightarrow> ('f, 's) served" where
  "p9_flush args offset s = args ''h'' offset (\<lambda>_ ap. served (Reply []) s) s"

text \<open>
  The names follow the other arguments. The buffer must hold the number and all of the \<^verbatim>\<open>FSQID\<close>s, which
  \<^verbatim>\<open>marshall\<close> appends one by one.
\<close>

definition p9_walk :: "('f, 's) FSDevice \<Rightarrow> ('f, 's) reader \<Rightarrow> int \<Rightarrow> ('f, 's) pvm \<Rightarrow> ('f, 's) served" where
  "p9_walk fs args offset s =
     args ''wwh'' offset (\<lambda>offset ap.
     file_of (ap ! 0) (\<lambda>f.
     args (replicate (unat (get_h (ap ! 2))) (CHR ''s'')) offset (\<lambda>_ names.
     on_fs (fs_walk fs f (map get_s names)) (\<lambda>(err, f, qids) s.
       if err < 0 then served (Error err) s
       else andDo (Some (marshall sizeof_buf (arg_h (of_int err) # map arg_Q (take (nat err) qids)))) (\<lambda>buf.
         served (Reply buf) (vm_opaque_update (fid_set fs (get_w (ap ! 1)) f) s))) s) s) s) s"

definition p9_read :: "('f, 's) FSDevice \<Rightarrow> ('f, 's) reader \<Rightarrow> int \<Rightarrow> ('f, 's) pvm \<Rightarrow> ('f, 's) served" where
  "p9_read fs args offset s =
     args ''wdw'' offset (\<lambda>_ ap.
     file_of (ap ! 0) (\<lambda>f.
     on_fs (fs_read fs f (get_d (ap ! 1)) (sint (get_w (ap ! 2)))) (\<lambda>(n, buf). data_reply n buf) s) s) s"

definition p9_write ::
    "('f, 's) FSDevice \<Rightarrow> (int \<Rightarrow> int \<Rightarrow> u8 list option result option) \<Rightarrow> ('f, 's) reader \<Rightarrow> int \<Rightarrow> ('f, 's) pvm \<Rightarrow>
     ('f, 's) served" where
  "p9_write fs get args offset s =
     args ''wdw'' offset (\<lambda>offset ap.
     file_of (ap ! 0) (\<lambda>f.
     let count = sint (get_w (ap ! 2)) in
     andDo (get offset count) (\<lambda>r. case r of
       None \<Rightarrow> served protocol_error s
     | Some buf1 \<Rightarrow>
         on_fs (fs_write fs f (get_d (ap ! 1)) buf1 count) (\<lambda>n s.
         if n < 0 then served (Error n) s else replies sizeof_buf [arg_w (of_int n)] s) s)) s) s"

definition p9_clunk :: "('f, 's) FSDevice \<Rightarrow> ('f, 's) reader \<Rightarrow> int \<Rightarrow> ('f, 's) pvm \<Rightarrow> ('f, 's) served" where
  "p9_clunk fs args offset s =
     args ''w'' offset (\<lambda>_ ap.
     served (Reply []) (vm_opaque_update (fid_delete fs (get_w (ap ! 0))) s)) s"

text \<open>\<^verbatim>\<open>switch(id)\<close>.\<close>

definition p9_serve ::
    "('f, 's) FSDevice \<Rightarrow> p9_unset \<Rightarrow> (int \<Rightarrow> int \<Rightarrow> u8 list option result option) \<Rightarrow> ('f, 's) reader \<Rightarrow> u8 \<Rightarrow> int \<Rightarrow>
     ('f, 's) pvm \<Rightarrow> ('f, 's) served" where
  "p9_serve fs un get args oid offset s =
     (if oid = 8 then p9_statfs fs s
      else if oid = 12 then p9_lopen fs args offset s
      else if oid = 14 then p9_lcreate fs args offset s
      else if oid = 16 then p9_symlink fs args offset s
      else if oid = 18 then p9_mknod fs args offset s
      else if oid = 22 then p9_readlink fs args offset s
      else if oid = 24 then p9_getattr fs args offset s
      else if oid = 26 then p9_setattr fs args offset s
      else if oid = 30 then p9_xattrwalk s
      else if oid = 40 then p9_readdir fs args offset s
      else if oid = 50 then p9_fsync args offset s
      else if oid = 52 then p9_lock fs args offset s
      else if oid = 54 then p9_getlock fs un args offset s
      else if oid = 70 then p9_link fs args offset s
      else if oid = 72 then p9_mkdir fs args offset s
      else if oid = 74 then p9_renameat fs args offset s
      else if oid = 76 then p9_unlinkat fs args offset s
      else if oid = 100 then p9_version args offset s
      else if oid = 104 then p9_attach fs args offset s
      else if oid = 108 then p9_flush args offset s
      else if oid = 110 then p9_walk fs args offset s
      else if oid = 116 then p9_read fs args offset s
      else if oid = 118 then p9_write fs get args offset s
      else if oid = 120 then p9_clunk fs args offset s
      else served protocol_error s)"

section \<open>The device\<close>

text \<open>A request: its header, \<^verbatim>\<open>size[4] id[1] tag[2]\<close>, its service, and the end of it.\<close>

definition p9_request ::
    "('f, 's) FSDevice \<Rightarrow> p9_unset \<Rightarrow> (nat \<Rightarrow> u8) \<Rightarrow> nat \<Rightarrow> int \<Rightarrow> ('f, 's) pvm \<Rightarrow> ('f, 's) pvm result option" where
  "p9_request fs un junk queue_idx desc_idx s =
     andDo (queue_get junk queue_idx desc_idx s 0 (4 + 1 + 2)) (\<lambda>header. case header of
       None \<Rightarrow> p9_end queue_idx desc_idx 0 0 protocol_error s
     | Some buf \<Rightarrow>
         andDo (p9_serve fs un (queue_get junk queue_idx desc_idx s) (arguments junk queue_idx desc_idx)
           (buf ! 4) (4 + 1 + 2) s)
           (\<lambda>(out, s). p9_end queue_idx desc_idx (buf ! 4) (get_le16 buf 5) out s))"

definition virtio_9p_recv_request ::
    "('f, 's) FSDevice \<Rightarrow> p9_unset \<Rightarrow> (nat \<Rightarrow> u8) \<Rightarrow> ('f, 's) VIRTIO9PDevice device_recv" where
  "virtio_9p_recv_request fs un junk queue_idx desc_idx read_size write_size s =
     (if queue_idx \<noteq> 0 then Some (Inr (0, s))
      else if p9_req_in_progress (vm_opaque s) then Some (Inr (-1, s))
      else andDo (p9_request fs un junk queue_idx desc_idx s) (\<lambda>s. Some (Inr (0, s))))"

text \<open>
  The file system has opened the file of a pending request, or not: the device answers that request and
  takes the next ones.
\<close>

definition virtio_9p_open_cb ::
    "('f, 's) FSDevice \<Rightarrow> p9_unset \<Rightarrow> (nat \<Rightarrow> u8) \<Rightarrow> nat \<Rightarrow> int \<Rightarrow> u16 \<Rightarrow> FSQID \<Rightarrow> int \<Rightarrow> ('f, 's) pvm \<Rightarrow>
     ('f, 's) pvm result option" where
  "virtio_9p_open_cb fs un junk queue_idx desc_idx tag qid err s =
     andDo (p9_open_reply err qid s) (\<lambda>(out, s).
     andDo (p9_end queue_idx desc_idx 12 tag out s) (\<lambda>s.
     let s = vm_opaque_update (p9_req_in_progress_update (\<lambda>_. False)) s in
     queue_notify (virtio_9p_recv_request fs un junk) queue_idx s))"

definition virtio_9p_init :: "'s \<Rightarrow> c_str \<Rightarrow> VIRTIODevice \<times> ('f, 's) VIRTIO9PDevice" where
  "virtio_9p_init st mount_tag =
     (let len = length mount_tag; d = virtio_init 9 (of_nat (2 + len)); d = d\<lparr>v_device_features := push_bit 0 1\<rparr>;
          d = v_config_space_update (\<lambda>p. splice 2 mount_tag (p[0 := of_nat len, 1 := of_nat (len div 256)])) d in
      (d, \<lparr>p9_fs = st, p9_msize = 8192, p9_fid_list = [], p9_req_in_progress = False\<rparr>))"

end
