(* ===== verification/Virtio_Devices.thy ===== *)
theory Virtio_Devices
  imports Virtio_Spec Virtio_Input
begin

text \<open>
  The properties of the devices that the emulator does not connect: the states they reach on either
  transport, and the requests and events on the concrete guest of \<open>Virtio_Spec\<close>.
\<close>

section \<open>Devices in operation\<close>

text \<open>
  The states of a device after its initialisation, accesses of the guest over either bus and
  \<open>events\<close> of the host. In between, the rest of the machine may change anything but the line.
\<close>

inductive io_reach ::
    "'d device_recv \<Rightarrow> ('d vm \<Rightarrow> 'd vm) option \<Rightarrow> ('d vm \<Rightarrow> 'd vm \<Rightarrow> bool) \<Rightarrow> VIRTIODevice \<times> 'd \<Rightarrow> 'd vm \<Rightarrow> bool"
  for device_recv config_write event init where
  start: "\<not> plic_pending_irq e \<Longrightarrow>
    io_reach device_recv config_write event init \<lparr>vm_emu = e, vm_dev = fst init, vm_opaque = snd init\<rparr>"
| mmio: "io_reach device_recv config_write event init s \<Longrightarrow>
    virtio_mmio_write device_recv config_write offset val k s = Some (Inr s') \<Longrightarrow>
    io_reach device_recv config_write event init s'"
| pci: "io_reach device_recv config_write event init s \<Longrightarrow>
    virtio_pci_write device_recv config_write offset val k s = Some (Inr s') \<Longrightarrow>
    io_reach device_recv config_write event init s'"
| pci_read: "io_reach device_recv config_write event init s \<Longrightarrow> virtio_pci_read offset k s = Inr (v, s') \<Longrightarrow>
    io_reach device_recv config_write event init s'"
| event: "io_reach device_recv config_write event init s \<Longrightarrow> event s s' \<Longrightarrow>
    io_reach device_recv config_write event init s'"
| hart: "io_reach device_recv config_write event init s \<Longrightarrow> plic_pending_irq e = plic_pending_irq (vm_emu s) \<Longrightarrow>
    io_reach device_recv config_write event init (s\<lparr>vm_emu := e\<rparr>)"

context queue_device
begin

lemma io_reach_ok:
  assumes "io_reach device_recv config_write event init s" "keeps_config config_write"
    and "mmio_ok (fst init)" "v_int_status (fst init) = 0" "\<And>s s'. event s s' \<Longrightarrow> device_ok s \<Longrightarrow> device_ok s'"
  shows "device_ok s"
  using assms(1)
proof induction
  case (start e)
  then show ?case using assms(3,4) by (simp add: device_ok_def line_ok_def)
next
  case (mmio s offset val k s')
  then show ?case using mmio_write_keeps [OF _ assms(2)] unfolding stays_def by blast
next
  case (pci s offset val k s')
  then show ?case using pci_write_keeps [OF _ assms(2)] unfolding stays_def by blast
next
  case (pci_read s offset k v s')
  then show ?case using pci_read_keeps by blast
next
  case (event s s')
  then show ?case using assms(5) by blast
next
  case (hart s e)
  then show ?case by (simp add: device_ok_def line_ok_def)
qed

end

text \<open>What the host does to each device, when the call returns.\<close>

inductive net_event :: "'e VIRTIONetDevice vm \<Rightarrow> 'e VIRTIONetDevice vm \<Rightarrow> bool" where
  "virtio_net_write_packet buf s = Some (Inr s') \<Longrightarrow> net_event s s'"
| "net_event s (virtio_net_set_carrier carrier_state s)"

inductive console_event :: "'c VIRTIOConsoleDevice vm \<Rightarrow> 'c VIRTIOConsoleDevice vm \<Rightarrow> bool" where
  "virtio_console_write_data buf s = Some (Inr (ret, s')) \<Longrightarrow> console_event s s'"
| "console_event s (virtio_console_resize_event width height s)"

inductive input_event_step :: "ivm \<Rightarrow> ivm \<Rightarrow> bool" where
  "virtio_input_send_key_event down key_code s = Some (Inr (ret, s')) \<Longrightarrow> input_event_step s s'"
| "virtio_input_send_mouse_event dx dy dz buttons s = Some (Inr (ret, s')) \<Longrightarrow> input_event_step s s'"

lemma console_init_ok: "mmio_ok (fst (virtio_console_init cs))" "v_int_status (fst (virtio_console_init cs)) = 0"
proof -
  have d: "mmio_ok (virtio_init 3 4)" by (rule virtio_init_ok) simp_all
  have "mmio_ok (upd_queue 0 (q_manual_recv_update (\<lambda>_. True)) ((virtio_init 3 4)\<lparr>v_device_features := push_bit 0 1\<rparr>))"
    by (rule upd_queue_ok) (use d in \<open>simp_all add: queue_ok_def mmio_ok_def\<close>)
  then show "mmio_ok (fst (virtio_console_init cs))" by (simp add: virtio_console_init_def Let_def)
  show "v_int_status (fst (virtio_console_init cs)) = 0"
    by (simp add: virtio_console_init_def Let_def virtio_init_def virtio_reset_def)
qed

lemma input_init_ok: "mmio_ok (fst (virtio_input_init type))" "v_int_status (fst (virtio_input_init type)) = 0"
proof -
  have d: "mmio_ok (virtio_init 18 256)" by (rule virtio_init_ok) simp_all
  have "mmio_ok (upd_queue 0 (q_manual_recv_update (\<lambda>_. True)) (virtio_init 18 256))"
    by (rule upd_queue_ok) (use d in \<open>simp_all add: queue_ok_def\<close>)
  then show "mmio_ok (fst (virtio_input_init type))" by (simp add: virtio_input_init_def Let_def mmio_ok_def)
  show "v_int_status (fst (virtio_input_init type)) = 0"
    by (simp add: virtio_input_init_def Let_def virtio_init_def virtio_reset_def)
qed

lemma net_event_keeps: "net_event s s' \<Longrightarrow> device_ok s \<Longrightarrow> device_ok s'"
  by (induction rule: net_event.induct) (auto intro: net_write_keeps simp: virtio_net_set_carrier_def)

lemma console_event_keeps: "console_event s s' \<Longrightarrow> device_ok s \<Longrightarrow> device_ok s'"
  by (induction rule: console_event.induct) (auto intro: console_write_keeps console_resize_keeps)

lemma input_event_keeps: "input_event_step s s' \<Longrightarrow> device_ok s \<Longrightarrow> device_ok s'"
  by (erule input_event_step.cases) (use safe_key_event safe_mouse_event in \<open>unfold safe_op_def, blast\<close>)+

section \<open>Any device on the concrete guest\<close>

definition demo_on :: "'d \<Rightarrow> 'd vm" where
  "demo_on opaque = \<lparr>vm_emu = vm_emu demo_vm, vm_dev = demo_dev, vm_opaque = opaque\<rparr>"

lemma demo_on_simps: "memory (vm_emu (demo_on x)) = demo_mem" "vm_dev (demo_on x) = demo_dev" "vm_opaque (demo_on x) = x"
  by (simp_all add: demo_on_def demo_memory)

lemma demo_on_read: "request_ok (demo_on x) 0 0 [demo_desc 0] [demo_desc 1] 0"
  using demo_request_read unfolding request_ok_def demo_on_simps demo_memory .

lemma demo_on_write: "request_ok (demo_on x) 1 2 [demo_desc 2, demo_desc 3] [demo_desc 4] 0"
proof -
  have d: "get_desc demo_dev 1 i demo_mem = get_desc demo_dev 0 i demo_mem" for i
    by (simp add: get_desc_def demo_queues demo_queue_def)
  have "chain demo_dev 1 demo_mem d0 xs" if "chain demo_dev 0 demo_mem d0 xs" for d0 xs
    using that
  proof induction
    case (last d0)
    then show ?case by (intro chain.last) 
  next
    case (link d0 d1 xs)
    then show ?case by (intro chain.link [of _ _ _ _ d1]) (simp_all only: d)
  qed
  moreover have "table_window demo_dev 1 = table_window demo_dev 0"
    by (simp add: table_window_def demo_queues demo_queue_def)
  ultimately show ?thesis
    using demo_request_write unfolding request_ok_def demo_on_simps demo_memory separate_def d Let_def
    by (auto simp: demo_queues demo_queue_def)
qed

lemma demo_on_next: "next_avail 0 (demo_on x) = Inr (Some 0)"
proof -
  have "virtio_read16 0x80400002 demo_mem = Inr 1" "virtio_read16 0x80400004 demo_mem = Inr 0" by code_simp+
  then show ?thesis
    by (simp add: next_avail_def avail_entry_def demo_on_simps demo_queues demo_queue_def)
qed

section \<open>Further facts\<close>

text \<open>
  A request on the output queue of the console hands the character device all the bytes of its buffers in
  order, and the chain goes to the used ring with the interrupt raised.
\<close>

theorem console_output:
  assumes "request_ok s 1 d rs ws index"
  shows "\<exists>s'. virtio_console_recv_request write_data junk 1 (uint d) (chain_len rs) (chain_len ws) s = Some (Inr (0, s')) \<and>
    con_cs (vm_opaque s') = write_data (payload (memory (vm_emu s)) rs) (con_cs (vm_opaque s)) \<and>
    answered s 1 d 0 index ws (payload (memory (vm_emu s)) ws) s'"
  by (rule console_outputs [OF assms])

theorem console_output_witness:
  "\<exists>s'. virtio_console_recv_request (\<lambda>bs out. out @ bs) (\<lambda>_. 0) 1 2 528 1 (demo_on \<lparr>con_cs = [65]\<rparr>) = Some (Inr (0, s')) \<and>
    con_cs (vm_opaque s') = 65 # payload demo_mem [demo_desc 2, demo_desc 3]"
  using console_output [OF demo_on_write, of "\<lambda>bs out. out @ bs" "\<lambda>_. 0" "\<lparr>con_cs = [65]\<rparr>"]
  by (auto simp: demo_buffers demo_on_simps simp del: payload_simps One_nat_def)

text \<open>
  @C: \<^verbatim>\<open>virtio_console_get_write_len\<close> returns the size of the next chain of the input queue; data of at most
  that length is written to the start of it, the chain goes to the used ring with the length, the interrupt
  is raised and the queue advances.
\<close>

theorem console_input:
  assumes "next_avail 0 s = Inr (Some (uint d))" "request_ok s 0 d rs ws index"
  shows "virtio_console_get_write_len s = Some (Inr (chain_len ws)) \<and>
    (int (length buf) \<le> chain_len ws \<longrightarrow>
      (\<exists>s'. virtio_console_write_data buf s = Some (Inr (int (length buf), advance 0 s')) \<and> vm_opaque s' = vm_opaque s \<and>
        answered s 0 d (int (length buf)) index ws (splice 0 buf (payload (memory (vm_emu s)) ws)) s'))"
  using console_inputs [OF assms, of buf] request_sizes [OF assms(2)] assms(1)
  by (auto simp: virtio_console_get_write_len_def)

theorem console_input_witness:
  "virtio_console_get_write_len (demo_on \<lparr>con_cs = ()\<rparr>) = Some (Inr 513) \<and>
   (\<exists>s'. virtio_console_write_data [104, 105] (demo_on \<lparr>con_cs = ()\<rparr>) = Some (Inr (2, advance 0 s')) \<and>
     payload (memory (vm_emu s')) [demo_desc 1] = [104, 105] @ drop 2 (desc_bytes demo_mem (demo_desc 1)))"
proof -
  let ?s = "demo_on \<lparr>con_cs = ()\<rparr>"
  have s: "next_avail 0 ?s = Inr (Some (uint (0 :: u16)))" by (simp add: demo_on_next)
  note input = console_input [OF s demo_on_read, of "[104, 105]"]
  from input have len: "virtio_console_get_write_len ?s = Some (Inr 513)" by (simp add: demo_buffers)
  from input obtain s' where "virtio_console_write_data [104, 105] ?s = Some (Inr (2, advance 0 s'))"
      "payload (memory (vm_emu s')) [demo_desc 1] = splice 0 [104, 105] (payload demo_mem [demo_desc 1])"
    by (auto simp: demo_buffers answered_def Let_def demo_on_simps simp del: payload_simps)
  then show ?thesis using len by (intro conjI exI [of _ s']) (simp_all add: splice_def numeral_2_eq_2)
qed

text \<open>
  An event that finds a buffer is delivered: the first eight bytes of the buffer read back as its type,
  its code and its value at the offsets 0, 2 and 4, the chain goes to the used ring with length 8, the
  interrupt is raised and the queue advances.
\<close>

theorem input_event_roundtrip:
  assumes "next_avail 0 s = Inr (Some (uint d))" "request_ok s 0 d rs ws index" "8 \<le> chain_len ws"
  shows "\<exists>s' bs. virtio_input_queue_event type code val s = Some (Inr (0, advance 0 s')) \<and> vm_opaque s' = vm_opaque s \<and>
    answered s 0 d 8 index ws (bs @ drop 8 (payload (memory (vm_emu s)) ws)) s' \<and> length bs = 8 \<and>
    get_le16 bs 0 = type \<and> get_le16 bs 2 = code \<and> get_le32 bs 4 = val"
  using input_event [OF assms, of type code val] get_event [of type code val] by (auto simp: splice_def)

theorem input_event_roundtrip_witness:
  "\<exists>s' bs. virtio_input_queue_event 1 30 0x12345678 (demo_on (snd (virtio_input_init VIRTIO_INPUT_TYPE_KEYBOARD))) =
      Some (Inr (0, advance 0 s')) \<and> take 8 (desc_bytes (memory (vm_emu s')) (demo_desc 1)) = bs \<and>
    get_le16 bs 2 = 30 \<and> get_le32 bs 4 = 0x12345678"
proof -
  let ?s = "demo_on (snd (virtio_input_init VIRTIO_INPUT_TYPE_KEYBOARD))"
  have "next_avail 0 ?s = Inr (Some (uint (0 :: u16)))" "8 \<le> chain_len [demo_desc 1]"
    by (simp_all add: demo_on_next demo_buffers)
  from input_event_roundtrip [OF this(1) demo_on_read this(2), where type = 1 and code = 30 and val = "0x12345678"]
  obtain s' bs where s': "virtio_input_queue_event 1 30 0x12345678 ?s = Some (Inr (0, advance 0 s'))" "length bs = 8"
      "payload (memory (vm_emu s')) [demo_desc 1] = bs @ drop 8 (payload (memory (vm_emu ?s)) [demo_desc 1])"
      "get_le16 bs 2 = 30" "get_le32 bs 4 = 0x12345678" unfolding answered_def Let_def by blast
  then have "take 8 (desc_bytes (memory (vm_emu s')) (demo_desc 1)) = bs" by simp
  with s' show ?thesis by blast
qed

text \<open>
  A mouse event of a mouse or tablet sends, one after the other and as long as the driver provides
  buffers, the two coordinates, the wheel if it moved, a key event for each button whose state differs from
  the one remembered, in the order of the list, and a synchronisation event; the buttons are
  remembered after the key events have all been sent.
\<close>

theorem mouse_event_sequence:
  assumes "inp_type (vm_opaque s) \<noteq> VIRTIO_INPUT_TYPE_KEYBOARD"
  shows "virtio_input_send_mouse_event dx dy dz buttons s =
    on_success (send_events (movement (inp_type (vm_opaque s)) dx dy dz @
        button_changes (inp_buttons_state (vm_opaque s)) buttons 0 buttons_list) s)
      (\<lambda>t. virtio_input_queue_event VIRTIO_INPUT_EV_SYN 0 0 (set_buttons buttons t))"
  by (rule mouse_event_eq [OF assms])

theorem mouse_event_sequence_witness:
  "virtio_input_send_mouse_event 3 (-1) 0 5 (demo_on \<lparr>inp_type = VIRTIO_INPUT_TYPE_MOUSE, inp_buttons_state = 1\<rparr>) =
    on_success (send_events [(2, 0, 3), (2, 1, 0xFFFFFFFF), (1, 0x112, 1)]
        (demo_on \<lparr>inp_type = VIRTIO_INPUT_TYPE_MOUSE, inp_buttons_state = 1\<rparr>))
      (\<lambda>t. virtio_input_queue_event 0 0 0 (set_buttons 5 t))"
proof -
  let ?s = "demo_on \<lparr>inp_type = VIRTIO_INPUT_TYPE_MOUSE, inp_buttons_state = 1\<rparr>"
  have "button_changes 1 5 0 buttons_list = [(1, 0x112, 1)]" by code_simp
  moreover have "movement VIRTIO_INPUT_TYPE_MOUSE 3 (-1) 0 = [(2, 0, 3), (2, 1, 0xFFFFFFFF)]" by code_simp
  ultimately show ?thesis
    using mouse_event_sequence [of ?s 3 "-1" 0 5] by (simp only: demo_on_simps) simp
qed

text \<open>
  After any query the configuration space keeps its size and, unless the selector is unset or asks for
  axes that the device does not have, the reply announces at most 64 bytes, so that it lies inside the space. To
  the query for keys, a mouse or tablet answers with 64 bytes in which exactly the bits of its three buttons are set.
\<close>

theorem input_queries:
  assumes "length (v_config_space (vm_dev s)) = MAX_CONFIG_SPACE_SIZE"
  shows "length (v_config_space (vm_dev (virtio_input_config_write s))) = MAX_CONFIG_SPACE_SIZE \<and>
    (v_config_space (vm_dev s) ! 0 \<notin> {VIRTIO_INPUT_CFG_UNSET, VIRTIO_INPUT_CFG_ABS_INFO} \<longrightarrow>
      v_config_space (vm_dev (virtio_input_config_write s)) ! 2 \<le> 64) \<and>
    (v_config_space (vm_dev s) ! 0 = VIRTIO_INPUT_CFG_EV_BITS \<and> v_config_space (vm_dev s) ! 1 = 1 \<and>
      inp_type (vm_opaque s) \<noteq> VIRTIO_INPUT_TYPE_KEYBOARD \<longrightarrow>
      v_config_space (vm_dev (virtio_input_config_write s)) ! 2 = 64 \<and>
      (\<forall>k < 512. config_bit k (v_config_space (vm_dev (virtio_input_config_write s))) \<longleftrightarrow> k \<in> {0x110, 0x111, 0x112}))"
  using length_input_config [OF assms] input_reply_bound [OF assms]
    input_button_map [OF assms, of "inp_type (vm_opaque s)"] input_button_map [OF assms, of "inp_type (vm_opaque s)" 0]
  by (auto simp: virtio_input_config_write_def)

theorem input_queries_witness:
  "config_bit 0x111 (v_config_space (vm_dev (virtio_input_config_write
    \<lparr>vm_emu = emu_init (\<lambda>_. 0) 0, vm_dev = v_config_space_update (\<lambda>p. p[0 := 0x11, 1 := 1]) (virtio_init 18 256),
      vm_opaque = \<lparr>inp_type = VIRTIO_INPUT_TYPE_TABLET, inp_buttons_state = 0\<rparr>\<rparr>)))"
proof -
  let ?s = "\<lparr>vm_emu = emu_init (\<lambda>_. 0) 0, vm_dev = v_config_space_update (\<lambda>p. p[0 := 0x11, 1 := 1]) (virtio_init 18 256),
      vm_opaque = \<lparr>inp_type = VIRTIO_INPUT_TYPE_TABLET, inp_buttons_state = 0\<rparr>\<rparr>"
  have "length (v_config_space (vm_dev ?s)) = MAX_CONFIG_SPACE_SIZE"
    by (simp add: virtio_init_def virtio_reset_def virtio_zero_def)
  from input_queries [OF this] show ?thesis
    by (simp add: virtio_init_def virtio_reset_def virtio_zero_def)
qed

section \<open>Properties\<close>



text \<open>
  C19: a request on the transmit queue of the network device hands the back end the bytes of its buffers
  after the header of 12, in order and complete, and the chain goes to the used ring with the interrupt
  raised; the buffers and the rest of RAM are as before.
\<close>

theorem network_transmit:
  assumes "request_ok s 1 d rs ws index" "net_header_size (vm_opaque s) = 12" "12 \<le> chain_len rs"
  shows "\<exists>s'. virtio_net_recv_request write_packet junk 1 (uint d) (chain_len rs) (chain_len ws) s = Some (Inr (0, s')) \<and>
    net_es (vm_opaque s') = write_packet (drop 12 (payload (memory (vm_emu s)) rs)) (net_es (vm_opaque s)) \<and>
    answered s 1 d 0 index ws (payload (memory (vm_emu s)) ws) s'"
  by (rule net_transmits [OF assms])

theorem network_transmit_witness:
  "\<exists>s'. virtio_net_recv_request (#) (\<lambda>_. 0) 1 2 528 1 (demo_on (snd (virtio_net_init [1, 2, 3, 4, 5, 6] []))) =
      Some (Inr (0, s')) \<and>
    net_es (vm_opaque s') = [drop 12 (payload demo_mem [demo_desc 2, demo_desc 3])]"
  using network_transmit [OF demo_on_write, of "snd (virtio_net_init [1, 2, 3, 4, 5, 6] [])" "(#)" "\<lambda>_. 0"]
  by (auto simp: demo_buffers demo_on_simps virtio_net_init_def Let_def simp del: payload_simps One_nat_def)

text \<open>
  C20: the packet \<open>buf\<close> for the driver goes, after a header of 12 zeros, to the start of the next
  chain of the receive queue, and the chain to the used ring with its length; the bytes after it and the
  rest of RAM are as before and the queue has advanced. If it does not fit, nothing at all changes.
\<close>

theorem network_receive:
  assumes "next_avail 0 s = Inr (Some (uint d))" "request_ok s 0 d rs ws index" "net_header_size (vm_opaque s) = 12"
  shows "if 12 + int (length buf) \<le> chain_len ws
    then \<exists>s'. virtio_net_write_packet buf s = Some (Inr (advance 0 s')) \<and> vm_opaque s' = vm_opaque s \<and>
      answered s 0 d (12 + int (length buf)) index ws
        (splice 0 (replicate 12 0 @ buf) (payload (memory (vm_emu s)) ws)) s'
    else virtio_net_write_packet buf s = Some (Inr s)"
  using net_receives [OF assms, of buf] net_drops [of s d rs ws index buf] assms by auto

theorem network_receive_witness:
  "(\<exists>s'. virtio_net_write_packet [1, 2, 3] (demo_on \<lparr>net_es = (), net_header_size = 12\<rparr>) = Some (Inr (advance 0 s')) \<and>
    payload (memory (vm_emu s')) [demo_desc 1] = replicate 12 0 @ [1, 2, 3] @ drop 15 (desc_bytes demo_mem (demo_desc 1))) \<and>
   virtio_net_write_packet (replicate 502 0) (demo_on \<lparr>net_es = (), net_header_size = 12\<rparr>) =
     Some (Inr (demo_on \<lparr>net_es = (), net_header_size = 12\<rparr>))"
proof -
  let ?s = "demo_on \<lparr>net_es = (), net_header_size = 12\<rparr>"
  have s: "next_avail 0 ?s = Inr (Some (uint (0 :: u16)))" "net_header_size (vm_opaque ?s) = 12" "chain_len [demo_desc 1] = 513"
    by (simp_all add: demo_on_next demo_on_simps demo_buffers)
  note packet = network_receive [OF s(1) demo_on_read s(2)]
  have large: "\<not> 12 + int (length (replicate 502 (0 :: u8))) \<le> chain_len [demo_desc 1]" using s(3) by simp
  have small: "12 + int (length [1, 2, 3 :: u8]) \<le> chain_len [demo_desc 1]" using s(3) by simp
  obtain s' where "virtio_net_write_packet [1, 2, 3] ?s = Some (Inr (advance 0 s'))"
      "payload (memory (vm_emu s')) [demo_desc 1] = splice 0 (replicate 12 0 @ [1, 2, 3]) (payload demo_mem [demo_desc 1])"
    using packet [of "[1, 2, 3]", unfolded if_P [OF small]] unfolding answered_def Let_def demo_on_simps by blast
  moreover have "virtio_net_write_packet (replicate 502 0) ?s = Some (Inr ?s)"
    using packet [of "replicate 502 0", unfolded if_not_P [OF large]] .
  moreover have "length (replicate 12 (0 :: u8) @ [1, 2, 3]) = 15" by simp
  ultimately show ?thesis by (intro conjI exI [of _ s']) (simp_all add: splice_def)
qed

text \<open>
  C21: in every state that the network, the console and the input device reach from their initialisation,
  through any accesses of the guest on either bus and any packets, data, resizes and events of the host,
  the registers are well-formed (eight queues of sizes that are powers of two, the selected one among them, a
  configuration space that its size register does not exceed) and the line is up exactly while an interrupt
  is reported.
\<close>

theorem other_devices_invariant:
  assumes "length mac_addr = 6"
  shows "(io_reach (virtio_net_recv_request write_packet junk) None net_event (virtio_net_init mac_addr es) s1 \<longrightarrow>
      device_ok s1) \<and>
    (io_reach (virtio_console_recv_request write_data junk) None console_event (virtio_console_init cs) s2 \<longrightarrow>
      device_ok s2) \<and>
    (io_reach virtio_input_recv_request (Some virtio_input_config_write) input_event_step (virtio_input_init type) s3 \<longrightarrow>
      device_ok s3)"
  using net_bus.io_reach_ok [OF _ keeps_config_None net_init_ok [OF assms] net_event_keeps]
    console_bus.io_reach_ok [OF _ keeps_config_None console_init_ok console_event_keeps]
    input_bus.io_reach_ok [OF _ input_keeps_config input_init_ok input_event_keeps]
  by auto

theorem other_devices_invariant_witness:
  "\<exists>s. io_reach virtio_input_recv_request (Some virtio_input_config_write) input_event_step
      (virtio_input_init VIRTIO_INPUT_TYPE_MOUSE) s \<and> v_queue_sel (vm_dev s) = 3 \<and> device_ok s"
proof -
  let ?i = "virtio_input_init VIRTIO_INPUT_TYPE_MOUSE"
  let ?start = "\<lparr>vm_emu = emu_init demo_mem 0, vm_dev = fst ?i, vm_opaque = snd ?i\<rparr>"
  let ?s = "?start\<lparr>vm_dev := (vm_dev ?start)\<lparr>v_queue_sel := 3\<rparr>\<rparr>"
  have "io_reach virtio_input_recv_request (Some virtio_input_config_write) input_event_step ?i ?start"
    by (rule io_reach.start) (simp add: emu_init_def)
  moreover have step: "virtio_pci_write virtio_input_recv_request (Some virtio_input_config_write) 0x16 3 1 ?start = Some (Inr ?s)"
    by (simp add: virtio_pci_write_def)
  ultimately have reach: "io_reach virtio_input_recv_request (Some virtio_input_config_write) input_event_step ?i ?s"
    by (rule io_reach.pci)
  moreover have "device_ok ?s" using other_devices_invariant [of "[1, 2, 3, 4, 5, 6]", THEN conjunct2, THEN conjunct2] reach by force
  ultimately show ?thesis by (intro exI [of _ ?s]) simp
qed

end
