(* ===== verification/P9_Rules.thy ===== *)
theory P9_Rules
  imports Virtio_9P Virtio_Devices
begin

text \<open>
  Rules to reason about the requests of the 9P device, the contracts of the device, and the table of files
  as a map.
\<close>

section \<open>The table of files is a map\<close>

definition fid_map :: "('f, 's) VIRTIO9PDevice \<Rightarrow> u32 \<Rightarrow> 'f option" where
  "fid_map s = map_of (p9_fid_list s)"

definition fids_ok :: "('f, 's) VIRTIO9PDevice \<Rightarrow> bool" where
  "fids_ok s \<longleftrightarrow> distinct (map fst (p9_fid_list s))"

lemma find_fid: "(case find (\<lambda>f. fst f = k) xs of None \<Rightarrow> None | Some f \<Rightarrow> Some (snd f)) = map_of xs k"
  by (induction xs) auto

lemma fid_find_map: "fid_find fid s = fid_map s fid"
  by (simp add: fid_find_def fid_find1_def fid_map_def find_fid)

lemma fid_find1_map:
  "fid_find1 fid s = None \<longleftrightarrow> fid_map s fid = None" "fid_find1 fid s = Some f \<Longrightarrow> fid_map s fid = Some (snd f)"
  by (simp_all add: fid_find_map [symmetric] fid_find_def split: option.split)

lemma map_of_put: "map_of xs fid \<noteq> None \<Longrightarrow> map_of (fid_list_put fid fd xs) = (map_of xs)(fid \<mapsto> fd)"
  by (induction xs) auto

lemma fst_put: "map fst (fid_list_put fid fd xs) = map fst xs"
  by (induction xs) auto

lemma set_del: "set (fid_list_del fid xs) \<subseteq> set xs"
  by (induction xs) auto

lemma map_of_del: "distinct (map fst xs) \<Longrightarrow> map_of (fid_list_del fid xs) = (map_of xs)(fid := None)"
  by (induction xs) (auto simp: fun_eq_iff map_of_eq_None_iff)

lemma fids_del: "distinct (map fst xs) \<Longrightarrow> distinct (map fst (fid_list_del fid xs))"
proof (induction xs)
  case (Cons f xs)
  then show ?case using set_del [of fid xs] by auto
qed simp

lemma fid_set_map: "fid_map (fid_set fs fid fd s) = (fid_map s)(fid \<mapsto> fd)"
  using fid_find1_map [of fid s]
  by (auto simp: fid_set_def map_of_put fid_map_def split: option.split)

lemma fid_set_ok: "fids_ok s \<Longrightarrow> fids_ok (fid_set fs fid fd s)"
  using fid_find1_map(1) [of fid s]
  by (auto simp: fid_set_def fids_ok_def fst_put fid_map_def map_of_eq_None_iff split: option.split)

lemma fid_delete_map: "fids_ok s \<Longrightarrow> fid_map (fid_delete fs fid s) = (fid_map s)(fid := None)"
  using fid_find1_map(1) [of fid s]
  by (auto simp: fid_delete_def map_of_del fid_map_def fids_ok_def fun_eq_iff split: option.split)

lemma fid_delete_ok: "fids_ok s \<Longrightarrow> fids_ok (fid_delete fs fid s)"
  by (auto simp: fid_delete_def fids_ok_def fids_del split: option.split)

lemma fid_frame [simp]:
  "p9_req_in_progress (fid_set fs fid fd s) = p9_req_in_progress s"
  "p9_req_in_progress (fid_delete fs fid s) = p9_req_in_progress s"
  "p9_msize (fid_set fs fid fd s) = p9_msize s" "p9_msize (fid_delete fs fid s) = p9_msize s"
  by (simp_all add: fid_set_def fid_delete_def split: option.split)

lemma fid_release:
  "p9_fs (fid_set fs fid fd s) = (case fid_map s fid of None \<Rightarrow> p9_fs s | Some f \<Rightarrow> fs_delete fs f (p9_fs s))"
  "p9_fs (fid_delete fs fid s) = (case fid_map s fid of None \<Rightarrow> p9_fs s | Some f \<Rightarrow> fs_delete fs f (p9_fs s))"
  using fid_find1_map [of fid s] by (simp_all add: fid_set_def fid_delete_def split: option.split)

section \<open>Rules\<close>

text \<open>
  \<open>wp t Q r\<close>: what the service \<open>r\<close> of a request ends with satisfies \<open>Q\<close>; with \<open>t\<close>, it does end, and
  nothing aborts.
\<close>

definition wp :: "bool \<Rightarrow> (p9_outcome \<Rightarrow> ('f, 's) pvm \<Rightarrow> bool) \<Rightarrow> ('f, 's) served \<Rightarrow> bool" where
  "wp t Q r \<longleftrightarrow> (case r of Some (Inr (out, s)) \<Rightarrow> Q out s | _ \<Rightarrow> \<not> t)"

lemma wp_partial: "wp False Q r \<longleftrightarrow> (\<forall>out s. r = Some (Inr (out, s)) \<longrightarrow> Q out s)"
  by (auto simp: wp_def split: option.split sum.split)

lemma wp_total: "wp True Q r \<longleftrightarrow> (\<exists>out s. r = Some (Inr (out, s)) \<and> Q out s)"
  by (auto simp: wp_def split: option.split sum.split)

named_theorems p9_wp \<open>rules for the parts of a request\<close>

lemma wp_served [p9_wp]: "Q out s \<Longrightarrow> wp t Q (served out s)"
  by (simp add: wp_def served_def)

lemma wp_if [p9_wp]: "(c \<Longrightarrow> wp t Q a) \<Longrightarrow> (\<not> c \<Longrightarrow> wp t Q b) \<Longrightarrow> wp t Q (if c then a else b)"
  by simp

lemma wp_prod [p9_wp]: "(\<And>a b. r = (a, b) \<Longrightarrow> wp t Q (k a b s)) \<Longrightarrow> wp t Q ((case r of (a, b) \<Rightarrow> k a b) s)"
  by (cases r) simp

text \<open>The arguments fit the buffer.\<close>

definition fits :: "int \<Rightarrow> p9_arg list \<Rightarrow> bool" where
  "fits n ap \<longleftrightarrow> int (length (concat (map arg_bytes ap))) \<le> n \<and> (\<forall>a \<in> set ap. \<not> too_long a)"

lemma wp_marshall [p9_wp]:
  assumes "t \<Longrightarrow> fits n ap"
    and "\<And>buf. buf = concat (map arg_bytes ap) \<Longrightarrow> int (length buf) \<le> max 0 n \<Longrightarrow> wp t Q (k buf)"
  shows "wp t Q (andDo (Some (marshall n ap)) k)"
proof (cases "marshall n ap")
  case (Inl h)
  then have "\<not> t" using assms(1) marshall_fits [of ap n] by (auto simp: fits_def)
  then show ?thesis by (simp add: wp_def Inl)
next
  case (Inr buf)
  then show ?thesis using assms(2) marshall_bytes [OF Inr] marshall_bound [OF Inr] by simp
qed

lemma wp_replies [p9_wp]:
  assumes "t \<Longrightarrow> fits n ap"
    and "\<And>buf. buf = concat (map arg_bytes ap) \<Longrightarrow> int (length buf) \<le> max 0 n \<Longrightarrow> Q (Reply buf) s"
  shows "wp t Q (replies n ap s)"
  unfolding replies_def using assms by (intro wp_marshall wp_served)

lemma wp_arguments [p9_wp]:
  assumes "t \<Longrightarrow> \<exists>r. unmarshall junk queue_idx desc_idx s fmt offset = Some (Inr r)" "Q protocol_error s"
    and "\<And>offset' ap. unmarshall junk queue_idx desc_idx s fmt offset = found (offset', ap) \<Longrightarrow> wp t Q (k offset' ap)"
  shows "wp t Q (arguments junk queue_idx desc_idx fmt offset k s)"
  using assms unfolding arguments_def andDo_def
  by (auto simp: wp_def served_def split: option.split sum.split)

lemma wp_get [p9_wp]:
  assumes "t \<Longrightarrow> \<exists>r. g = Some (Inr r)" "Q protocol_error s" "\<And>buf. g = found buf \<Longrightarrow> wp t Q (k buf)"
  shows "wp t Q (andDo g (\<lambda>r. case r of None \<Rightarrow> served protocol_error s | Some buf \<Rightarrow> k buf))"
  using assms unfolding andDo_def by (auto simp: wp_def served_def split: option.split sum.split)

lemma wp_file_of [p9_wp]:
  assumes "Q protocol_error s" "\<And>f. fid_map (vm_opaque s) (get_w a) = Some f \<Longrightarrow> wp t Q (k f)"
  shows "wp t Q (file_of a k s)"
  using assms by (auto simp: file_of_def fid_find_map wp_served split: option.split)

lemma wp_on_fs [p9_wp]:
  assumes "\<And>r st. operation (p9_fs (vm_opaque s)) = (r, st) \<Longrightarrow> wp t Q (k r (with_fs st s))"
  shows "wp t Q (on_fs operation k s)"
  using assms by (auto simp: on_fs_def split: prod.split)

lemma wp_unless_error [p9_wp]:
  assumes "err \<noteq> 0 \<Longrightarrow> Q (Error err) s" "err = 0 \<Longrightarrow> wp t Q k"
  shows "wp t Q (unless_error err k s)"
  using assms by (simp add: unless_error_def wp_served)

lemma wp_data_reply [p9_wp]:
  assumes "n < 0 \<Longrightarrow> Q (Error n) s" "0 \<le> n \<Longrightarrow> Q (Reply (le32 (of_int n) @ take (nat n) buf)) s"
  shows "wp t Q (data_reply n buf s)"
  using assms by (simp add: data_reply_def wp_served)

lemma wp_open_reply [p9_wp]:
  assumes "\<And>err. Q (Error err) s" "\<And>buf. length buf \<le> 32 \<Longrightarrow> Q (Reply buf) s"
  shows "wp t Q (p9_open_reply err qid s)"
  unfolding p9_open_reply_def
  by (intro wp_if wp_served wp_replies assms) (simp_all add: fits_def too_long_def)

lemmas p9_requests = p9_statfs_def p9_lopen_def p9_lcreate_def p9_symlink_def p9_mknod_def p9_readlink_def
  p9_getattr_def p9_setattr_def p9_xattrwalk_def p9_readdir_def p9_fsync_def p9_lock_def p9_getlock_def p9_link_def
  p9_mkdir_def p9_renameat_def p9_unlinkat_def p9_version_def p9_attach_def p9_flush_def p9_walk_def p9_read_def
  p9_write_def p9_clunk_def

section \<open>What a request leaves alone\<close>

definition p9_kept :: "('f, 's) pvm \<Rightarrow> p9_outcome \<Rightarrow> ('f, 's) pvm \<Rightarrow> bool" where
  "p9_kept s out s' \<longleftrightarrow> vm_emu s' = vm_emu s \<and> vm_dev s' = vm_dev s \<and>
     (fids_ok (vm_opaque s) \<longrightarrow> fids_ok (vm_opaque s')) \<and>
     (p9_req_in_progress (vm_opaque s') \<longleftrightarrow> p9_req_in_progress (vm_opaque s) \<or> out = Pending)"

lemma with_fs_simps [simp]:
  "vm_emu (with_fs st s) = vm_emu s" "vm_dev (with_fs st s) = vm_dev s"
  "vm_opaque (with_fs st s) = (vm_opaque s)\<lparr>p9_fs := st\<rparr>"
  by (simp_all add: with_fs_def)

lemma fids_ok_simps [simp]:
  "fids_ok (s\<lparr>p9_fs := st\<rparr>) = fids_ok s" "fids_ok (p9_msize_update g s) = fids_ok s"
  "fids_ok (p9_req_in_progress_update h s) = fids_ok s"
  by (simp_all add: fids_ok_def)

lemma serve_kept:
  "wp False (p9_kept s) (p9_serve fs un (queue_get junk queue_idx desc_idx s) (arguments junk queue_idx desc_idx) oid offset s)"
  unfolding p9_serve_def p9_requests Let_def
  by (intro p9_wp; simp add: p9_kept_def fid_set_ok fid_delete_ok)

section \<open>The state behind the registers\<close>

text \<open>A device that keeps a property of its own state, busy or not.\<close>

locale opaque_device = queue_device device_recv for device_recv :: "'d device_recv" +
  fixes I :: "'d \<Rightarrow> bool"
  assumes recv_opaque: "device_recv queue_idx d r w s = Some (Inr (ret, s')) \<Longrightarrow> I (vm_opaque s) \<Longrightarrow> I (vm_opaque s')"
begin

abbreviation keeps :: "'d vm result option \<Rightarrow> bool" where "keeps \<equiv> stays (\<lambda>s. I (vm_opaque s))"

lemma notify_opaque:
  assumes "device_ok s" "I (vm_opaque s)" "i < MAX_QUEUE"
  shows "keeps (queue_notify device_recv i s)"
proof -
  have "I (vm_opaque s')" if "notify_loop device_recv i a s = Some (Inr s')" for a s'
  proof -
    have "i < length (v_queue (vm_dev s))" using assms by (simp add: device_ok_def mmio_ok_def)
    from loop_runs [OF this that] obtain t where t: "(serves device_recv i)\<^sup>*\<^sup>* s t"
        "s' = t \<or> (\<exists>d r w ret. device_recv i d r w t = Some (Inr (ret, s')) \<and> ret < 0)" by blast
    from t(1) have "I (vm_opaque t)"
      by induction (auto intro: assms(2) recv_opaque elim!: serves.cases)
    then show ?thesis using t(2) recv_opaque by blast
  qed
  then show ?thesis using assms(2) by (auto simp: queue_notify_def Let_def stays_def split: sum.splits if_splits)
qed

lemma write_opaque:
  assumes "device_ok s" "I (vm_opaque s)"
  shows "keeps (virtio_mmio_write device_recv None offset val k s)" "keeps (virtio_pci_write device_recv None offset val k s)"
proof -
  have lt: "unat val < MAX_QUEUE" if "val < of_nat MAX_QUEUE" using that by (simp add: word_less_nat_alt)
  show "keeps (virtio_mmio_write device_recv None offset val k s)"
    unfolding virtio_mmio_write_def Let_def
    by (intro stays_if; (unfold stays_state)?; simp add: assms(2) notify_opaque [OF assms] lt virtio_config_write_def Let_def)
  show "keeps (virtio_pci_write device_recv None offset val k s)"
    unfolding virtio_pci_write_def Let_def
    by (intro stays_if; (unfold stays_state)?; simp add: assms(2) notify_opaque [OF assms] lt virtio_config_write_def Let_def)
qed

lemma io_reach_opaque:
  assumes "io_reach device_recv None event init s" "mmio_ok (fst init)" "v_int_status (fst init) = 0" "I (snd init)"
    and "\<And>s s'. event s s' \<Longrightarrow> device_ok s \<Longrightarrow> device_ok s'"
    and "\<And>s s'. event s s' \<Longrightarrow> device_ok s \<Longrightarrow> I (vm_opaque s) \<Longrightarrow> I (vm_opaque s')"
  shows "device_ok s \<and> I (vm_opaque s)"
proof -
  have ok: "device_ok s" if "io_reach device_recv None event init s" for s
    using io_reach_ok [OF that keeps_config_None assms(2,3,5)] .
  from assms(1) have "I (vm_opaque s)"
  proof induction
    case (mmio s offset val k s')
    then show ?case using write_opaque(1) [OF ok] unfolding stays_def by blast
  next
    case (pci s offset val k s')
    then show ?case using write_opaque(2) [OF ok] unfolding stays_def by blast
  next
    case (pci_read s offset k v s')
    then show ?case by (auto simp: virtio_pci_read_def Let_def andThen_Inr_iff split: if_splits)
  next
    case (event s s')
    then show ?case using assms(6) ok by blast
  qed (simp_all add: assms(4))
  then show ?thesis using ok assms(1) by blast
qed

end

section \<open>The contracts of the device\<close>

text \<open>The end of a request answers it, or leaves everything as it is.\<close>

lemma answer_replies:
  "answer queue_idx desc_idx buf len s = Some (Inr s') \<Longrightarrow> replied s s' \<and> vm_opaque s' = vm_opaque s"
  using answer_replied by blast

lemma p9_end_cases:
  assumes "p9_end queue_idx desc_idx oid tag out s = Some (Inr s')"
  obtains (answer) "out \<noteq> Pending" "replied s s'" "vm_opaque s' = vm_opaque s" | (pending) "out = Pending" "s' = s"
  using assms that
  by (auto simp: p9_end_def virtio_9p_send_reply_def virtio_9p_send_error_def andDo_Inr_iff simp del: marshall.simps
      dest!: answer_replies split: p9_outcome.splits)

definition p9_progress :: "('f, 's) pvm \<Rightarrow> ('f, 's) pvm \<Rightarrow> bool" where
  "p9_progress s s' \<longleftrightarrow> (vm_emu s' = vm_emu s \<and> vm_dev s' = vm_dev s \<or> replied s s') \<and>
     (fids_ok (vm_opaque s) \<longrightarrow> fids_ok (vm_opaque s'))"

lemma replied_after: "vm_emu s1 = vm_emu s \<Longrightarrow> vm_dev s1 = vm_dev s \<Longrightarrow> replied s1 s' \<Longrightarrow> replied s s'"
  by (simp add: replied_def)

lemma p9_end_progress:
  assumes "p9_kept s out s1" "p9_end queue_idx desc_idx oid tag out s1 = Some (Inr s')"
  shows "p9_progress s s'"
  using assms(2)
proof (cases rule: p9_end_cases)
  case answer
  have "replied s s'" by (rule replied_after [OF _ _ answer(2)]) (use assms(1) in \<open>simp_all add: p9_kept_def\<close>)
  then show ?thesis using assms(1) answer(3) by (simp add: p9_progress_def p9_kept_def)
next
  case pending
  then show ?thesis using assms(1) by (simp add: p9_progress_def p9_kept_def)
qed

lemma p9_request_progress:
  assumes "p9_request fs un junk queue_idx d s = Some (Inr s')"
  shows "p9_progress s s'"
proof -
  obtain header where header: "(case header of
        None \<Rightarrow> p9_end queue_idx d 0 0 protocol_error s
      | Some buf \<Rightarrow>
          andDo (p9_serve fs un (queue_get junk queue_idx d s) (arguments junk queue_idx d) (buf ! 4) (4 + 1 + 2) s)
            (\<lambda>(out, s). p9_end queue_idx d (buf ! 4) (get_le16 buf 5) out s)) = Some (Inr s')"
    using assms unfolding p9_request_def andDo_Inr_iff by blast
  show ?thesis
  proof (cases header)
    case None
    have "p9_kept s protocol_error s" by (simp add: p9_kept_def)
    moreover have "p9_end queue_idx d 0 0 protocol_error s = Some (Inr s')"
      using header unfolding None option.case .
    ultimately show ?thesis by (rule p9_end_progress)
  next
    case (Some buf)
    obtain out s1 where
        "p9_serve fs un (queue_get junk queue_idx d s) (arguments junk queue_idx d) (buf ! 4) (4 + 1 + 2) s =
          Some (Inr (out, s1))"
      and finish: "p9_end queue_idx d (buf ! 4) (get_le16 buf 5) out s1 = Some (Inr s')"
      using header unfolding Some option.case andDo_Inr_iff by auto
    then have "p9_kept s out s1"
      using serve_kept [of s fs un junk queue_idx d "buf ! 4" "4 + 1 + 2"] unfolding wp_partial by blast
    then show ?thesis using finish by (rule p9_end_progress)
  qed
qed

lemma p9_recv_progress:
  assumes "virtio_9p_recv_request fs un junk queue_idx d r w s = Some (Inr (ret, s'))"
  shows "p9_progress s s'"
proof -
  have "p9_progress s s" by (simp add: p9_progress_def)
  then show ?thesis
    using assms p9_request_progress by (auto simp: virtio_9p_recv_request_def andDo_Inr_iff split: if_splits)
qed

interpretation p9_bus: bus_device "virtio_9p_recv_request fs un junk" for fs un junk
  by (rule bus_deviceI) (use p9_recv_progress in \<open>unfold p9_progress_def, blast\<close>)

interpretation p9_fids: opaque_device "virtio_9p_recv_request fs un junk" fids_ok for fs un junk
  by unfold_locales (use p9_recv_progress in \<open>unfold p9_progress_def, blast\<close>)

text \<open>What the host does: complete an open.\<close>

inductive p9_event :: "('f, 's) FSDevice \<Rightarrow> p9_unset \<Rightarrow> ('f, 's) pvm \<Rightarrow> ('f, 's) pvm \<Rightarrow> bool" for fs un where
  "virtio_9p_open_cb fs un junk 0 desc_idx tag qid err s = Some (Inr s') \<Longrightarrow> p9_event fs un s s'"

lemma p9_event_keeps:
  assumes "p9_event fs un s s'" "device_ok s"
  shows "device_ok s'" "fids_ok (vm_opaque s) \<Longrightarrow> fids_ok (vm_opaque s')"
proof -
  from assms(1) obtain junk desc_idx tag qid err where
    cb: "virtio_9p_open_cb fs un junk 0 desc_idx tag qid err s = Some (Inr s')" by cases
  let ?free = "vm_opaque_update (p9_req_in_progress_update (\<lambda>_. False)) :: _ \<Rightarrow> ('a, 'b) pvm"
  obtain out s1 s2 where s1: "p9_open_reply err qid s = Some (Inr (out, s1))"
      "p9_end 0 desc_idx 12 tag out s1 = Some (Inr s2)"
      "queue_notify (virtio_9p_recv_request fs un junk) 0 (?free s2) = Some (Inr s')"
    using cb by (auto simp: virtio_9p_open_cb_def andDo_Inr_iff)
  have "s1 = s" using s1(1) wp_open_reply [of "\<lambda>_ t. t = s" s False err qid] unfolding wp_partial by blast
  with s1(2) have s2: "device_ok s2 \<and> vm_opaque s2 = vm_opaque s"
    by (cases rule: p9_end_cases) (use assms(2) in \<open>auto intro: replied_ok\<close>)
  then have ok: "device_ok (?free s2)" by (simp add: device_ok_def line_ok_def)
  show "device_ok s'" using p9_bus.notify_keeps [OF ok, of 0 fs un junk] s1(3) by (simp add: stays_def)
  show "fids_ok (vm_opaque s')" if "fids_ok (vm_opaque s)"
    using p9_fids.notify_opaque [OF ok, of 0 fs un junk] s1(3) s2 that by (simp add: stays_def)
qed

lemma p9_init_ok:
  assumes "0 \<notin> set mount_tag" "2 \<le> length mount_tag" "length mount_tag \<le> 254"
  shows "mmio_ok (fst (virtio_9p_init st mount_tag))" "v_int_status (fst (virtio_9p_init st mount_tag)) = 0"
proof -
  have n: "unat (of_nat (2 + length mount_tag) :: u32) = 2 + length mount_tag"
    unfolding unsigned_of_nat of_nat_id by (rule take_bit_nat_eq_self) (use assms(3) in simp)
  have "mmio_ok (virtio_init 9 (of_nat (2 + length mount_tag)))"
    by (rule virtio_init_ok) (use assms n in \<open>simp_all add: word_less_nat_alt word_le_nat_alt del: of_nat_add\<close>)
  then show "mmio_ok (fst (virtio_9p_init st mount_tag))"
    using assms(3) by (simp add: mmio_ok_def virtio_9p_init_def Let_def length_splice del: of_nat_add)
  show "v_int_status (fst (virtio_9p_init st mount_tag)) = 0"
    by (simp add: virtio_9p_init_def Let_def virtio_init_def virtio_reset_def)
qed

end
