(* ===== verification/P9_Spec.thy ===== *)
theory P9_Spec
  imports P9_Rules
begin

text \<open>
  What the 9P device promises: every well-formed request it takes is answered, and how; and a concrete
  request, a read of four bytes, in a guest memory of its own.
\<close>

section \<open>The message in a request\<close>

abbreviation message :: "'d vm \<Rightarrow> VIRTIODesc list \<Rightarrow> u8 list" where
  "message s rs \<equiv> payload (memory (vm_emu s)) rs"

lemma chain_len_message: "chain_len rs = int (length (message s rs))"
  by (simp add: length_payload)

lemma unmarshall_ok:
  assumes "request_ok s queue_idx d rs ws index" "0 \<le> offset" "offset \<le> chain_len rs" "readable fmt"
  shows "unmarshall junk queue_idx (uint d) s fmt offset =
    Some (Inr (positioned (length (message s rs)) (parse fmt (drop (nat offset) (message s rs)))))"
  using unmarshall_parse [OF assms(1) _ assms(4), of "nat offset" junk] assms(2,3)
  by (simp add: chain_len_message [of rs s])


lemma arguments_ok:
  assumes "request_ok s queue_idx d rs ws index" "7 \<le> chain_len rs" "readable fmt"
  shows "arguments junk queue_idx (uint d) fmt 7 k s =
    (case parse fmt (drop 7 (message s rs)) of
       None \<Rightarrow> served protocol_error s
     | Some (ap, rest) \<Rightarrow> k (int (length (message s rs) - length rest)) ap)"
  using unmarshall_ok [OF assms(1) _ assms(2,3), of junk]
  by (auto simp: arguments_def positioned_def split: option.split)



lemma header_ok:
  assumes "request_ok s queue_idx d rs ws index"
  shows "queue_get junk queue_idx (uint d) s 0 (4 + 1 + 2) =
    Some (Inr (if 7 \<le> chain_len rs then Some (take 7 (message s rs)) else None))"
  using queue_get_parse [OF assms, of 0 7 junk] by (simp add: split_at_def chain_len_message [of rs s])

section \<open>Every request is answered\<close>


lemma fits_simps [simp]:
  "fits n [] \<longleftrightarrow> 0 \<le> n" "fits n (a # ap) \<longleftrightarrow> \<not> too_long a \<and> fits (n - int (length (arg_bytes a))) ap"
  by (auto simp: fits_def)

lemma too_long_simps [simp]:
  "\<not> too_long (arg_b b)" "\<not> too_long (arg_h h)" "\<not> too_long (arg_w w)" "\<not> too_long (arg_d d)" "\<not> too_long (arg_Q q)"
  "too_long (arg_s str) \<longleftrightarrow> 65535 < length (c_string str)"
  by (simp_all add: too_long_def)


lemma readable_formats:
  "readable ''ww''" "readable ''wswww''" "readable ''wssw''" "readable ''wswwww''" "readable ''w''" "readable ''wd''"
  "readable ''wwwwwddddd''" "readable ''wdw''" "readable ''wbwddws''" "readable ''wbddws''" "readable ''wws''"
  "readable ''wsww''" "readable ''wsws''" "readable ''wsw''" "readable ''ws''" "readable ''wwssw''" "readable ''h''"
  "readable ''wwh''"
  by (simp_all add: readable_def)







text \<open>The reply to the request \<open>oid\<close>, \<open>tag\<close>, and its length.\<close>

definition outcome_message :: "u8 \<Rightarrow> u16 \<Rightarrow> p9_outcome \<Rightarrow> u8 list" where
  "outcome_message oid tag out =
     (case out of Reply buf \<Rightarrow> reply_message oid tag buf | Error err \<Rightarrow> reply_message 6 tag (le32 (- of_int err))
      | Pending \<Rightarrow> [])"

lemma length_reply_message: "length (reply_message oid tag buf) = length buf + 7"
  by (simp add: reply_message_def)

lemma p9_end_eq:
  "p9_end queue_idx desc_idx oid tag out s =
     (if out = Pending then Some (Inr s)
      else answer queue_idx desc_idx (outcome_message oid tag out) (int (length (outcome_message oid tag out))) s)"
proof (cases out)
  case (Error err)
  have "marshall 4 [arg_w (- of_int err)] = Inr (le32 (- of_int err))"
    using marshall_fits [of "[arg_w (- of_int err)]" 4] by simp
  then show ?thesis
    by (simp add: Error p9_end_def virtio_9p_send_error_def virtio_9p_send_reply_def outcome_message_def
        length_reply_message)
qed (simp_all add: p9_end_def virtio_9p_send_reply_def outcome_message_def length_reply_message add.commute)

lemma same_machine:
  assumes "vm_emu s1 = vm_emu s" "vm_dev s1 = vm_dev s"
  shows "request_ok s1 = request_ok s" "answered s1 = answered s"
  using assms by (intro ext; simp only: request_ok_def answered_def)+

text \<open>The end of a request that finds room for the reply.\<close>

lemma p9_end_answers:
  assumes "request_ok s queue_idx d rs ws index" "p9_kept s out s1" "out \<noteq> Pending"
    and "int (length (outcome_message oid tag out)) \<le> chain_len ws"
  shows "\<exists>s'. p9_end queue_idx (uint d) oid tag out s1 = Some (Inr s') \<and> vm_opaque s' = vm_opaque s1 \<and>
    answered s queue_idx d (int (length (outcome_message oid tag out))) index ws
      (splice 0 (outcome_message oid tag out) (message s ws)) s'"
proof -
  have s1: "vm_emu s1 = vm_emu s" "vm_dev s1 = vm_dev s" using assms(2) by (simp_all add: p9_kept_def)
  have "request_ok s1 queue_idx d rs ws index" using assms(1) by (simp add: same_machine [OF s1])
  from answer_ok [OF this, of "int (length (outcome_message oid tag out))" "outcome_message oid tag out"] assms(3,4)
  show ?thesis by (simp add: p9_end_eq same_machine [OF s1] s1)
qed

text \<open>A request of which the service is known.\<close>

abbreviation p9_served :: "('f, 's) FSDevice \<Rightarrow> p9_unset \<Rightarrow> (nat \<Rightarrow> u8) \<Rightarrow> u16 \<Rightarrow> VIRTIODesc list \<Rightarrow> ('f, 's) pvm \<Rightarrow>
    ('f, 's) served" where
  "p9_served fs un junk d rs s \<equiv>
     p9_serve fs un (queue_get junk 0 (uint d) s) (arguments junk 0 (uint d)) (message s rs ! 4) (4 + 1 + 2) s"

lemma recv_served:
  assumes "request_ok s 0 d rs ws index" "\<not> p9_req_in_progress (vm_opaque s)" "7 \<le> chain_len rs"
  shows "virtio_9p_recv_request fs un junk 0 (uint d) r w s =
    andDo (p9_served fs un junk d rs s) (\<lambda>(out, s1).
    andDo (p9_end 0 (uint d) (message s rs ! 4) (get_le16 (message s rs) 5) out s1) (\<lambda>s'. Some (Inr (0, s'))))"
proof -
  have len: "7 \<le> length (message s rs)" using assms(3) chain_len_message [of rs s] by simp
  then have "take 7 (message s rs) ! 4 = message s rs ! 4" "get_le16 (take 7 (message s rs)) 5 = get_le16 (message s rs) 5"
    by (simp_all add: get_le16_def)
  then show ?thesis
    using assms(2,3) header_ok [OF assms(1), of junk]
    by (simp add: virtio_9p_recv_request_def p9_request_def andDo_def split: option.split sum.split)
qed

lemma recv_answers:
  assumes "request_ok s 0 d rs ws index" "\<not> p9_req_in_progress (vm_opaque s)" "7 \<le> chain_len rs"
    and "p9_served fs un junk d rs s = Some (Inr (out, s1))" "out \<noteq> Pending"
    and "out_msg = outcome_message (message s rs ! 4) (get_le16 (message s rs) 5) out"
    and "int (length out_msg) \<le> chain_len ws"
  shows "\<exists>s'. virtio_9p_recv_request fs un junk 0 (uint d) r w s = Some (Inr (0, s')) \<and> vm_opaque s' = vm_opaque s1 \<and>
    answered s 0 d (int (length out_msg)) index ws (splice 0 out_msg (message s ws)) s'"
proof -
  have kept: "p9_kept s out s1"
    using serve_kept [of s fs un junk 0 "uint d" "message s rs ! 4" "4 + 1 + 2"] assms(4) unfolding wp_partial by blast
  obtain s' where "p9_end 0 (uint d) (message s rs ! 4) (get_le16 (message s rs) 5) out s1 = Some (Inr s')"
      "vm_opaque s' = vm_opaque s1"
      "answered s 0 d (int (length out_msg)) index ws (splice 0 out_msg (message s ws)) s'"
    using p9_end_answers [OF assms(1) kept assms(5), of "message s rs ! 4" "get_le16 (message s rs) 5"] assms(6,7) by auto
  then show ?thesis using recv_served [OF assms(1-3), of fs un junk r w] assms(4) by simp
qed



text \<open>Only three requests change the table of files.\<close>

lemma serve_table:
  assumes "oid \<notin> {104, 110, 120}"
  shows "wp False (\<lambda>out s'. fid_map (vm_opaque s') = fid_map (vm_opaque s))
    (p9_serve fs un get (arguments junk queue_idx desc_idx) oid offset s)"
proof -
  have "fid_map (t\<lparr>p9_fs := st\<rparr>) = fid_map t" "fid_map (p9_msize_update g t) = fid_map t"
    "fid_map (p9_req_in_progress_update h t) = fid_map t" for t :: "('a, 'b) VIRTIO9PDevice" and st g h
    by (simp_all add: fid_map_def)
  then show ?thesis
    using assms unfolding p9_serve_def p9_requests Let_def by (intro p9_wp; simp)
qed

section \<open>Malformed requests\<close>







section \<open>A read request\<close>

lemma parse_read:
  "parse ''wdw'' (le32 fid @ le64 offs @ le32 count @ rest) = Some ([arg_w fid, arg_d offs, arg_w count], rest)"
  using parse_marshall [of 16 "[arg_w fid, arg_d offs, arg_w count]" "le32 fid @ le64 offs @ le32 count" rest]
    marshall_fits [of "[arg_w fid, arg_d offs, arg_w count]" 16]
  by (simp add: plain_arg_def arg_letter_def)

text \<open>The message \<^verbatim>\<open>size[4] Tread tag[2] fid[4] offset[8] count[4]\<close>.\<close>

definition read_message :: "u32 \<Rightarrow> u16 \<Rightarrow> u32 \<Rightarrow> u64 \<Rightarrow> u32 \<Rightarrow> u8 list" where
  "read_message msg_size tag fid offs count = le32 msg_size @ [116] @ le16 tag @ le32 fid @ le64 offs @ le32 count"

lemma read_message_header:
  "read_message msg_size tag fid offs count ! 4 = 116" "get_le16 (read_message msg_size tag fid offs count) 5 = tag"
  "drop 7 (read_message msg_size tag fid offs count) = le32 fid @ le64 offs @ le32 count"
proof -
  have "get_le16 (le32 msg_size @ [116] @ le16 tag @ xs) 5 = get_le16 (le16 tag) 0" for xs
    by (simp add: get_le16_def nth_append)
  then show "get_le16 (read_message msg_size tag fid offs count) 5 = tag" by (simp add: read_message_def)
qed (simp_all add: read_message_def nth_append)

lemma served_read:
  assumes "request_ok s 0 d rs ws index" "message s rs = read_message msg_size tag fid offs count"
    and "fid_map (vm_opaque s) fid = Some f" "fs_read fs f offs (sint count) (p9_fs (vm_opaque s)) = ((n, buf), st)" "0 \<le> n"
  shows "p9_served fs un junk d rs s = Some (Inr (Reply (le32 (of_int n) @ take (nat n) buf), with_fs st s))"
proof -
  have len: "7 \<le> chain_len rs" by (simp add: chain_len_message [of rs s] assms(2) read_message_def)
  show ?thesis
    using arguments_ok [OF assms(1) len readable_formats(8), of junk] parse_read [of fid offs count "[]"] assms(5)
    by (simp add: assms(2) read_message_header p9_serve_def p9_read_def file_of_def fid_find_map assms(3,4) on_fs_def
        data_reply_def served_def not_less [symmetric] del: parse.simps)
qed

section \<open>A concrete request\<close>

text \<open>
  The guest of \<open>Virtio_Spec\<close>, whose first request is now a read of four bytes of fid 7, tag 5, with 2048
  bytes for the reply. The file system holds one file, its bytes.
\<close>

definition p9_mem :: memory where
  "p9_mem = demo_mem(1 := 0x0001000100000017, 3 := 0x0000000200000800, 0x20000 := 0x0700057400000017, 0x20002 := 0x0000000004000000)"

definition p9_desc :: VIRTIODesc where
  "p9_desc = \<lparr>d_addr = 0x80100000, d_len = 23, d_flags = 1, d_next = 1\<rparr>"

definition p9_reply_desc :: VIRTIODesc where
  "p9_reply_desc = \<lparr>d_addr = 0x80200000, d_len = 2048, d_flags = 2, d_next = 0\<rparr>"

definition p9_demo :: "bool \<Rightarrow> (unit, u8 list) pvm" where
  "p9_demo busy = \<lparr>vm_emu = (emu_init p9_mem 0)\<lparr>memory := p9_mem\<rparr>, vm_dev = demo_dev,
     vm_opaque = \<lparr>p9_fs = [1, 2, 3], p9_msize = 8192, p9_fid_list = [(7, ())], p9_req_in_progress = busy\<rparr>\<rparr>"

definition demo_fs :: "(unit, u8 list) FSDevice" where
  "demo_fs = \<lparr>fs_delete = (\<lambda>_ st. st), fs_statfs = (\<lambda>st. (\<lparr>f_bsize = 512, f_blocks = 1, f_bfree = 0, f_bavail = 0,
       f_files = 1, f_ffree = 0\<rparr>, st)),
     fs_attach = (\<lambda>_ _ _ st. ((0, (), \<lparr>qid_type = 0, qid_version = 0, qid_path = 0\<rparr>), st)),
     fs_walk = (\<lambda>_ _ st. ((0, (), []), st)), fs_mkdir = (\<lambda>_ _ _ _ st. ((-1, \<lparr>qid_type = 0, qid_version = 0, qid_path = 0\<rparr>), st)),
     fs_open = (\<lambda>_ _ st. ((0, \<lparr>qid_type = 0, qid_version = 0, qid_path = 0\<rparr>), st)),
     fs_create = (\<lambda>_ _ _ _ _ st. ((-1, \<lparr>qid_type = 0, qid_version = 0, qid_path = 0\<rparr>), st)),
     fs_stat = (\<lambda>_ st. ((-1, \<lparr>st_qid = \<lparr>qid_type = 0, qid_version = 0, qid_path = 0\<rparr>, st_mode = 0, st_uid = 0, st_gid = 0,
       st_nlink = 0, st_rdev = 0, st_size = 0, st_blksize = 0, st_blocks = 0, st_atime_sec = 0, st_atime_nsec = 0,
       st_mtime_sec = 0, st_mtime_nsec = 0, st_ctime_sec = 0, st_ctime_nsec = 0\<rparr>), st)),
     fs_setattr = (\<lambda>_ _ _ _ _ _ _ _ _ _ st. (-1, st)),
     fs_readdir = (\<lambda>_ _ _ st. ((0, []), st)),
     fs_read = (\<lambda>_ offs count st. let buf = take (nat count) (drop (unat offs) st) in ((int (length buf), buf), st)),
     fs_write = (\<lambda>_ offs buf count st. if offs = 0 then (count, splice 0 buf st) else (-1, st)),
     fs_link = (\<lambda>_ _ _ st. (-1, st)), fs_symlink = (\<lambda>_ _ _ _ st. ((-1, \<lparr>qid_type = 0, qid_version = 0, qid_path = 0\<rparr>), st)),
     fs_mknod = (\<lambda>_ _ _ _ _ _ st. ((-1, \<lparr>qid_type = 0, qid_version = 0, qid_path = 0\<rparr>), st)),
     fs_readlink = (\<lambda>_ st. ((-1, []), st)), fs_renameat = (\<lambda>_ _ _ _ st. (-1, st)), fs_unlinkat = (\<lambda>_ _ st. (-1, st)),
     fs_lock = (\<lambda>_ _ st. (0, st)), fs_getlock = (\<lambda>_ lock st. ((0, lock), st))\<rparr>"

definition demo_unset :: p9_unset where
  "demo_unset = \<lparr>un_flags = 0, un_type = 0, un_start = 0, un_length = 0, un_proc_id = 0, un_client_id = []\<rparr>"


lemma p9_demo_simps:
  "memory (vm_emu (p9_demo b)) = p9_mem" "vm_dev (p9_demo b) = demo_dev"
  "vm_opaque (p9_demo b) = \<lparr>p9_fs = [1, 2, 3], p9_msize = 8192, p9_fid_list = [(7, ())], p9_req_in_progress = b\<rparr>"
  by (simp_all add: p9_demo_def)

lemma p9_demo_windows:
  "desc_window p9_reply_desc \<inter> table_window demo_dev 0 = {}"
  "desc_window p9_reply_desc \<inter> used_window 0x80300000 0 16 = {}"
proof -
  have "window 0x80000000 (16 * 2 ^ 16) \<inter> desc_window p9_reply_desc = {}"
    by (rule window_disjoint) (auto simp: p9_reply_desc_def)
  then show "desc_window p9_reply_desc \<inter> table_window demo_dev 0 = {}"
    by (simp add: table_window_def demo_queues demo_queue_def Int_commute)
  have "desc_window p9_reply_desc \<inter> window (0x80300000 + 2) 2 = {}"
    by (rule window_disjoint) (auto simp: p9_reply_desc_def)
  moreover have "desc_window p9_reply_desc \<inter> window (0x80300000 + of_nat (used_entry 0 16)) 8 = {}"
    by (rule window_disjoint) (auto simp: p9_reply_desc_def used_entry_def)
  ultimately show "desc_window p9_reply_desc \<inter> used_window 0x80300000 0 16 = {}"
    by (simp add: used_window_def Int_Un_distrib)
qed

lemma p9_demo_ok: "request_ok (p9_demo b) 0 0 [p9_desc] [p9_reply_desc] 0"
proof -
  have desc: "get_desc demo_dev 0 0 p9_mem = Inr p9_desc" "get_desc demo_dev 0 1 p9_mem = Inr p9_reply_desc" by code_simp+
  moreover have flags: "has_next p9_desc" "write_flag p9_desc = 0" "d_next p9_desc = 1" "\<not> has_next p9_reply_desc"
    "write_flag p9_reply_desc = 2" by code_simp+
  moreover have "chain demo_dev 0 p9_mem p9_desc [p9_desc, p9_reply_desc]"
    using desc flags by (intro chain.link [of _ _ _ _ p9_reply_desc] chain.last) simp_all
  moreover have "desc_in_ram p9_desc" unfolding desc_in_ram_def by (rule ram_regionI) (simp add: p9_desc_def)
  moreover have "desc_in_ram p9_reply_desc" unfolding desc_in_ram_def by (rule ram_regionI) (simp add: p9_reply_desc_def)
  moreover have "mem_read16 (0x80300000 + 2) p9_mem = Inr 0" by code_simp
  ultimately show ?thesis
    unfolding request_ok_def Let_def p9_demo_simps
    using p9_demo_windows demo_ring(2)
    by (simp add: demo_queues demo_queue_def separate_def) (simp add: p9_desc_def p9_reply_desc_def)
qed

lemma p9_demo_message: "message (p9_demo b) [p9_desc] = read_message 23 5 7 0 4"
  unfolding p9_demo_simps by code_simp


section \<open>Properties\<close>



text \<open>
  C23: a request to read the file of a known fid is answered by \<^verbatim>\<open>size[4] Rread tag[2] count[4] data[count]\<close>,
  with the bytes that the file system returns for the offset and the count of the message; the file
  system moves on, the table of files does not change.
\<close>

theorem p9_read_request:
  assumes "request_ok s 0 d rs ws index" "\<not> p9_req_in_progress (vm_opaque s)"
    and "message s rs = read_message msg_size tag fid offs count" "fid_map (vm_opaque s) fid = Some f"
    and "fs_read fs f offs (sint count) (p9_fs (vm_opaque s)) = ((int (length buf), buf), st)"
    and "rmsg = le32 (of_nat (length buf + 11)) @ [117] @ le16 tag @ le32 (of_nat (length buf)) @ buf"
    and "int (length rmsg) \<le> chain_len ws"
  shows "\<exists>s'. virtio_9p_recv_request fs un junk 0 (uint d) r w s = Some (Inr (0, s')) \<and>
    vm_opaque s' = (vm_opaque s)\<lparr>p9_fs := st\<rparr> \<and>
    answered s 0 d (int (length rmsg)) index ws (splice 0 rmsg (message s ws)) s'"
proof -
  have len: "7 \<le> chain_len rs" by (simp add: chain_len_message [of rs s] assms(3) read_message_def)
  let ?out = "Reply (le32 (of_nat (length buf)) @ buf)"
  have served: "p9_served fs un junk d rs s = Some (Inr (?out, with_fs st s))"
    using served_read [OF assms(1,3-5)] by simp
  have out: "?out \<noteq> Pending" "rmsg = outcome_message (message s rs ! 4) (get_le16 (message s rs) 5) ?out"
    by (simp_all add: assms(3,6) read_message_header outcome_message_def reply_message_def add.commute)
  from recv_answers [OF assms(1,2) len served out assms(7), of r w] show ?thesis by simp
qed

theorem p9_read_request_witness:
  "\<exists>s'. virtio_9p_recv_request demo_fs demo_unset (\<lambda>_. 0) 0 0 23 2048 (p9_demo False) = Some (Inr (0, s')) \<and>
    answered (p9_demo False) 0 0 14 0 [p9_reply_desc]
      (splice 0 [14, 0, 0, 0, 117, 5, 0, 3, 0, 0, 0, 1, 2, 3] (message (p9_demo False) [p9_reply_desc])) s'"
proof -
  have rmsg: "[14, 0, 0, 0, 117, 5, 0, 3, 0, 0, 0, 1, 2, 3] =
      le32 (of_nat (length [1, 2, 3 :: u8] + 11)) @ [117] @ le16 5 @ le32 (of_nat (length [1, 2, 3 :: u8])) @ [1, 2, 3]"
    by code_simp
  have "fs_read demo_fs () 0 (sint (4 :: u32)) (p9_fs (vm_opaque (p9_demo False))) = ((int (length [1, 2, 3 :: u8]), [1, 2, 3]), [1, 2, 3])"
    by (simp add: demo_fs_def p9_demo_simps)
  from p9_read_request [OF p9_demo_ok _ p9_demo_message _ this rmsg, where un = demo_unset and junk = "\<lambda>_. 0" and r = 23 and w = 2048]
  show ?thesis by (auto simp: p9_demo_simps p9_reply_desc_def fid_map_def)
qed



text \<open>
  C25: the bytes that \<^verbatim>\<open>marshall\<close> writes for some arguments, at any position of a request and wherever the
  buffers of its chain divide them, are read back by \<^verbatim>\<open>unmarshall\<close> as the same arguments, which also advances the offset
  by exactly these bytes. Strings have no zero byte, and \<^verbatim>\<open>FSQID\<close>s are only written.
\<close>

theorem p9_message_roundtrip:
  assumes "request_ok s queue_idx d rs ws index" "marshall max_len ap = Inr bs" "\<forall>a \<in> set ap. plain_arg a"
    and "message s rs = before @ bs @ after"
  shows "unmarshall junk queue_idx (uint d) s (map arg_letter ap) (int (length before)) =
    Some (Inr (Some (int (length before + length bs), ap)))"
proof -
  have "readable (map arg_letter ap)"
    using assms(3) by (force simp: readable_def arg_letter_def plain_arg_def split: p9_arg.splits)
  from unmarshall_ok [OF assms(1) _ _ this, of "int (length before)" junk] parse_marshall [OF assms(2,3), of after]
  show ?thesis by (simp add: chain_len_message [of rs s] assms(4) positioned_def)
qed

theorem p9_message_roundtrip_witness:
  "unmarshall (\<lambda>_. 0) 0 0 (p9_demo False) ''hwdw'' 5 = Some (Inr (Some (23, [arg_h 5, arg_w 7, arg_d 0, arg_w 4])))"
proof -
  have "marshall 100 [arg_h 5, arg_w 7, arg_d 0, arg_w 4] = Inr (le16 5 @ le32 7 @ le64 0 @ le32 4)"
    using marshall_fits [of "[arg_h 5, arg_w 7, arg_d 0, arg_w 4]" 100] by simp
  moreover have "message (p9_demo False) [p9_desc] = (le32 23 @ [116]) @ (le16 5 @ le32 7 @ le64 0 @ le32 4) @ []"
    unfolding p9_demo_message by (simp add: read_message_def)
  ultimately show ?thesis
    using p9_message_roundtrip [OF p9_demo_ok, of 100 "[arg_h 5, arg_w 7, arg_d 0, arg_w 4]" _ False "le32 23 @ [116]" "[]" "\<lambda>_. 0"]
    by (simp add: plain_arg_def arg_letter_def)
qed

text \<open>
  C26: the list of open files refines a map from fids to files: \<^verbatim>\<open>fid_find\<close> looks up, \<^verbatim>\<open>fid_set\<close> updates and releases the
  file that was there, \<^verbatim>\<open>fid_delete\<close> removes and releases, no fid is ever twice in the list, and the
  requests other than attach, walk and clunk leave the map as it is.
\<close>

theorem p9_fid_table:
  assumes "fids_ok t"
  shows "fid_find fid t = fid_map t fid \<and>
    fid_map (fid_set fs fid f t) = (fid_map t)(fid \<mapsto> f) \<and> fid_map (fid_delete fs fid t) = (fid_map t)(fid := None) \<and>
    fids_ok (fid_set fs fid f t) \<and> fids_ok (fid_delete fs fid t) \<and>
    p9_fs (fid_set fs fid f t) = (case fid_map t fid of None \<Rightarrow> p9_fs t | Some g \<Rightarrow> fs_delete fs g (p9_fs t)) \<and>
    p9_fs (fid_delete fs fid t) = (case fid_map t fid of None \<Rightarrow> p9_fs t | Some g \<Rightarrow> fs_delete fs g (p9_fs t)) \<and>
    (oid \<notin> {104, 110, 120} \<and>
       p9_serve fs un get (arguments junk queue_idx desc_idx) oid offset s = Some (Inr (out, s')) \<longrightarrow>
       fid_map (vm_opaque s') = fid_map (vm_opaque s))"
  using serve_table [of oid s fs un get junk queue_idx desc_idx offset]
  by (simp add: fid_find_map fid_set_map fid_delete_map [OF assms] fid_set_ok [OF assms] fid_delete_ok [OF assms]
      fid_release wp_partial)

theorem p9_fid_table_witness:
  "fid_find 7 (fid_delete demo_fs 7 (fid_set demo_fs 7 () \<lparr>p9_fs = [], p9_msize = 8192, p9_fid_list = [(8, ())], p9_req_in_progress = False\<rparr>))
    = None"
proof -
  let ?t = "\<lparr>p9_fs = [], p9_msize = 8192, p9_fid_list = [(8, ())], p9_req_in_progress = False\<rparr> :: (unit, u8 list) VIRTIO9PDevice"
  let ?u = "fid_set demo_fs 7 () ?t"
  note facts = p9_fid_table [of _ 7 demo_fs "()" 0 demo_unset "\<lambda>_ _. not_found" "\<lambda>_. 0" 0 0 0 "p9_demo False" Pending "p9_demo False"]
  have t: "fids_ok ?t" by (simp add: fids_ok_def)
  have u: "fids_ok ?u" using facts [OF t] by blast
  have del: "fid_map (fid_delete demo_fs 7 ?u) = (fid_map ?u)(7 := None)" using facts [OF u] by blast
  have "fids_ok (fid_delete demo_fs 7 ?u)" using facts [OF u] by blast
  from facts [OF this] have "fid_find 7 (fid_delete demo_fs 7 ?u) = fid_map (fid_delete demo_fs 7 ?u) 7" by blast
  then show ?thesis by (simp add: del)
qed

text \<open>
  C27: in every state the 9P device reaches from its initialisation, through any accesses of the guest on either
  bus and any completions of opens, with any file system, the registers are well-formed, the line is up exactly while
  an interrupt is reported, and the fids of the table are distinct.
\<close>

theorem p9_invariant:
  assumes "0 \<notin> set mount_tag" "2 \<le> length mount_tag" "length mount_tag \<le> 254"
    and "io_reach (virtio_9p_recv_request fs un junk) None (p9_event fs un) (virtio_9p_init st mount_tag) s"
  shows "device_ok s \<and> fids_ok (vm_opaque s)"
proof (rule p9_fids.io_reach_opaque [OF assms(4) p9_init_ok [OF assms(1-3)]])
  show "fids_ok (snd (virtio_9p_init st mount_tag))" by (simp add: virtio_9p_init_def Let_def fids_ok_def)
qed (use p9_event_keeps in blast)+

theorem p9_invariant_witness:
  "\<exists>s. io_reach (virtio_9p_recv_request demo_fs demo_unset (\<lambda>_. 0)) None (p9_event demo_fs demo_unset)
      (virtio_9p_init [1, 2, 3] [0x72, 0x66]) s \<and> v_queue_sel (vm_dev s) = 3 \<and> device_ok s \<and> fids_ok (vm_opaque s)"
proof -
  let ?i = "virtio_9p_init [1, 2, 3] [0x72, 0x66] :: VIRTIODevice \<times> (unit, u8 list) VIRTIO9PDevice"
  let ?recv = "virtio_9p_recv_request demo_fs demo_unset (\<lambda>_. 0)"
  let ?start = "\<lparr>vm_emu = emu_init demo_mem 0, vm_dev = fst ?i, vm_opaque = snd ?i\<rparr>"
  let ?s = "?start\<lparr>vm_dev := (vm_dev ?start)\<lparr>v_queue_sel := 3\<rparr>\<rparr>"
  have "io_reach ?recv None (p9_event demo_fs demo_unset) ?i ?start"
    by (rule io_reach.start) (simp add: emu_init_def)
  moreover have "virtio_pci_write ?recv None 0x16 3 1 ?start = Some (Inr ?s)"
    by (simp add: virtio_pci_write_def)
  ultimately have reach: "io_reach ?recv None (p9_event demo_fs demo_unset) ?i ?s" by (rule io_reach.pci)
  then have "device_ok ?s \<and> fids_ok (vm_opaque ?s)" using p9_invariant [OF _ _ _ reach] by simp
  with reach show ?thesis by (intro exI [of _ ?s]) simp
qed

end
