(* ===== verification/Json.thy ===== *)
theory Json
  imports Prelude
begin

text \<open>
  The JSON reader of \<^verbatim>\<open>temu/json.c\<close>, with which the emulator reads its configuration. A text is the string
  up to its terminating zero byte; \<open>peek\<close> reads the character a pointer points to. What the code returns as
  a \<^verbatim>\<open>JSON_EXCEPTION\<close> carries the format of the message; the one argument of a format, an unknown
  identifier, is left out.
\<close>

section \<open>Values\<close>

datatype JSONValue =
    JSON_STR string
  | JSON_INT int
  | JSON_OBJ "(string \<times> JSONValue) list"
  | JSON_ARRAY "JSONValue list"
  | JSON_BOOL bool
  | JSON_NULL
  | JSON_UNDEFINED
  | JSON_EXCEPTION string

definition json_is_error :: "JSONValue \<Rightarrow> bool" where
  "json_is_error val \<longleftrightarrow> (case val of JSON_EXCEPTION _ \<Rightarrow> True | _ \<Rightarrow> False)"

definition json_is_undefined :: "JSONValue \<Rightarrow> bool" where
  "json_is_undefined val \<longleftrightarrow> (case val of JSON_UNDEFINED \<Rightarrow> True | _ \<Rightarrow> False)"

text \<open>The first property of the name, as \<^verbatim>\<open>json_object_get2\<close> finds it.\<close>

definition json_object_get :: "JSONValue \<Rightarrow> string \<Rightarrow> JSONValue" where
  "json_object_get val name =
     (case val of
        JSON_OBJ props \<Rightarrow> (case map_of props name of None \<Rightarrow> JSON_UNDEFINED | Some v \<Rightarrow> v)
      | _ \<Rightarrow> JSON_UNDEFINED)"

primrec props_set :: "(string \<times> JSONValue) list \<Rightarrow> string \<Rightarrow> JSONValue \<Rightarrow> (string \<times> JSONValue) list" where
  "props_set [] name prop_val = [(name, prop_val)]"
| "props_set (f # props) name prop_val =
     (if fst f = name then (name, prop_val) # props else f # props_set props name prop_val)"

definition json_object_set :: "JSONValue \<Rightarrow> string \<Rightarrow> JSONValue \<Rightarrow> int \<times> JSONValue" where
  "json_object_set val name prop_val =
     (case val of JSON_OBJ props \<Rightarrow> (0, JSON_OBJ (props_set props name prop_val)) | _ \<Rightarrow> (-1, val))"

definition json_array_get :: "JSONValue \<Rightarrow> nat \<Rightarrow> JSONValue" where
  "json_array_get val idx =
     (case val of JSON_ARRAY tab \<Rightarrow> (if idx < length tab then tab ! idx else JSON_UNDEFINED) | _ \<Rightarrow> JSON_UNDEFINED)"

definition json_array_set :: "JSONValue \<Rightarrow> nat \<Rightarrow> JSONValue \<Rightarrow> int \<times> JSONValue" where
  "json_array_set val idx prop_val =
     (case val of
        JSON_ARRAY tab \<Rightarrow>
          (if idx < length tab then (0, JSON_ARRAY (tab[idx := prop_val]))
           else if idx = length tab then (0, JSON_ARRAY (tab @ [prop_val]))
           else (-1, val))
      | _ \<Rightarrow> (-1, val))"

section \<open>Characters\<close>

abbreviation NUL :: char where "NUL \<equiv> CHR 0x00"
abbreviation newline :: char where "newline \<equiv> CHR 0x0A"
abbreviation quote :: char where "quote \<equiv> CHR 0x22"
abbreviation backslash :: char where "backslash \<equiv> CHR 0x5C"

definition peek :: "string \<Rightarrow> char" where
  "peek p = (case p of [] \<Rightarrow> NUL | c # _ \<Rightarrow> c)"

lemma peek_simps [simp]: "peek [] = NUL" "peek (c # p) = c"
  by (simp_all add: peek_def)

abbreviation code :: "char \<Rightarrow> int" where "code \<equiv> of_char"

definition isspace :: "char \<Rightarrow> bool" where
  "isspace c \<longleftrightarrow> code c = 32 \<or> 9 \<le> code c \<and> code c \<le> 13"

definition isdigit :: "char \<Rightarrow> bool" where
  "isdigit c \<longleftrightarrow> 48 \<le> code c \<and> code c \<le> 57"

definition is_ident_first :: "char \<Rightarrow> bool" where
  "is_ident_first c \<longleftrightarrow> 97 \<le> code c \<and> code c \<le> 122 \<or> 65 \<le> code c \<and> code c \<le> 90 \<or>
     c = CHR ''_'' \<or> c = CHR ''$''"

definition from_hex :: "char \<Rightarrow> int" where
  "from_hex c =
     (if 48 \<le> code c \<and> code c \<le> 57 then code c - 48
      else if 65 \<le> code c \<and> code c \<le> 70 then code c - 65 + 10
      else if 97 \<le> code c \<and> code c \<le> 102 then code c - 97 + 10
      else -1)"

section \<open>Blanks and comments\<close>

definition skip_line :: "string \<Rightarrow> string" where
  "skip_line p = dropWhile (\<lambda>c. c \<noteq> newline) p"

primrec skip_comment :: "string \<Rightarrow> string" where
  "skip_comment [] = []"
| "skip_comment (c # p) = (if c \<noteq> CHR ''*'' \<or> peek p \<noteq> CHR ''/'' then skip_comment p else tl p)"

lemma skip_shorter: "length (skip_line p) \<le> length p" "length (skip_comment p) \<le> length p"
proof -
  show "length (skip_line p) \<le> length p" by (simp add: skip_line_def length_dropWhile_le)
  show "length (skip_comment p) \<le> length p" by (induction p) auto
qed

function skip_spaces :: "string \<Rightarrow> string" where
  "skip_spaces p =
     (if isspace (peek p) then skip_spaces (tl p)
      else if peek p = CHR ''/'' \<and> peek (tl p) = CHR ''/'' then skip_spaces (skip_line (tl (tl p)))
      else if peek p = CHR ''/'' \<and> peek (tl p) = CHR ''*'' then skip_spaces (skip_comment (tl (tl p)))
      else p)"
  by auto

termination
proof (relation "measure length")
  fix p assume "isspace (peek p)"
  then have "p \<noteq> []" by (auto simp: isspace_def)
  then show "(tl p, p) \<in> measure length" by (cases p) simp_all
next
  fix p assume "peek p = CHR ''/'' \<and> peek (tl p) = CHR ''/''"
  then obtain c d q where "p = c # d # q" by (cases p; cases "tl p") auto
  then show "(skip_line (tl (tl p)), p) \<in> measure length" using skip_shorter(1) [of q] by simp
next
  fix p assume "peek p = CHR ''/'' \<and> peek (tl p) = CHR ''*''"
  then obtain c d q where "p = c # d # q" by (cases p; cases "tl p") auto
  then show "(skip_comment (tl (tl p)), p) \<in> measure length" using skip_shorter(2) [of q] by simp
qed simp

declare skip_spaces.simps [simp del]

section \<open>Strings, identifiers, numbers\<close>

text \<open>An escape, after its backslash: the character and what follows.\<close>

definition parse_escape :: "string \<Rightarrow> string + (char \<times> string)" where
  "parse_escape p =
     (let c = peek p; p = tl p in
      if c = CHR 0x27 \<or> c = quote \<or> c = backslash then Inr (c, p)
      else if c = CHR ''n'' then Inr (newline, p)
      else if c = CHR ''r'' then Inr (CHR 0x0D, p)
      else if c = CHR ''t'' then Inr (CHR 0x09, p)
      else if c = CHR ''x'' then
        (let h = from_hex (peek p) in
         if h < 0 then Inl ''invalig hex digit''
         else
           (let l = from_hex (peek (tl p)) in
            if l < 0 then Inl ''invalig hex digit''
            else Inr (char_of (nat (h * 16 + l)), tl (tl p))))
      else Inl ''unknown escape code'')"

lemma parse_escape_shorter: "parse_escape p = Inr (c, q) \<Longrightarrow> length q < length p"
  by (cases p; cases "tl p"; cases "tl (tl p)") (auto simp: parse_escape_def Let_def from_hex_def split: if_splits)

text \<open>\<open>room\<close> is what is left of the 4095 characters of the buffer.\<close>

function parse_chars :: "int \<Rightarrow> string \<Rightarrow> string + (string \<times> string)" where
  "parse_chars room p =
     (let c = peek p; q = tl p in
      if c = NUL \<or> c = newline then Inl ''unterminated string''
      else if c = quote then Inr ([], q)
      else
        (case (if c = backslash then parse_escape q else Inr (c, q)) of
           Inl m \<Rightarrow> Inl m
         | Inr (c, p) \<Rightarrow>
             if room \<le> 0 then Inl ''string too long''
             else (case parse_chars (room - 1) p of Inl m \<Rightarrow> Inl m | Inr (s, r) \<Rightarrow> Inr (c # s, r))))"
  by auto

termination
proof (relation "measure (length \<circ> snd)")
  fix room p c q x and y :: "char \<times> string" and d r
  assume *: "c = peek p" "q = tl p" "\<not> (c = NUL \<or> c = newline)"
    "(if c = backslash then parse_escape q else Inr (c, q)) = Inr y" "(d, r) = y"
  then have "length q < length p" by (cases p) simp_all
  moreover have "length r \<le> length q" using *(4,5) parse_escape_shorter by (fastforce split: if_splits)
  ultimately show "((room - 1, r), room, p) \<in> measure (length \<circ> snd)" by simp
qed simp

declare parse_chars.simps [simp del]

text \<open>The value ends at the first zero byte of the buffer.\<close>

definition parse_string :: "string \<Rightarrow> string + (string \<times> string)" where
  "parse_string p =
     (case parse_chars 4095 (tl p) of
        Inl m \<Rightarrow> Inl m
      | Inr (buf, p) \<Rightarrow> Inr (takeWhile (\<lambda>c. c \<noteq> NUL) buf, p))"

definition is_ident :: "char \<Rightarrow> bool" where
  "is_ident c \<longleftrightarrow> is_ident_first c \<or> isdigit c"

definition parse_ident :: "nat \<Rightarrow> string \<Rightarrow> (string \<times> string) option" where
  "parse_ident buf_size p =
     (let s = peek p # takeWhile is_ident (tl p) in
      if length s > buf_size - 1 then None else Some (s, dropWhile is_ident (tl p)))"

text \<open>\<^verbatim>\<open>strtol\<close> with base 0 on a text that starts with a digit, and the conversion of its result to \<^verbatim>\<open>int\<close>.\<close>

definition number :: "int \<Rightarrow> string \<Rightarrow> int" where
  "number b s = foldl (\<lambda>n c. n * b + from_hex c) 0 s"

definition strtol :: "string \<Rightarrow> int \<times> string" where
  "strtol p =
     (let is_hex = (\<lambda>c. 0 \<le> from_hex c);
          digits = (\<lambda>b P p. (min (2 ^ 63 - 1) (number b (takeWhile P p)), dropWhile P p)) in
      if peek p = CHR ''0'' \<and> peek (tl p) \<in> {CHR ''x'', CHR ''X''} \<and> is_hex (peek (tl (tl p)))
      then digits 16 is_hex (tl (tl p))
      else if peek p = CHR ''0'' then digits 8 (\<lambda>c. 48 \<le> code c \<and> code c \<le> 55) p
      else digits 10 isdigit p)"

definition to_int :: "int \<Rightarrow> int" where
  "to_int v = signed_take_bit 31 v"

section \<open>The parser\<close>

text \<open>The messages with an apostrophe.\<close>

abbreviation apostrophes :: "string \<Rightarrow> string" where
  "apostrophes m \<equiv> CHR 0x27 # m @ [CHR 0x27]"

definition unknown_identifier :: string where
  "unknown_identifier = ''unknown identifier: '' @ apostrophes ''%s''"

definition colon_expected :: string where
  "colon_expected = apostrophes '':'' @ '' expected''"

definition comma_or :: "string \<Rightarrow> string" where
  "comma_or m = ''expecting '' @ apostrophes '','' @ '' or '' @ apostrophes m"

text \<open>The name of a property, a string or an identifier.\<close>

definition parse_tag :: "string \<Rightarrow> string + (string \<times> string)" where
  "parse_tag p =
     (if peek p = quote then parse_string p
      else if is_ident_first (peek p) then
        (case parse_ident 128 p of None \<Rightarrow> Inl ''Invalid property name'' | Some r \<Rightarrow> Inr r)
      else Inl ''Invalid property name'')"

text \<open>
  \<^verbatim>\<open>json_parse_value2\<close> returns a value and moves the pointer, except when it returns early. The loops over
  properties and elements are functions of their own; they return the message of an early return. \<open>None\<close>
  means that the fuel, the first argument, has run out.
\<close>

fun json_parse_value2 :: "nat \<Rightarrow> string \<Rightarrow> (JSONValue \<times> string) option"
and parse_props :: "nat \<Rightarrow> (string \<times> JSONValue) list \<Rightarrow> string \<Rightarrow> (string + ((string \<times> JSONValue) list \<times> string)) option"
and parse_elements :: "nat \<Rightarrow> JSONValue list \<Rightarrow> string \<Rightarrow> (string + (JSONValue list \<times> string)) option" where
  "json_parse_value2 0 p0 = None"
| "json_parse_value2 (Suc n) p0 =
     (let p = skip_spaces p0; error = (\<lambda>m. Some (JSON_EXCEPTION m, p0)) in
      if peek p = NUL then error ''unexpected end of file''
      else if isdigit (peek p) then (case strtol p of (v, p) \<Rightarrow> Some (JSON_INT (to_int v), p))
      else if peek p = quote then
        Some (case parse_string p of Inl m \<Rightarrow> (JSON_EXCEPTION m, p) | Inr (s, p) \<Rightarrow> (JSON_STR s, p))
      else if peek p = CHR ''{'' then
        (case parse_props n [] (tl p) of
           None \<Rightarrow> None
         | Some (Inl m) \<Rightarrow> error m
         | Some (Inr (props, p)) \<Rightarrow> Some (JSON_OBJ props, p))
      else if peek p = CHR ''['' then
        (case parse_elements n [] (tl p) of
           None \<Rightarrow> None
         | Some (Inl m) \<Rightarrow> error m
         | Some (Inr (tab, p)) \<Rightarrow> Some (JSON_ARRAY tab, p))
      else if is_ident_first (peek p) then
        (case parse_ident 128 p of
           None \<Rightarrow> error unknown_identifier
         | Some (buf, p) \<Rightarrow>
             if buf = ''null'' then Some (JSON_NULL, p)
             else if buf = ''true'' then Some (JSON_BOOL True, p)
             else if buf = ''false'' then Some (JSON_BOOL False, p)
             else error unknown_identifier)
      else error ''unexpected character'')"
| "parse_props 0 props p = None"
| "parse_props (Suc n) props p =
     (let p = skip_spaces p in
      if peek p = CHR ''}'' then Some (Inr (props, tl p))
      else
        (case parse_tag p of
           Inl m \<Rightarrow> Some (Inl m)
         | Inr (tag, p) \<Rightarrow>
             if tag = [] then Some (Inl ''Invalid property name'')
             else
               (let p = skip_spaces p in
                if peek p \<noteq> CHR '':'' then Some (Inl colon_expected)
                else
                  (case json_parse_value2 n (tl p) of
                     None \<Rightarrow> None
                   | Some (val1, p) \<Rightarrow>
                       let props = props_set props tag val1; p = skip_spaces p in
                       if peek p = CHR '','' then parse_props n props (tl p)
                       else if peek p \<noteq> CHR ''}'' then Some (Inl (comma_or ''}''))
                       else parse_props n props p))))"
| "parse_elements 0 tab p = None"
| "parse_elements (Suc n) tab p =
     (let p = skip_spaces p in
      if peek p = CHR '']'' then Some (Inr (tab, tl p))
      else
        (case json_parse_value2 n p of
           None \<Rightarrow> None
         | Some (val1, p) \<Rightarrow>
             let tab = tab @ [val1]; p = skip_spaces p in
             if peek p = CHR '','' then parse_elements n tab (tl p)
             else if peek p \<noteq> CHR '']'' then Some (Inl (comma_or '']''))
             else parse_elements n tab p))"

text \<open>
  Every value takes a character before it enters a loop, and every turn of a loop takes one: \<open>2 * length p + 1\<close>
  is enough fuel (\<open>parse_total\<close> in \<open>Json_Text\<close>).
\<close>

definition json_parse_value :: "string \<Rightarrow> JSONValue option" where
  "json_parse_value p =
     (case json_parse_value2 (2 * length p + 1) p of
        None \<Rightarrow> None
      | Some (val, p) \<Rightarrow>
          Some (if json_is_error val then val
                else if peek (skip_spaces p) \<noteq> NUL then JSON_EXCEPTION ''unexpected characters at the end''
                else val))"

text \<open>The first \<open>len\<close> bytes, up to a zero byte among them.\<close>

definition json_parse_value_len :: "string \<Rightarrow> nat \<Rightarrow> JSONValue option" where
  "json_parse_value_len p len = json_parse_value (takeWhile (\<lambda>c. c \<noteq> NUL) (take len p))"

end
