(* ===== verification/Json_Grammar.thy ===== *)
theory Json_Grammar
  imports Json_Text
begin

text \<open>
  What the parser of \<open>Json\<close> makes of a text: its values are well-formed; and every text of a grammar (values
  with any blanks and comments between their parts, \<open>value_text\<close>) is read as the value the grammar gives it.
\<close>

section \<open>Well-formed values\<close>

fun json_ok :: "JSONValue \<Rightarrow> bool" where
  "json_ok (JSON_STR s) \<longleftrightarrow> NUL \<notin> set s \<and> length s \<le> 4095"
| "json_ok (JSON_INT v) \<longleftrightarrow> - (2 ^ 31) \<le> v \<and> v < 2 ^ 31"
| "json_ok (JSON_OBJ props) \<longleftrightarrow> distinct (map fst props) \<and>
     (\<forall>f \<in> set props. fst f \<noteq> [] \<and> length (fst f) \<le> 4095 \<and> json_ok (snd f))"
| "json_ok (JSON_ARRAY tab) \<longleftrightarrow> (\<forall>v \<in> set tab. json_ok v)"
| "json_ok (JSON_BOOL b) \<longleftrightarrow> True"
| "json_ok JSON_NULL \<longleftrightarrow> True"
| "json_ok JSON_UNDEFINED \<longleftrightarrow> False"
| "json_ok (JSON_EXCEPTION m) \<longleftrightarrow> True"

lemma fst_props_set: "set (map fst (props_set props k v)) = insert k (set (map fst props))"
  by (induction props) auto

lemma distinct_props_set: "distinct (map fst props) \<Longrightarrow> distinct (map fst (props_set props k v))"
proof (induction props)
  case (Cons f props)
  then show ?case using fst_props_set [of props k v] by auto
qed simp

lemma set_props_set: "set (props_set props k v) \<subseteq> insert (k, v) (set props)"
  by (induction props) auto

lemma props_set_ok:
  assumes "json_ok (JSON_OBJ props)" "json_ok v" "k \<noteq> []" "length k \<le> 4095"
  shows "json_ok (JSON_OBJ (props_set props k v))"
  using assms distinct_props_set [of props k v] set_props_set [of props k v] by fastforce

lemma map_of_props_set: "map_of (props_set props k v) = (map_of props)(k \<mapsto> v)"
  by (induction props) auto

text \<open>A property of what is found, for the shapes of the parser.\<close>

definition gives :: "('a \<Rightarrow> bool) \<Rightarrow> 'a option \<Rightarrow> bool" where
  "gives Q r \<longleftrightarrow> (\<forall>x. r = Some x \<longrightarrow> Q x)"

lemma gives_intros:
  "Q x \<Longrightarrow> gives Q (Some x)"
  "(c \<Longrightarrow> gives Q r) \<Longrightarrow> (\<not> c \<Longrightarrow> gives Q r') \<Longrightarrow> gives Q (if c then r else r')"
  "(\<And>z. a = Some z \<Longrightarrow> gives Q (f z)) \<Longrightarrow> gives Q (case a of None \<Rightarrow> None | Some z \<Rightarrow> f z)"
  "(\<And>z. a = Some z \<Longrightarrow> gives Q (f z)) \<Longrightarrow> gives Q e \<Longrightarrow> gives Q (case a of None \<Rightarrow> e | Some z \<Rightarrow> f z)"
  "(\<And>m. s = Inl m \<Longrightarrow> gives Q (k m)) \<Longrightarrow> (\<And>z. s = Inr z \<Longrightarrow> gives Q (g z)) \<Longrightarrow>
     gives Q (case s of Inl m \<Rightarrow> k m | Inr z \<Rightarrow> g z)"
  "(\<And>z w. t = (z, w) \<Longrightarrow> gives Q (h z w)) \<Longrightarrow> gives Q (case t of (z, w) \<Rightarrow> h z w)"
  by (auto simp: gives_def split: option.split sum.split prod.split)

lemma to_int_range: "- 2147483648 \<le> to_int v" "to_int v < 2147483648"
  unfolding to_int_def using signed_take_bit_int_greater_eq_minus_exp [of 31 v] signed_take_bit_int_less_exp [of 31 v] by simp_all

lemma parse_ok:
  "gives (\<lambda>(v, r). json_ok v) (json_parse_value2 n p)"
  "json_ok (JSON_OBJ props) \<Longrightarrow> gives (\<lambda>x. \<forall>y r. x = Inr (y, r) \<longrightarrow> json_ok (JSON_OBJ y)) (parse_props n props p')"
  "json_ok (JSON_ARRAY tab) \<Longrightarrow> gives (\<lambda>x. \<forall>y r. x = Inr (y, r) \<longrightarrow> json_ok (JSON_ARRAY y)) (parse_elements n tab p'')"
proof (induction n arbitrary: p p' p'' props tab)
  case (Suc n)
  {
    case 1
    have props: "json_ok (JSON_OBJ y)" if "parse_props n [] q = Some (Inr (y, r))" for q y r
      using Suc(2) [of "[]" q] that by (simp add: gives_def)
    have tab: "json_ok (JSON_ARRAY y)" if "parse_elements n [] q = Some (Inr (y, r))" for q y r
      using Suc(3) [of "[]" q] that by (simp add: gives_def)
    show ?case
      unfolding json_parse_value2.simps(2) Let_def
      by (intro gives_intros; auto dest: props tab parse_string_le simp del: json_ok.simps(3,4) simp: to_int_range split: sum.split)
  next
    case 2
    have val: "json_ok v" if "json_parse_value2 n q = Some (v, r)" for q v r
      using Suc(1) [of q] that by (simp add: gives_def)
    show ?case
      unfolding parse_props.simps(2) Let_def
      by (intro gives_intros Suc(2) props_set_ok; use 2 val parse_tag_le(2) in \<open>simp del: json_ok.simps\<close>)
  next
    case 3
    have val: "json_ok v" if "json_parse_value2 n q = Some (v, r)" for q v r
      using Suc(1) [of q] that by (simp add: gives_def)
    show ?case
      unfolding parse_elements.simps(2) Let_def
      by (intro gives_intros Suc(3); use 3 val in auto)
  }
qed (simp_all add: gives_def)

section \<open>The grammar\<close>

inductive blank :: "string \<Rightarrow> bool" where
  "blank []"
| space: "isspace c \<Longrightarrow> blank w \<Longrightarrow> blank (c # w)"
| line: "newline \<notin> set l \<Longrightarrow> blank w \<Longrightarrow> blank (''//'' @ l @ newline # w)"
| comment: "\<forall>i. take 2 (drop i (l @ ''*'')) \<noteq> ''*/'' \<Longrightarrow> blank w \<Longrightarrow> blank (''/*'' @ l @ ''*/'' @ w)"

text \<open>The source of a string, and its characters.\<close>

inductive chars_text :: "string \<Rightarrow> string \<Rightarrow> bool" where
  empty: "chars_text [] []"
| plain: "c \<notin> {NUL, newline, quote, backslash} \<Longrightarrow> chars_text s t \<Longrightarrow> chars_text (c # s) (c # t)"
| escape: "(e, c) \<in> {(quote, quote), (backslash, backslash), (CHR 0x27, CHR 0x27), (CHR ''n'', newline),
     (CHR ''r'', CHR 0x0D), (CHR ''t'', CHR 0x09)} \<Longrightarrow> chars_text s t \<Longrightarrow> chars_text (c # s) (backslash # e # t)"
| hex: "0 \<le> from_hex h \<Longrightarrow> 0 \<le> from_hex l \<Longrightarrow> 16 * from_hex h + from_hex l = code c \<Longrightarrow> c \<noteq> NUL \<Longrightarrow>
     chars_text s t \<Longrightarrow> chars_text (c # s) (backslash # CHR ''x'' # h # l # t)"

inductive key_text :: "string \<Rightarrow> string \<Rightarrow> bool" where
  quoted: "chars_text s t \<Longrightarrow> length s \<le> 4095 \<Longrightarrow> s \<noteq> [] \<Longrightarrow> key_text s (quote # t @ [quote])"
| ident: "is_ident_first c \<Longrightarrow> \<forall>d \<in> set s. is_ident d \<Longrightarrow> length s \<le> 126 \<Longrightarrow> key_text (c # s) (c # s)"

definition props_of :: "(string \<times> JSONValue) list \<Rightarrow> (string \<times> JSONValue) list \<Rightarrow> (string \<times> JSONValue) list" where
  "props_of acc ms = fold (\<lambda>(k, v) props. props_set props k v) ms acc"

text \<open>A comma may follow the last property and the last element.\<close>

inductive value_text :: "JSONValue \<Rightarrow> string \<Rightarrow> bool"
  and members_text :: "(string \<times> JSONValue) list \<Rightarrow> string \<Rightarrow> bool"
  and elements_text :: "JSONValue list \<Rightarrow> string \<Rightarrow> bool" where
  string: "chars_text s t \<Longrightarrow> length s \<le> 4095 \<Longrightarrow> value_text (JSON_STR s) (quote # t @ [quote])"
| decimal: "isdigit c \<Longrightarrow> \<forall>d \<in> set t. isdigit d \<Longrightarrow> c \<noteq> CHR ''0'' \<or> t = [] \<Longrightarrow> number 10 (c # t) < 2 ^ 31 \<Longrightarrow>
    value_text (JSON_INT (number 10 (c # t))) (c # t)"
| hexadecimal: "t \<noteq> [] \<Longrightarrow> \<forall>d \<in> set t. 0 \<le> from_hex d \<Longrightarrow> number 16 t < 2 ^ 31 \<Longrightarrow>
    value_text (JSON_INT (number 16 t)) (''0x'' @ t)"
| null: "value_text JSON_NULL ''null''"
| true: "value_text (JSON_BOOL True) ''true''"
| false: "value_text (JSON_BOOL False) ''false''"
| object: "members_text ms t \<Longrightarrow> value_text (JSON_OBJ (props_of [] ms)) (''{'' @ t @ ''}'')"
| array: "elements_text vs t \<Longrightarrow> value_text (JSON_ARRAY vs) (''['' @ t @ '']'')"
| no_member: "blank w \<Longrightarrow> members_text [] w"
| last_member: "blank w1 \<Longrightarrow> key_text k t1 \<Longrightarrow> blank w2 \<Longrightarrow> blank w3 \<Longrightarrow> value_text v t2 \<Longrightarrow> blank w4 \<Longrightarrow>
    members_text [(k, v)] (w1 @ t1 @ w2 @ '':'' @ w3 @ t2 @ w4)"
| member: "blank w1 \<Longrightarrow> key_text k t1 \<Longrightarrow> blank w2 \<Longrightarrow> blank w3 \<Longrightarrow> value_text v t2 \<Longrightarrow> blank w4 \<Longrightarrow>
    members_text ms t3 \<Longrightarrow> members_text ((k, v) # ms) (w1 @ t1 @ w2 @ '':'' @ w3 @ t2 @ w4 @ '','' @ t3)"
| no_element: "blank w \<Longrightarrow> elements_text [] w"
| last_element: "blank w1 \<Longrightarrow> value_text v t \<Longrightarrow> blank w2 \<Longrightarrow> elements_text [v] (w1 @ t @ w2)"
| element: "blank w1 \<Longrightarrow> value_text v t \<Longrightarrow> blank w2 \<Longrightarrow> elements_text vs t2 \<Longrightarrow>
    elements_text (v # vs) (w1 @ t @ w2 @ '','' @ t2)"

section \<open>The parser reads the grammar\<close>

lemma skip_line_text: "newline \<notin> set l \<Longrightarrow> skip_line (l @ newline # w) = newline # w"
  unfolding skip_line_def by (induction l) auto

lemma skip_comment_text: "\<forall>i. take 2 (drop i (l @ ''*'')) \<noteq> ''*/'' \<Longrightarrow> skip_comment (l @ ''*/'' @ w) = w"
proof (induction l)
  case (Cons c l)
  have "\<forall>i. take 2 (drop i (l @ ''*'')) \<noteq> ''*/''"
    using Cons.prems [THEN spec, of "Suc i" for i] by auto
  moreover have "c \<noteq> CHR ''*'' \<or> peek (l @ ''*/'' @ w) \<noteq> CHR ''/''"
    using Cons.prems [THEN spec, of 0] by (cases l) (auto simp: numeral_2_eq_2)
  ultimately show ?case using Cons.IH by auto
qed simp

lemma skip_blank: "blank w \<Longrightarrow> skip_spaces (w @ p) = skip_spaces p"
proof (induction rule: blank.induct)
  case (space c w)
  then show ?case by (subst skip_spaces.simps) simp
next
  case (line l w)
  have "skip_spaces (newline # w @ p) = skip_spaces (w @ p)"
    by (subst skip_spaces.simps) (simp add: isspace_def)
  then show ?case
    using line skip_line_text [of l "w @ p"] by (subst skip_spaces.simps) (simp add: isspace_def)
next
  case (comment l w)
  then show ?case
    using skip_comment_text [of l "w @ p"] by (subst skip_spaces.simps) (simp add: isspace_def)
qed simp

text \<open>Where something other than a blank starts.\<close>

definition solid :: "string \<Rightarrow> bool" where
  "solid p \<longleftrightarrow> \<not> isspace (peek p) \<and> peek p \<noteq> CHR ''/''"

lemma skip_solid: "solid p \<Longrightarrow> skip_spaces p = p"
  by (subst skip_spaces.simps) (simp add: solid_def)

lemma chars_text_parsed:
  "chars_text s t \<Longrightarrow> int (length s) \<le> room \<Longrightarrow> parse_chars room (t @ quote # r) = Inr (s, r)"
proof (induction arbitrary: room rule: chars_text.induct)
  case empty
  then show ?case by (subst parse_chars.simps) simp
next
  case (plain c s t)
  then show ?case by (subst parse_chars.simps) (simp add: Let_def)
next
  case (escape e c s t)
  have "parse_escape (e # t @ quote # r) = Inr (c, t @ quote # r)"
    using escape(1) by (auto simp: parse_escape_def)
  then show ?case using escape by (subst parse_chars.simps) (simp add: Let_def)
next
  case (hex h l c s t)
  have "nat (from_hex h * 16 + from_hex l) = of_char c" using hex(3) by (simp add: mult.commute)
  then have "parse_escape (CHR ''x'' # h # l # t @ quote # r) = Inr (c, t @ quote # r)"
    using hex(1,2) by (simp add: parse_escape_def)
  then show ?case using hex by (subst parse_chars.simps) (simp add: Let_def)
qed

lemma chars_text_NUL: "chars_text s t \<Longrightarrow> NUL \<notin> set s"
  by (induction rule: chars_text.induct) auto

lemma string_parsed:
  assumes "chars_text s t" "length s \<le> 4095"
  shows "parse_string (quote # t @ quote # r) = Inr (s, r)"
proof -
  have "takeWhile (\<lambda>c. c \<noteq> NUL) s = s"
    using chars_text_NUL [OF assms(1)] by (intro takeWhile_eq_all_conv [THEN iffD2]) auto
  then show ?thesis using chars_text_parsed [OF assms(1), of 4095 r] assms(2) by (simp add: parse_string_def)
qed

text \<open>What may follow a word or a number.\<close>

abbreviation stops :: "string \<Rightarrow> bool" where "stops r \<equiv> \<not> is_ident (peek r)"

lemma stops_simps [simp]:
  "\<not> is_ident CHR '',''" "\<not> is_ident CHR ''}''" "\<not> is_ident CHR '']''" "\<not> is_ident CHR '':''" "\<not> is_ident NUL"
  by (simp_all add: is_ident_def is_ident_first_def isdigit_def)

lemma space_stops: "isspace c \<Longrightarrow> \<not> is_ident c"
  unfolding isspace_def is_ident_def is_ident_first_def isdigit_def by auto

lemma blank_stops:
  assumes "blank w" "stops r"
  shows "stops (w @ r)"
  using assms(1)
proof cases
  case (space c w')
  then show ?thesis by (simp add: space_stops)
qed (use assms(2) in \<open>simp_all add: is_ident_def is_ident_first_def isdigit_def\<close>)

lemma run_of:
  assumes "\<forall>d \<in> set s. P d" "\<not> P (peek r) \<or> r = []"
  shows "takeWhile P (s @ r) = s" "dropWhile P (s @ r) = r"
  using assms by (induction s) (cases r; auto)+

lemma is_ident_stop: "stops r \<Longrightarrow> \<not> isdigit (peek r) \<and> \<not> 0 \<le> from_hex (peek r) \<and> \<not> (48 \<le> code (peek r) \<and> code (peek r) \<le> 55)"
  by (auto simp: is_ident_def isdigit_def is_ident_first_def from_hex_def split: if_splits)

lemma ident_parsed:
  assumes "is_ident_first c" "\<forall>d \<in> set s. is_ident d" "length s \<le> 126" "stops r"
  shows "parse_ident 128 (c # s @ r) = Some (c # s, r)"
  using assms run_of [of s is_ident r] by (simp add: parse_ident_def)

lemma ident_solid: "is_ident_first c \<Longrightarrow> solid (c # p)" "is_ident_first c \<Longrightarrow> c \<noteq> quote \<and> c \<noteq> CHR ''}''"
  by (auto simp: solid_def is_ident_first_def isspace_def)

lemma key_parsed:
  assumes "key_text k t" "stops r"
  shows "parse_tag (t @ r) = Inr (k, r) \<and> solid (t @ r) \<and> peek (t @ r) \<noteq> CHR ''}'' \<and> k \<noteq> []"
  using assms(1)
proof cases
  case (quoted t')
  have "parse_tag (quote # t' @ quote # r) = Inr (k, r)"
    using string_parsed [OF quoted(2,3), of r] by (simp add: parse_tag_def)
  then show ?thesis using quoted(1,4) by (simp add: solid_def isspace_def)
next
  case (ident c s)
  have "parse_tag (c # s @ r) = Inr (c # s, r)"
    using ident_parsed [OF ident(3-5) assms(2)] ident_solid(2) [OF ident(3)] ident(3) by (simp add: parse_tag_def)
  then show ?thesis using ident(1,2) ident_solid(1) [OF ident(3), of "s @ r"] ident_solid(2) [OF ident(3)] by simp
qed

lemma number_bound: "number b s < 2 ^ 31 \<Longrightarrow> 0 \<le> number b s \<Longrightarrow> to_int (min (2 ^ 63 - 1) (number b s)) = number b s"
  by (simp add: to_int_def min_def signed_take_bit_int_eq_self)

lemma number_nonneg: "0 \<le> b \<Longrightarrow> \<forall>d \<in> set s. 0 \<le> from_hex d \<Longrightarrow> 0 \<le> number b s"
proof -
  have "0 \<le> a \<Longrightarrow> 0 \<le> foldl (\<lambda>n c. n * b + from_hex c) a s" if "0 \<le> b" "\<forall>d \<in> set s. 0 \<le> from_hex d" for a
    using that by (induction s arbitrary: a) auto
  then show "0 \<le> b \<Longrightarrow> \<forall>d \<in> set s. 0 \<le> from_hex d \<Longrightarrow> 0 \<le> number b s" by (simp add: number_def)
qed

lemma decimal_parsed:
  assumes "isdigit c" "\<forall>d \<in> set t. isdigit d" "c \<noteq> CHR ''0'' \<or> t = []" "number 10 (c # t) < 2 ^ 31" "stops r"
  shows "\<exists>v. strtol (c # t @ r) = (v, r) \<and> to_int v = number 10 (c # t)"
proof -
  have digit: "0 \<le> from_hex d" if "isdigit d" for d using that by (auto simp: isdigit_def from_hex_def)
  have num: "to_int (min (2 ^ 63 - 1) (number 10 (c # t))) = number 10 (c # t)"
    by (rule number_bound [OF assms(4) number_nonneg]) (use assms(1,2) digit in auto)
  show ?thesis
  proof (cases "c = CHR ''0''")
    case False
    then show ?thesis
      using num run_of [of "c # t" isdigit r] assms(1,2) is_ident_stop [OF assms(5)] by (auto simp: strtol_def Let_def)
  next
    case True
    have "peek r \<noteq> CHR ''x''" "peek r \<noteq> CHR ''X''" using assms(5) by (auto simp: is_ident_def is_ident_first_def)
    then show ?thesis
      using True assms(3) num run_of [of "[c]" "\<lambda>c. 48 \<le> code c \<and> code c \<le> 55" r] is_ident_stop [OF assms(5)]
      by (auto simp: strtol_def Let_def number_def)
  qed
qed

lemma hexadecimal_parsed:
  assumes "t \<noteq> []" "\<forall>d \<in> set t. 0 \<le> from_hex d" "number 16 t < 2 ^ 31" "stops r"
  shows "\<exists>v. strtol (''0x'' @ t @ r) = (v, r) \<and> to_int v = number 16 t"
proof -
  have "to_int (min (2 ^ 63 - 1) (number 16 t)) = number 16 t"
    by (rule number_bound [OF assms(3) number_nonneg]) (use assms(2) in auto)
  moreover have "0 \<le> from_hex (peek (t @ r))" using assms(1,2) by (cases t) auto
  ultimately show ?thesis
    using run_of [of t "\<lambda>c. 0 \<le> from_hex c" r] assms(2) is_ident_stop [OF assms(4)] by (auto simp: strtol_def Let_def)
qed

lemma value_solid:
  assumes "value_text v t"
  shows "solid (t @ r) \<and> peek (t @ r) \<noteq> CHR '']''"
  using assms by cases (auto simp: solid_def isspace_def isdigit_def)

lemma word_parsed:
  assumes "skip_spaces p = c # s @ r" "is_ident_first c" "\<forall>d \<in> set s. is_ident d" "length s \<le> 126" "stops r"
    and "(c # s, v) \<in> {(''null'', JSON_NULL), (''true'', JSON_BOOL True), (''false'', JSON_BOOL False)}"
  shows "json_parse_value2 (Suc 0) p = Some (v, r)"
  using assms ident_parsed [OF assms(2-5)]
  by (auto simp: json_parse_value2.simps(2) isdigit_def)

lemma number_parsed:
  assumes "skip_spaces p = q" "isdigit (peek q)" "strtol q = (v, r)"
  shows "json_parse_value2 (Suc 0) p = Some (JSON_INT (to_int v), r)"
  using assms ident_peek(2) [OF assms(2)] by (simp add: json_parse_value2.simps(2) Let_def)

text \<open>One turn of the loops, for a property and for an element of the grammar.\<close>

lemma member_parsed:
  assumes "blank w1" "key_text k t1" "blank w2" "blank w3" "value_text v t2" "blank w4" "stops q"
    and "\<And>p. skip_spaces p = t2 @ w4 @ q \<Longrightarrow> \<exists>n. json_parse_value2 n p = Some (v, w4 @ q)"
    and "\<And>acc. \<exists>n. parse_props n acc (if peek q = CHR '','' then tl q else q) = Some (Inr (f acc, r))"
    and "peek q = CHR '','' \<or> peek q = CHR ''}''"
  shows "\<exists>n. parse_props n acc (w1 @ t1 @ w2 @ '':'' @ w3 @ t2 @ w4 @ q) = Some (Inr (f (props_set acc k v), r))"
proof -
  let ?q = "w2 @ '':'' @ w3 @ t2 @ w4 @ q"
  have "stops ?q" by (rule blank_stops [OF assms(3)]) simp
  note key = key_parsed [OF assms(2) this]
  have "skip_spaces (w3 @ t2 @ w4 @ q) = t2 @ w4 @ q"
    using skip_blank [OF assms(4)] skip_solid value_solid [OF assms(5), of "w4 @ q"] by simp
  then obtain n1 where n1: "json_parse_value2 n1 (w3 @ t2 @ w4 @ q) = Some (v, w4 @ q)" using assms(8) by blast
  have q: "skip_spaces (w4 @ q) = q" "solid q"
    using skip_blank [OF assms(6), of q] skip_solid [of q] assms(10) by (auto simp: solid_def isspace_def)
  obtain n2 where n2: "parse_props n2 (props_set acc k v) (if peek q = CHR '','' then tl q else q) =
      Some (Inr (f (props_set acc k v), r))" using assms(9) by blast
  let ?n = "max n1 n2"
  have "json_parse_value2 ?n (w3 @ t2 @ w4 @ q) = Some (v, w4 @ q)"
    "parse_props ?n (props_set acc k v) (if peek q = CHR '','' then tl q else q) = Some (Inr (f (props_set acc k v), r))"
    using parse_more(1) [OF max.cobounded1 n1] parse_more(2) [OF max.cobounded2 n2] by blast+
  moreover have "skip_spaces (w1 @ t1 @ ?q) = t1 @ ?q" "skip_spaces ?q = '':'' @ w3 @ t2 @ w4 @ q"
    using skip_blank [OF assms(1)] skip_blank [OF assms(3)] skip_solid key by (simp_all add: solid_def isspace_def)
  ultimately have "parse_props (Suc ?n) acc (w1 @ t1 @ ?q) = Some (Inr (f (props_set acc k v), r))"
    using key q assms(10) by (auto simp: parse_props.simps(2) Let_def)
  then show ?thesis by (intro exI [of _ "Suc ?n"]) simp
qed

lemma element_parsed:
  assumes "blank w1" "value_text v t" "blank w2" "stops q"
    and "\<And>p. skip_spaces p = t @ w2 @ q \<Longrightarrow> \<exists>n. json_parse_value2 n p = Some (v, w2 @ q)"
    and "\<And>acc. \<exists>n. parse_elements n acc (if peek q = CHR '','' then tl q else q) = Some (Inr (acc @ vs, r))"
    and "peek q = CHR '','' \<or> peek q = CHR '']''"
  shows "\<exists>n. parse_elements n acc (w1 @ t @ w2 @ q) = Some (Inr (acc @ v # vs, r))"
proof -
  have sp: "skip_spaces (w1 @ t @ w2 @ q) = t @ w2 @ q" "skip_spaces (t @ w2 @ q) = t @ w2 @ q"
    using skip_blank [OF assms(1)] skip_solid value_solid [OF assms(2), of "w2 @ q"] by simp_all
  then obtain n1 where n1: "json_parse_value2 n1 (t @ w2 @ q) = Some (v, w2 @ q)" using assms(5) by blast
  have q: "skip_spaces (w2 @ q) = q"
    using skip_blank [OF assms(3), of q] skip_solid [of q] assms(7) by (auto simp: solid_def isspace_def)
  obtain n2 where n2: "parse_elements n2 (acc @ [v]) (if peek q = CHR '','' then tl q else q) =
      Some (Inr ((acc @ [v]) @ vs, r))" using assms(6) by blast
  let ?n = "max n1 n2"
  have "json_parse_value2 ?n (t @ w2 @ q) = Some (v, w2 @ q)"
    "parse_elements ?n (acc @ [v]) (if peek q = CHR '','' then tl q else q) = Some (Inr ((acc @ [v]) @ vs, r))"
    using parse_more(1) [OF max.cobounded1 n1] parse_more(3) [OF max.cobounded2 n2] by blast+
  then have "parse_elements (Suc ?n) acc (w1 @ t @ w2 @ q) = Some (Inr (acc @ v # vs, r))"
    using sp q assms(7) value_solid [OF assms(2), of "w2 @ q"] by (auto simp: parse_elements.simps(2) Let_def)
  then show ?thesis by blast
qed

lemma grammar_parsed:
  "value_text v t \<Longrightarrow> skip_spaces p = t @ r \<Longrightarrow> stops r \<Longrightarrow> \<exists>n. json_parse_value2 n p = Some (v, r)"
  "members_text ms t' \<Longrightarrow> \<exists>n. parse_props n acc (t' @ CHR ''}'' # r') = Some (Inr (props_of acc ms, r'))"
  "elements_text vs t'' \<Longrightarrow> \<exists>n. parse_elements n tab (t'' @ CHR '']'' # r'') = Some (Inr (tab @ vs, r''))"
proof (induction arbitrary: p r and acc r' and tab r'' rule: value_text_members_text_elements_text.inducts)
  case (string s t)
  then show ?case
    using string_parsed [OF string(1,2), of r] by (intro exI [of _ "Suc 0"]) (simp add: json_parse_value2.simps(2) isdigit_def)
next
  case (decimal c t)
  then show ?case
    using decimal_parsed [OF decimal(1-4,6)] number_parsed [of p "c # t @ r"] by fastforce
next
  case (hexadecimal t)
  then show ?case
    using hexadecimal_parsed [OF hexadecimal(1-3,5)] number_parsed [of p "''0x'' @ t @ r"] by (fastforce simp: isdigit_def)
next
  case null
  then show ?case
    using word_parsed [of p "CHR ''n''" "''ull''" r JSON_NULL] by (auto simp: is_ident_def is_ident_first_def)
next
  case true
  then show ?case
    using word_parsed [of p "CHR ''t''" "''rue''" r "JSON_BOOL True"] by (auto simp: is_ident_def is_ident_first_def)
next
  case false
  then show ?case
    using word_parsed [of p "CHR ''f''" "''alse''" r "JSON_BOOL False"] by (auto simp: is_ident_def is_ident_first_def)
next
  case (object ms t)
  obtain n where "parse_props n [] (t @ CHR ''}'' # r) = Some (Inr (props_of [] ms, r))" using object(2) by blast
  then show ?case
    using object(3) by (intro exI [of _ "Suc n"]) (simp add: json_parse_value2.simps(2) isdigit_def)
next
  case (array vs t)
  obtain n where "parse_elements n [] (t @ CHR '']'' # r) = Some (Inr (vs, r))" using array(2) [of "[]"] by auto
  then show ?case
    using array(3) by (intro exI [of _ "Suc n"]) (simp add: json_parse_value2.simps(2) isdigit_def)
next
  case (no_member w)
  then show ?case
    using skip_blank [OF no_member(1), of "CHR ''}'' # r'"] skip_solid [of "CHR ''}'' # r'"]
    by (intro exI [of _ "Suc 0"]) (simp add: parse_props.simps(2) props_of_def solid_def isspace_def)
next
  case (last_member w1 k t1 w2 w3 v t2 w4)
  have "\<exists>n. parse_props n acc (CHR ''}'' # r') = Some (Inr (acc, r'))" for acc
    using skip_solid [of "CHR ''}'' # r'"] by (intro exI [of _ "Suc 0"]) (simp add: parse_props.simps(2) solid_def isspace_def)
  from member_parsed [OF last_member(1-6), of "CHR ''}'' # r'" "\<lambda>x. x" r' acc] last_member(7) this
  show ?case using blank_stops [OF last_member(6)] by (simp add: props_of_def)
next
  case (member w1 k t1 w2 w3 v t2 w4 ms t3)
  from member_parsed [OF member(1-6), of "CHR '','' # t3 @ CHR ''}'' # r'" "\<lambda>x. props_of x ms" r' acc] member(8,9)
  show ?case using blank_stops [OF member(6)] by (simp add: props_of_def)
next
  case (no_element w)
  then show ?case
    using skip_blank [OF no_element(1), of "CHR '']'' # r''"] skip_solid [of "CHR '']'' # r''"]
    by (intro exI [of _ "Suc 0"]) (simp add: parse_elements.simps(2) solid_def isspace_def)
next
  case (last_element w1 v t w2)
  have "\<exists>n. parse_elements n acc (CHR '']'' # r'') = Some (Inr (acc @ [], r''))" for acc
    using skip_solid [of "CHR '']'' # r''"] by (intro exI [of _ "Suc 0"]) (simp add: parse_elements.simps(2) solid_def isspace_def)
  from element_parsed [OF last_element(1-3), of "CHR '']'' # r''" "[]" r'' tab] last_element(4) this
  show ?case using blank_stops [OF last_element(3)] by simp
next
  case (element w1 v t w2 vs t2)
  from element_parsed [OF element(1-3), of "CHR '','' # t2 @ CHR '']'' # r''" vs r'' tab] element(5,6)
  show ?case using blank_stops [OF element(3)] by simp
qed

section \<open>Whole texts\<close>

lemma json_total: "\<exists>v. json_parse_value p = Some v \<and> json_ok v"
proof -
  obtain v r where v: "json_parse_value2 (2 * length p + 1) p = Some (v, r)"
    using parse_total [THEN conjunct1, rule_format, of p "2 * length p + 1"] by fastforce
  have "json_ok v" using parse_ok(1) [of "2 * length p + 1" p] v by (simp add: gives_def)
  then show ?thesis using v by (simp add: json_parse_value_def)
qed

lemma value_text_no_error: "value_text v t \<Longrightarrow> \<not> json_is_error v"
  by (erule value_text.cases) (simp_all add: json_is_error_def)

lemma json_reads:
  assumes "blank w1" "value_text v t" "blank w2"
  shows "json_parse_value (w1 @ t @ w2) = Some v"
proof -
  let ?p = "w1 @ t @ w2"
  have "skip_spaces ?p = t @ w2"
    using skip_blank [OF assms(1)] skip_solid value_solid [OF assms(2), of w2] by simp
  moreover have "stops w2" using blank_stops [OF assms(3), of "[]"] by simp
  ultimately obtain n where n: "json_parse_value2 n ?p = Some (v, w2)"
    using grammar_parsed(1) [OF assms(2)] by blast
  let ?m = "2 * length ?p + 1"
  obtain x where x: "json_parse_value2 ?m ?p = Some x"
    using parse_total [THEN conjunct1, rule_format, of ?p ?m] by fastforce
  have "x = (v, w2)"
    using parse_more(1) [OF max.cobounded1 n, of ?m] parse_more(1) [OF max.cobounded2 x, of n] by simp
  moreover have "skip_spaces w2 = []" using skip_blank [OF assms(3), of "[]"] skip_solid [of "[]"] by (simp add: solid_def isspace_def)
  ultimately show ?thesis using x value_text_no_error [OF assms(2)] by (simp add: json_parse_value_def)
qed

end
