(* ===== verification/Machine_Config.thy ===== *)
theory Machine_Config
  imports Json Temu_Loop
begin

text \<open>
  The configuration of the machine: \<^verbatim>\<open>temu/machine.c\<close>, which reads it from a JSON file into
  \<^verbatim>\<open>VirtMachineParams\<close>, and the part of \<^verbatim>\<open>main\<close> in \<^verbatim>\<open>emu.cpp\<close> that loads it and opens the drives. The operations
  that return -1 with a message are of type \<open>option\<close>.
\<close>

section \<open>Numbers in texts\<close>

text \<open>\<^verbatim>\<open>%d\<close> of a number that is not negative, and \<^verbatim>\<open>%02d\<close>.\<close>

fun decimal_text :: "nat \<Rightarrow> string" where
  "decimal_text n = (if n < 10 then [char_of (48 + n)] else decimal_text (n div 10) @ [char_of (48 + n mod 10)])"

declare decimal_text.simps [simp del]

definition two_digits :: "nat \<Rightarrow> string" where
  "two_digits n = (if n < 10 then CHR ''0'' # decimal_text n else decimal_text n)"

section \<open>The parameters\<close>

datatype VirtMachineClass = riscv_machine_class | pc_machine_class

record VMFileEntry =
  file_filename :: "string option"
  file_buf :: "u8 list"

record VMDriveEntry =
  drive_device :: "string option"
  drive_filename :: string

record VMFSEntry =
  fs_tag :: string
  fs_filename :: string

record VMEthEntry =
  eth_driver :: string
  eth_ifname :: "string option"

text \<open>
  The tables hold the entries in use, \<^verbatim>\<open>drive_count\<close>, \<^verbatim>\<open>fs_count\<close> and \<^verbatim>\<open>eth_count\<close> of them; \<^verbatim>\<open>files\<close> are those of
  the BIOS, of the VGA BIOS and of the kernel, in this order.
\<close>

record VirtMachineParams =
  cfg_filename :: "string option"
  vmc :: "VirtMachineClass option"
  machine_name :: "string option"
  ram_size :: u64
  rtc_real_time :: bool
  rtc_local_time :: bool
  display_device :: "string option"
  vm_width :: int
  vm_height :: int
  tab_drive :: "VMDriveEntry list"
  tab_fs :: "VMFSEntry list"
  tab_eth :: "VMEthEntry list"
  cmdline :: "string option"
  accel_enable :: bool
  input_device :: "string option"
  vm_files :: "VMFileEntry list"

abbreviation MAX_DRIVE_DEVICE :: nat where "MAX_DRIVE_DEVICE \<equiv> 4"
abbreviation MAX_ETH_DEVICE :: nat where "MAX_ETH_DEVICE \<equiv> 1"
abbreviation VM_CONFIG_VERSION :: int where "VM_CONFIG_VERSION \<equiv> 1"
abbreviation VM_FILE_BIOS :: nat where "VM_FILE_BIOS \<equiv> 0"
abbreviation VM_FILE_VGA_BIOS :: nat where "VM_FILE_VGA_BIOS \<equiv> 1"
abbreviation VM_FILE_KERNEL :: nat where "VM_FILE_KERNEL \<equiv> 2"
abbreviation VM_FILE_COUNT :: nat where "VM_FILE_COUNT \<equiv> 3"

text \<open>\<^verbatim>\<open>memset(p, 0, sizeof( *p))\<close>.\<close>

definition virt_machine_set_defaults :: VirtMachineParams where
  "virt_machine_set_defaults =
     \<lparr>cfg_filename = None, vmc = None, machine_name = None, ram_size = 0, rtc_real_time = False, rtc_local_time = False,
      display_device = None, vm_width = 0, vm_height = 0, tab_drive = [], tab_fs = [], tab_eth = [], cmdline = None,
      accel_enable = False, input_device = None,
      vm_files = replicate VM_FILE_COUNT \<lparr>file_filename = None, file_buf = []\<rparr>\<rparr>"

section \<open>Reading properties\<close>

definition vm_get_int :: "JSONValue \<Rightarrow> string \<Rightarrow> int option" where
  "vm_get_int obj name =
     (let val = json_object_get obj name in
      if json_is_undefined val then None else (case val of JSON_INT v \<Rightarrow> Some v | _ \<Rightarrow> None))"

definition vm_get_int_opt :: "JSONValue \<Rightarrow> string \<Rightarrow> int \<Rightarrow> int option" where
  "vm_get_int_opt obj name def_val =
     (let val = json_object_get obj name in
      if json_is_undefined val then Some def_val else (case val of JSON_INT v \<Rightarrow> Some v | _ \<Rightarrow> None))"

text \<open>The result is the string or, if it may be missing, \<^verbatim>\<open>NULL\<close>.\<close>

definition vm_get_str2 :: "JSONValue \<Rightarrow> string \<Rightarrow> bool \<Rightarrow> string option option" where
  "vm_get_str2 obj name is_opt =
     (let val = json_object_get obj name in
      if json_is_undefined val then (if is_opt then Some None else None)
      else (case val of JSON_STR s \<Rightarrow> Some (Some s) | _ \<Rightarrow> None))"

definition vm_get_str :: "JSONValue \<Rightarrow> string \<Rightarrow> string option" where
  "vm_get_str obj name = map_option the (vm_get_str2 obj name False)"

definition vm_get_str_opt :: "JSONValue \<Rightarrow> string \<Rightarrow> string option option" where
  "vm_get_str_opt obj name = vm_get_str2 obj name True"

section \<open>Names and paths\<close>

text \<open>
  \<open>gmtoff\<close> is what \<^verbatim>\<open>localtime_r\<close> gives for the zone of the host, in seconds. The name of a variable is cut to
  the 31 characters of its buffer.
\<close>

definition utc_text :: "int \<Rightarrow> string" where
  "utc_text gmtoff =
     (let n = gmtoff sdiv 60; sg = (if n < 0 then CHR ''+'' else CHR ''-''); n = nat \<bar>n\<bar> in
      ''UTC'' @ [sg] @ two_digits (n div 60) @ '':'' @ two_digits (n mod 60))"

function cmdline_subst :: "int \<Rightarrow> string \<Rightarrow> string" where
  "cmdline_subst gmtoff p =
     (if p = [] then []
      else if peek p = CHR ''$'' \<and> peek (tl p) = CHR ''{'' then
        (let p = tl (tl p); var_name = take 31 (takeWhile (\<lambda>c. c \<noteq> CHR ''}'') p);
             p = tl (dropWhile (\<lambda>c. c \<noteq> CHR ''}'') p) in
         (if var_name = ''TZ'' then utc_text gmtoff else []) @ cmdline_subst gmtoff p)
      else peek p # cmdline_subst gmtoff (tl p))"
  by auto

termination
proof (relation "measure (length \<circ> snd)")
  fix gmtoff :: int and p q x r :: string
  assume "p \<noteq> []" "q = tl (tl p)" "r = tl (dropWhile (\<lambda>c. c \<noteq> CHR ''}'') q)"
  moreover have "length (dropWhile (\<lambda>c. c \<noteq> CHR ''}'') q) \<le> length q" by (rule length_dropWhile_le)
  ultimately show "((gmtoff, r), gmtoff, p) \<in> measure (length \<circ> snd)" by (cases p) auto
qed simp_all

declare cmdline_subst.simps [simp del]

function find_name :: "string \<Rightarrow> string \<Rightarrow> bool" where
  "find_name name p =
     (let word = takeWhile (\<lambda>c. c \<noteq> CHR '','') p; r = dropWhile (\<lambda>c. c \<noteq> CHR '','') p in
      if r = [] then name = p else if word = name then True else find_name name (tl r))"
  by auto

termination
proof (relation "measure (length \<circ> snd)")
  fix name p word r :: string
  assume r: "r = dropWhile (\<lambda>c. c \<noteq> CHR '','') p" "r \<noteq> []"
  have "length r \<le> length p" unfolding r(1) by (rule length_dropWhile_le)
  moreover have "length (tl r) < length r" using r(2) by (cases r) simp_all
  ultimately show "((name, tl r), name, p) \<in> measure (length \<circ> snd)" by simp
qed simp

declare find_name.simps [simp del]

definition machine_names :: "VirtMachineClass \<Rightarrow> string" where
  "machine_names c = (case c of riscv_machine_class \<Rightarrow> ''riscv32,riscv64,riscv128'' | pc_machine_class \<Rightarrow> ''pc'')"

definition virt_machine_find_class :: "string \<Rightarrow> VirtMachineClass option" where
  "virt_machine_find_class name = find (\<lambda>c. find_name name (machine_names c)) [riscv_machine_class, pc_machine_class]"

definition class_set_defaults :: "VirtMachineClass \<Rightarrow> VirtMachineParams \<Rightarrow> VirtMachineParams" where
  "class_set_defaults c p = (case c of riscv_machine_class \<Rightarrow> p | pc_machine_class \<Rightarrow> p\<lparr>accel_enable := True\<rparr>)"

definition get_file_path :: "string option \<Rightarrow> string \<Rightarrow> string" where
  "get_file_path base_filename filename =
     (case base_filename of
        None \<Rightarrow> filename
      | Some base \<Rightarrow>
          if CHR '':'' \<in> set filename then filename
          else if peek filename = CHR ''/'' then filename
          else if CHR ''/'' \<notin> set base then filename
          else rev (dropWhile (\<lambda>c. c \<noteq> CHR ''/'') (rev base)) @ filename)"

definition vm_add_cmdline :: "string \<Rightarrow> VirtMachineParams \<Rightarrow> VirtMachineParams" where
  "vm_add_cmdline line p =
     p\<lparr>cmdline := Some
       (if peek line = CHR ''!'' then tl line
        else (case cmdline p of None \<Rightarrow> [] | Some old \<Rightarrow> old) @ '' '' @ line)\<rparr>"

section \<open>The configuration\<close>

text \<open>
  \<open>andTry\<close> is \<^verbatim>\<open>if (... < 0) goto tag_fail\<close>: a failure ends the function. The three loops over numbered
  properties stop at the first that is missing.
\<close>

definition andTry :: "'a option \<Rightarrow> ('a \<Rightarrow> 'b option) \<Rightarrow> 'b option" where
  "andTry r f = (case r of None \<Rightarrow> None | Some x \<Rightarrow> f x)"

lemma andTry_simps [simp]: "andTry None f = None" "andTry (Some x) f = f x"
  by (simp_all add: andTry_def)

lemma andTry_Some: "andTry r f = Some y \<longleftrightarrow> (\<exists>x. r = Some x \<and> f x = Some y)"
  by (cases r) simp_all

lemma andTry_cong [fundef_cong]:
  "r = r' \<Longrightarrow> (\<And>x. r' = Some x \<Longrightarrow> f x = g x) \<Longrightarrow> andTry r f = andTry r' g"
  by (cases r') auto

definition numbered :: "string \<Rightarrow> nat \<Rightarrow> string" where
  "numbered name n = name @ decimal_text n"

function config_drives :: "JSONValue \<Rightarrow> VMDriveEntry list \<Rightarrow> VMDriveEntry list option" where
  "config_drives cfg tab =
     (let obj = json_object_get cfg (numbered ''drive'' (length tab)) in
      if json_is_undefined obj then Some tab
      else if length tab \<ge> MAX_DRIVE_DEVICE then None
      else
        andTry (vm_get_str obj ''file'') (\<lambda>filename.
        andTry (vm_get_str_opt obj ''device'') (\<lambda>device.
        config_drives cfg (tab @ [\<lparr>drive_device = device, drive_filename = filename\<rparr>]))))"
  by auto

termination
  by (relation "measure (\<lambda>(cfg, tab). MAX_DRIVE_DEVICE - length tab)") auto

function config_fs :: "JSONValue \<Rightarrow> VMFSEntry list \<Rightarrow> VMFSEntry list option" where
  "config_fs cfg tab =
     (let obj = json_object_get cfg (numbered ''fs'' (length tab)) in
      if json_is_undefined obj then Some tab
      else if length tab \<ge> MAX_DRIVE_DEVICE then None
      else
        andTry (vm_get_str obj ''file'') (\<lambda>filename.
        andTry (vm_get_str_opt obj ''tag'') (\<lambda>str.
        let tag = (case str of Some t \<Rightarrow> t
          | None \<Rightarrow> if length tab = 0 then ''/dev/root'' else numbered ''/dev/root'' (length tab)) in
        config_fs cfg (tab @ [\<lparr>fs_tag = tag, fs_filename = filename\<rparr>]))))"
  by auto

termination
  by (relation "measure (\<lambda>(cfg, tab). MAX_DRIVE_DEVICE - length tab)") auto

function config_eth :: "JSONValue \<Rightarrow> VMEthEntry list \<Rightarrow> VMEthEntry list option" where
  "config_eth cfg tab =
     (let obj = json_object_get cfg (numbered ''eth'' (length tab)) in
      if json_is_undefined obj then Some tab
      else if length tab \<ge> MAX_ETH_DEVICE then None
      else
        andTry (vm_get_str obj ''driver'') (\<lambda>driver.
        andTry (if driver = ''tap'' then map_option Some (vm_get_str obj ''ifname'') else Some None) (\<lambda>ifname.
        config_eth cfg (tab @ [\<lparr>eth_driver = driver, eth_ifname = ifname\<rparr>]))))"
  by auto

termination
  by (relation "measure (\<lambda>(cfg, tab). MAX_ETH_DEVICE - length tab)") (auto simp: not_le)

declare config_drives.simps [simp del] config_fs.simps [simp del] config_eth.simps [simp del]

definition set_filename :: "nat \<Rightarrow> string option \<Rightarrow> VirtMachineParams \<Rightarrow> VirtMachineParams" where
  "set_filename i str p =
     (case str of
        None \<Rightarrow> p
      | Some f \<Rightarrow> p\<lparr>vm_files := (vm_files p)[i := (vm_files p ! i)\<lparr>file_filename := Some f\<rparr>]\<rparr>)"

definition config_display :: "JSONValue \<Rightarrow> VirtMachineParams \<Rightarrow> VirtMachineParams option" where
  "config_display cfg p =
     (let p = p\<lparr>display_device := None\<rparr>; obj = json_object_get cfg ''display0'' in
      if json_is_undefined obj then Some p
      else
        andTry (vm_get_str obj ''device'') (\<lambda>device.
        andTry (vm_get_int obj ''width'') (\<lambda>width.
        andTry (vm_get_int obj ''height'') (\<lambda>height.
        andTry (vm_get_str_opt obj ''vga_bios'') (\<lambda>str.
        Some (set_filename VM_FILE_VGA_BIOS str
          (p\<lparr>display_device := Some device, vm_width := width, vm_height := height\<rparr>)))))))"

definition config_accel :: "JSONValue \<Rightarrow> VirtMachineParams \<Rightarrow> VirtMachineParams option" where
  "config_accel cfg p =
     andTry (vm_get_str_opt cfg ''accel'') (\<lambda>str.
     case str of
       None \<Rightarrow> Some p
     | Some s \<Rightarrow>
         if s = ''none'' then Some (p\<lparr>accel_enable := False\<rparr>)
         else if s = ''auto'' then Some (p\<lparr>accel_enable := True\<rparr>)
         else None)"

definition config_rtc :: "JSONValue \<Rightarrow> VirtMachineParams \<Rightarrow> VirtMachineParams option" where
  "config_rtc cfg p =
     (let el = json_object_get cfg ''rtc_local_time'' in
      if json_is_undefined el then Some p
      else (case el of JSON_BOOL b \<Rightarrow> Some (p\<lparr>rtc_local_time := b\<rparr>) | _ \<Rightarrow> None))"

text \<open>After the version and the machine: what is read into \<open>p\<close>.\<close>

definition config_machine :: "int \<Rightarrow> JSONValue \<Rightarrow> VirtMachineParams \<Rightarrow> VirtMachineParams option" where
  "config_machine gmtoff cfg p =
     andTry (vm_get_int cfg ''memory_size'') (\<lambda>val.
     let p = p\<lparr>ram_size := push_bit 20 (of_int val)\<rparr> in
     andTry (vm_get_str_opt cfg ''bios'') (\<lambda>str.
     let p = set_filename VM_FILE_BIOS str p in
     andTry (vm_get_str_opt cfg ''kernel'') (\<lambda>str.
     let p = set_filename VM_FILE_KERNEL str p in
     andTry (vm_get_str_opt cfg ''cmdline'') (\<lambda>str.
     let p = (case str of None \<Rightarrow> p | Some l \<Rightarrow> p\<lparr>cmdline := Some (cmdline_subst gmtoff l)\<rparr>) in
     andTry (config_drives cfg (tab_drive p)) (\<lambda>drives.
     andTry (config_fs cfg (tab_fs p)) (\<lambda>fs.
     andTry (config_eth cfg (tab_eth p)) (\<lambda>eth.
     andTry (config_display cfg (p\<lparr>tab_drive := drives, tab_fs := fs, tab_eth := eth\<rparr>)) (\<lambda>p.
     andTry (vm_get_str_opt cfg ''input_device'') (\<lambda>str.
     andTry (config_accel cfg (p\<lparr>input_device := str\<rparr>)) (\<lambda>p.
     config_rtc cfg p))))))))))"

definition virt_machine_parse_config :: "int \<Rightarrow> VirtMachineParams \<Rightarrow> string \<Rightarrow> nat \<Rightarrow> VirtMachineParams option" where
  "virt_machine_parse_config gmtoff p config_file_str len =
     andTry (json_parse_value_len config_file_str len) (\<lambda>cfg.
     if json_is_error cfg then None
     else
       andTry (vm_get_int cfg ''version'') (\<lambda>version.
       if version \<noteq> VM_CONFIG_VERSION then None
       else
         andTry (vm_get_str cfg ''machine'') (\<lambda>str.
         andTry (virt_machine_find_class str) (\<lambda>c.
         config_machine gmtoff cfg (class_set_defaults c (p\<lparr>machine_name := Some str, vmc := Some c\<rparr>))))))"

section \<open>Loading it\<close>

text \<open>
  The host: the contents of the files that can be opened in a mode, what a URL delivers before \<^verbatim>\<open>main\<close> goes on
  (\<open>None\<close>: nothing yet), the paths that pass the test for a directory, and the offset of its time zone.
\<close>

record host =
  h_open :: "string \<Rightarrow> string \<Rightarrow> u8 list option"
  h_wget :: "string \<Rightarrow> u8 list result option"
  h_is_dir :: "string \<Rightarrow> bool"
  h_gmtoff :: int

definition is_url :: "string \<Rightarrow> bool" where
  "is_url path \<longleftrightarrow> take 5 path = ''http:'' \<or> take 6 path = ''https:'' \<or> take 5 path = ''file:''"

definition load_file :: "host \<Rightarrow> string \<Rightarrow> u8 list result" where
  "load_file h filename = (case h_open h ''rb'' filename of None \<Rightarrow> Inl (Exit 1) | Some buf \<Rightarrow> Inr buf)"

text \<open>\<open>cb\<close> gets the contents; if they have not arrived, the state stays as it is.\<close>

definition config_load_file :: "host \<Rightarrow> string \<Rightarrow> (u8 list \<Rightarrow> 'p result) \<Rightarrow> 'p \<Rightarrow> 'p result" where
  "config_load_file h filename cb p =
     (if is_url filename then (case h_wget h filename of None \<Rightarrow> Inr p | Some r \<Rightarrow> andThen r cb)
      else andThen (load_file h filename) cb)"

function config_additional_file_load :: "host \<Rightarrow> nat \<Rightarrow> VirtMachineParams \<Rightarrow> VirtMachineParams result" where
  "config_additional_file_load h file_index p =
     (if file_index \<ge> VM_FILE_COUNT then Inr p
      else
        (case file_filename (vm_files p ! file_index) of
           None \<Rightarrow> config_additional_file_load h (file_index + 1) p
         | Some filename \<Rightarrow>
             config_load_file h (get_file_path (cfg_filename p) filename) (\<lambda>buf.
               config_additional_file_load h (file_index + 1)
                 (p\<lparr>vm_files := (vm_files p)[file_index := (vm_files p ! file_index)\<lparr>file_buf := buf\<rparr>]\<rparr>)) p))"
  by auto

termination
  by (relation "measure (\<lambda>(h, i, p). VM_FILE_COUNT - i)") auto

declare config_additional_file_load.simps [simp del]

definition config_file_loaded :: "host \<Rightarrow> VirtMachineParams \<Rightarrow> u8 list \<Rightarrow> VirtMachineParams result" where
  "config_file_loaded h p buf =
     (case virt_machine_parse_config (h_gmtoff h) p (map (\<lambda>b. char_of (unat b)) buf) (length buf) of
        None \<Rightarrow> Inl (Exit 1)
      | Some p \<Rightarrow> config_additional_file_load h 0 p)"

definition virt_machine_load_config_file :: "host \<Rightarrow> VirtMachineParams \<Rightarrow> string \<Rightarrow> VirtMachineParams result" where
  "virt_machine_load_config_file h p filename =
     (let p = p\<lparr>cfg_filename := Some filename\<rparr> in config_load_file h filename (config_file_loaded h p) p)"

section \<open>The devices of the emulator\<close>

primrec open_drives :: "host \<Rightarrow> VirtMachineParams \<Rightarrow> VMDriveEntry list \<Rightarrow> BlockDeviceFile list result" where
  "open_drives h p [] = Inr []"
| "open_drives h p (d # ds) =
     andThen (block_device_init (h_open h ''r+b'' (get_file_path (cfg_filename p) (drive_filename d))) BF_MODE_RW) (\<lambda>drive.
     andThen (open_drives h p ds) (\<lambda>drives. Inr (drive # drives)))"

primrec open_directories :: "host \<Rightarrow> VirtMachineParams \<Rightarrow> VMFSEntry list \<Rightarrow> unit result" where
  "open_directories h p [] = Inr ()"
| "open_directories h p (f # fs) =
     (if h_is_dir h (get_file_path (cfg_filename p) (fs_filename f)) then open_directories h p fs else Inl (Exit 1))"

text \<open>
  \<^verbatim>\<open>main\<close> up to the device: the amount of memory is fixed, the first drive is the disk. Without a drive its
  pointer is \<^verbatim>\<open>NULL\<close> and \<^verbatim>\<open>virtio_block_init\<close> calls through it.
\<close>

definition main_params :: "host \<Rightarrow> VirtMachineParams result" where
  "main_params h =
     andThen (virt_machine_load_config_file h virt_machine_set_defaults ''./temu/riscv64.cfg'') (\<lambda>p.
     let p = vm_add_cmdline [] (p\<lparr>ram_size := push_bit 20 512, rtc_real_time := True\<rparr>) in
     Inr p)"

definition temu_main :: "host \<Rightarrow> emu \<Rightarrow> bvm result" where
  "temu_main h e =
     andThen (main_params h) (\<lambda>p.
     andThen (open_drives h p (tab_drive p)) (\<lambda>drives.
     andThen (open_directories h p (tab_fs p)) (\<lambda>_.
     case drives of [] \<Rightarrow> Inl BadPointer | drive # _ \<Rightarrow> Inr (block_start e drive))))"

end
