(* ===== verification/Config_Spec.thy ===== *)
theory Config_Spec
  imports Json_Grammar Machine_Config
begin

text \<open>
  What a configuration file that is accepted holds, and how \<^verbatim>\<open>main\<close> starts from it; the file
  \<^verbatim>\<open>temu/riscv64.cfg\<close> of the repository, character by character.
\<close>

section \<open>The tables\<close>




text \<open>What the steps after the tables leave alone.\<close>

lemma set_filename_frame [simp]:
  "tab_drive (set_filename i str p) = tab_drive p" "tab_fs (set_filename i str p) = tab_fs p"
  "tab_eth (set_filename i str p) = tab_eth p" "length (vm_files (set_filename i str p)) = length (vm_files p)"
  "vmc (set_filename i str p) = vmc p" "machine_name (set_filename i str p) = machine_name p"
  "ram_size (set_filename i str p) = ram_size p"
  by (simp_all add: set_filename_def split: option.split)




section \<open>Starting\<close>

lemma get_undefined: "name \<notin> set (map fst props) \<Longrightarrow> json_object_get (JSON_OBJ props) name = JSON_UNDEFINED"
  by (simp add: json_object_get_def map_of_eq_None_iff [THEN iffD2] split: option.split)

lemma undefined_simps [simp]: "json_is_undefined JSON_UNDEFINED"
  by (simp add: json_is_undefined_def)

lemma get_str_defined: "vm_get_str obj name = Some str \<Longrightarrow> \<not> json_is_undefined (json_object_get obj name)"
  by (auto simp: vm_get_str_def vm_get_str2_def Let_def)

lemma decimal_digits [simp]: "decimal_text 0 = ''0''" "decimal_text (Suc 0) = ''1''"
  by code_simp+

text \<open>A configuration with one drive and no other devices and files.\<close>

abbreviation plain_names :: "string set" where
  "plain_names \<equiv> {''version'', ''machine'', ''memory_size'', ''cmdline'', ''drive0''}"

lemma absent:
  "set (map fst props) \<subseteq> plain_names \<Longrightarrow> name \<notin> plain_names \<Longrightarrow> json_object_get (JSON_OBJ props) name = JSON_UNDEFINED"
  by (rule get_undefined, erule contra_subsetD, assumption)

lemma absent_opt:
  assumes "set (map fst props) \<subseteq> plain_names" "name \<notin> plain_names"
  shows "vm_get_str_opt (JSON_OBJ props) name = Some None"
  unfolding vm_get_str_opt_def vm_get_str2_def Let_def absent [OF assms] by simp

lemma get_str_object: "vm_get_str obj name = Some str \<Longrightarrow> \<not> json_is_undefined obj"
  by (cases obj) (simp_all add: vm_get_str_def vm_get_str2_def Let_def json_object_get_def json_is_undefined_def)

lemma plain_tables:
  assumes "set (map fst props) \<subseteq> plain_names"
  shows "config_drives (JSON_OBJ props) [x] = Some [x]" "config_fs (JSON_OBJ props) [] = Some []"
    "config_eth (JSON_OBJ props) [] = Some []"
proof -
  note none = absent [OF assms, of "''drive1''"] absent [OF assms, of "''fs0''"] absent [OF assms, of "''eth0''"]
  show "config_drives (JSON_OBJ props) [x] = Some [x]" "config_fs (JSON_OBJ props) [] = Some []"
    "config_eth (JSON_OBJ props) [] = Some []"
    using none
    by (simp_all add: config_drives.simps [of _ "[x]"] config_fs.simps [of _ "[]"] config_eth.simps [of _ "[]"] numbered_def)
qed

lemma plain_drive:
  assumes "set (map fst props) \<subseteq> plain_names"
    and "vm_get_str (json_object_get (JSON_OBJ props) ''drive0'') ''file'' = Some F"
    and "vm_get_str_opt (json_object_get (JSON_OBJ props) ''drive0'') ''device'' = Some dev"
  shows "config_drives (JSON_OBJ props) [] = Some [\<lparr>drive_device = dev, drive_filename = F\<rparr>]"
  using get_str_object [OF assms(2)] plain_tables(1) [OF assms(1)] assms(2,3)
  by (simp add: config_drives.simps [of _ "[]"] numbered_def)

lemma plain_steps:
  assumes "set (map fst props) \<subseteq> plain_names"
  shows "config_display (JSON_OBJ props) p = Some (p\<lparr>display_device := None\<rparr>)"
    "config_accel (JSON_OBJ props) p = Some p" "config_rtc (JSON_OBJ props) p = Some p"
proof -
  show "config_display (JSON_OBJ props) p = Some (p\<lparr>display_device := None\<rparr>)"
    using absent [OF assms, of "''display0''"] by (simp add: config_display_def Let_def)
  show "config_accel (JSON_OBJ props) p = Some p"
    using absent_opt [OF assms, of "''accel''"] by (simp add: config_accel_def)
  show "config_rtc (JSON_OBJ props) p = Some p"
    using absent [OF assms, of "''rtc_local_time''"] by (simp add: config_rtc_def Let_def)
qed

lemma config_machine_plain:
  assumes "set (map fst props) \<subseteq> plain_names" "vm_get_int (JSON_OBJ props) ''memory_size'' = Some mb"
    and "vm_get_str_opt (JSON_OBJ props) ''cmdline'' = Some line"
    and "vm_get_str (json_object_get (JSON_OBJ props) ''drive0'') ''file'' = Some F"
    and "vm_get_str_opt (json_object_get (JSON_OBJ props) ''drive0'') ''device'' = Some dev"
    and "tab_drive p = []" "tab_fs p = []" "tab_eth p = []"
  shows "config_machine gmtoff (JSON_OBJ props) p = Some (p\<lparr>ram_size := push_bit 20 (of_int mb),
    cmdline := (case line of None \<Rightarrow> cmdline p | Some l \<Rightarrow> Some (cmdline_subst gmtoff l)),
    tab_drive := [\<lparr>drive_device = dev, drive_filename = F\<rparr>], display_device := None, input_device := None\<rparr>)"
proof -
  note opt = absent_opt [OF assms(1), of "''bios''"] absent_opt [OF assms(1), of "''kernel''"]
    absent_opt [OF assms(1), of "''input_device''"]
  have "vm_get_str_opt (JSON_OBJ props) ''bios'' = Some None" "vm_get_str_opt (JSON_OBJ props) ''kernel'' = Some None"
      "vm_get_str_opt (JSON_OBJ props) ''input_device'' = Some None"
    using opt by simp_all
  then show ?thesis
    using assms(2,3,6-8) plain_drive [OF assms(1,4,5)] plain_tables(2,3) [OF assms(1)] plain_steps [OF assms(1)]
    by (cases line) (simp_all add: config_machine_def Let_def set_filename_def)
qed

lemma main_params_eq:
  "main_params h = andThen (virt_machine_load_config_file h virt_machine_set_defaults ''./temu/riscv64.cfg'')
    (\<lambda>p. Inr (vm_add_cmdline [] (p\<lparr>ram_size := push_bit 20 512, rtc_real_time := True\<rparr>)))"
  by (simp add: main_params_def Let_def)

lemma add_cmdline_frame [simp]:
  "tab_drive (vm_add_cmdline line p) = tab_drive p" "tab_fs (vm_add_cmdline line p) = tab_fs p"
  "cfg_filename (vm_add_cmdline line p) = cfg_filename p" "ram_size (vm_add_cmdline line p) = ram_size p"
  by (simp_all add: vm_add_cmdline_def)

lemma no_additional_files:
  "list_all (\<lambda>f. file_filename f = None) (vm_files p) \<Longrightarrow> length (vm_files p) = VM_FILE_COUNT \<Longrightarrow>
    config_additional_file_load h i p = Inr p"
proof (induction h i p rule: config_additional_file_load.induct)
  case (1 h i p)
  show ?case
  proof (cases "VM_FILE_COUNT \<le> i")
    case False
    then have none: "file_filename (vm_files p ! i) = None" using 1(3,4) by (simp add: list_all_length)
    show ?thesis using False 1(1) [OF False none 1(3,4)] none by (simp add: config_additional_file_load.simps [of h i])
  qed (simp add: config_additional_file_load.simps)
qed

abbreviation file_text :: "u8 list \<Rightarrow> string" where
  "file_text buf \<equiv> map (\<lambda>b. char_of (unat b)) buf"

abbreviation main_defaults :: VirtMachineParams where
  "main_defaults \<equiv> virt_machine_set_defaults\<lparr>cfg_filename := Some ''./temu/riscv64.cfg''\<rparr>"

lemma load_config_eq:
  "virt_machine_load_config_file h virt_machine_set_defaults ''./temu/riscv64.cfg'' =
    (case h_open h ''rb'' ''./temu/riscv64.cfg'' of None \<Rightarrow> Inl (Exit 1) | Some buf \<Rightarrow>
      (case virt_machine_parse_config (h_gmtoff h) main_defaults (file_text buf) (length buf) of
        None \<Rightarrow> Inl (Exit 1) | Some p \<Rightarrow> config_additional_file_load h 0 p))"
  by (simp add: virt_machine_load_config_file_def config_load_file_def load_file_def is_url_def config_file_loaded_def
      split: option.split)

lemma set_defaults_frame [simp]:
  "tab_drive (class_set_defaults c p) = tab_drive p" "tab_fs (class_set_defaults c p) = tab_fs p"
  "tab_eth (class_set_defaults c p) = tab_eth p" "vm_files (class_set_defaults c p) = vm_files p"
  "vmc (class_set_defaults c p) = vmc p" "machine_name (class_set_defaults c p) = machine_name p"
  "cmdline (class_set_defaults c p) = cmdline p" "cfg_filename (class_set_defaults c p) = cfg_filename p"
  by (simp_all add: class_set_defaults_def split: VirtMachineClass.split)

lemma parse_config_Some:
  "virt_machine_parse_config gmtoff p text n = Some q \<longleftrightarrow>
    (\<exists>cfg str c. json_parse_value_len text n = Some cfg \<and> \<not> json_is_error cfg \<and>
      vm_get_int cfg ''version'' = Some VM_CONFIG_VERSION \<and> vm_get_str cfg ''machine'' = Some str \<and>
      virt_machine_find_class str = Some c \<and>
      config_machine gmtoff cfg (class_set_defaults c (p\<lparr>machine_name := Some str, vmc := Some c\<rparr>)) = Some q)"
proof -
  have cond: "(if b then None else r) = Some q \<longleftrightarrow> \<not> b \<and> r = Some q" for b and r :: "VirtMachineParams option" by simp
  show ?thesis unfolding virt_machine_parse_config_def andTry_Some cond by blast
qed

lemma defaults_tables [simp]:
  "tab_drive virt_machine_set_defaults = []" "tab_fs virt_machine_set_defaults = []" "tab_eth virt_machine_set_defaults = []"
  "length (vm_files virt_machine_set_defaults) = VM_FILE_COUNT" "cmdline virt_machine_set_defaults = None"
  "list_all (\<lambda>f. file_filename f = None) (vm_files virt_machine_set_defaults)"
  by (simp_all add: virt_machine_set_defaults_def list_all_length)

text \<open>The first class a list of names belongs to is the one that is found.\<close>

lemma main_plain:
  assumes "h_open h ''rb'' ''./temu/riscv64.cfg'' = Some buf"
    and "json_parse_value_len (file_text buf) (length buf) = Some (JSON_OBJ props)" "set (map fst props) \<subseteq> plain_names"
    and "vm_get_int (JSON_OBJ props) ''version'' = Some VM_CONFIG_VERSION"
    and "vm_get_str (JSON_OBJ props) ''machine'' = Some str" "virt_machine_find_class str = Some c"
    and "vm_get_int (JSON_OBJ props) ''memory_size'' = Some mb"
    and "vm_get_str_opt (JSON_OBJ props) ''cmdline'' = Some line"
    and "vm_get_str (json_object_get (JSON_OBJ props) ''drive0'') ''file'' = Some F"
    and "vm_get_str_opt (json_object_get (JSON_OBJ props) ''drive0'') ''device'' = Some dev"
  shows "\<exists>p. main_params h = Inr p \<and> vmc p = Some c \<and> machine_name p = Some str \<and> ram_size p = push_bit 20 512 \<and>
    cmdline p = Some ((case line of None \<Rightarrow> [] | Some l \<Rightarrow> cmdline_subst (h_gmtoff h) l) @ '' '') \<and>
    tab_drive p = [\<lparr>drive_device = dev, drive_filename = F\<rparr>] \<and> tab_fs p = [] \<and> tab_eth p = [] \<and>
    cfg_filename p = Some ''./temu/riscv64.cfg''"
proof -
  define p0 where "p0 = class_set_defaults c (main_defaults\<lparr>machine_name := Some str, vmc := Some c\<rparr>)"
  have p0: "tab_drive p0 = []" "tab_fs p0 = []" "tab_eth p0 = []" "vmc p0 = Some c" "machine_name p0 = Some str" "cmdline p0 = None"
      "list_all (\<lambda>f. file_filename f = None) (vm_files p0)" "length (vm_files p0) = VM_FILE_COUNT"
      "cfg_filename p0 = Some ''./temu/riscv64.cfg''"
    by (simp_all add: p0_def)
  define p1 where "p1 = p0\<lparr>ram_size := push_bit 20 (of_int mb),
    cmdline := (case line of None \<Rightarrow> cmdline p0 | Some l \<Rightarrow> Some (cmdline_subst (h_gmtoff h) l)),
    tab_drive := [\<lparr>drive_device = dev, drive_filename = F\<rparr>], display_device := None, input_device := None\<rparr>"
  have "config_machine (h_gmtoff h) (JSON_OBJ props) p0 = Some p1"
    unfolding p1_def by (rule config_machine_plain [OF assms(3,7-10) p0(1-3)])
  then have "virt_machine_parse_config (h_gmtoff h) main_defaults (file_text buf) (length buf) = Some p1"
    unfolding parse_config_Some using assms(2,4-6) by (auto simp: json_is_error_def p0_def)
  moreover have "config_additional_file_load h 0 p1 = Inr p1" by (rule no_additional_files) (simp_all add: p1_def p0(7,8))
  ultimately have "main_params h = Inr (vm_add_cmdline [] (p1\<lparr>ram_size := push_bit 20 512, rtc_real_time := True\<rparr>))"
    using assms(1) by (simp add: main_params_eq load_config_eq)
  then show ?thesis by (cases line) (simp_all add: vm_add_cmdline_def p1_def p0 peek_def)
qed

lemma open_drives_cases:
  "(\<exists>d \<in> set ds. h_open h ''r+b'' (get_file_path (cfg_filename p) (drive_filename d)) = None) \<and>
     open_drives h p ds = Inl (Exit 1) \<or>
   (\<forall>d \<in> set ds. h_open h ''r+b'' (get_file_path (cfg_filename p) (drive_filename d)) \<noteq> None) \<and>
     (\<exists>bs. open_drives h p ds = Inr bs \<and>
       list_all2 (\<lambda>d b. block_device_init (h_open h ''r+b'' (get_file_path (cfg_filename p) (drive_filename d))) BF_MODE_RW = Inr b) ds bs)"
proof (induction ds)
  case (Cons d ds)
  show ?case
  proof (cases "h_open h ''r+b'' (get_file_path (cfg_filename p) (drive_filename d))")
    case (Some c)
    then obtain b where b: "block_device_init (h_open h ''r+b'' (get_file_path (cfg_filename p) (drive_filename d))) BF_MODE_RW = Inr b"
      by (simp add: block_device_init_def)
    show ?thesis using Cons Some b by (auto simp: list_all2_Cons1)
  qed (simp add: block_device_init_def)
qed simp

lemma open_directories_eq:
  "open_directories h p fs =
    (if \<exists>f \<in> set fs. \<not> h_is_dir h (get_file_path (cfg_filename p) (fs_filename f)) then Inl (Exit 1) else Inr ())"
  by (induction fs) auto

lemma additional_frame:
  "config_additional_file_load h i p = Inr q \<Longrightarrow>
    tab_drive q = tab_drive p \<and> tab_fs q = tab_fs p \<and> cfg_filename q = cfg_filename p"
proof (induction h i p rule: config_additional_file_load.induct)
  case (1 h i p)
  show ?case
  proof (cases "VM_FILE_COUNT \<le> i")
    case True
    then show ?thesis using 1(3) by (simp add: config_additional_file_load.simps [of h i])
  next
    case False
    show ?thesis
    proof (cases "file_filename (vm_files p ! i)")
      case None
      then show ?thesis using 1(1) [OF False None] 1(3) False by (simp add: config_additional_file_load.simps [of h i])
    next
      case (Some F)
      have "q = p \<or> (\<exists>buf. config_additional_file_load h (i + 1)
          (p\<lparr>vm_files := (vm_files p)[i := (vm_files p ! i)\<lparr>file_buf := buf\<rparr>]\<rparr>) = Inr q)"
        using 1(3) Some False unfolding config_additional_file_load.simps [of h i p] config_load_file_def andThen_def
        by (auto split: if_splits option.splits sum.splits)
      then show ?thesis using 1(2) [OF False Some] by fastforce
    qed
  qed
qed

text \<open>\<^verbatim>\<open>main\<close> after the configuration is read.\<close>

lemma main_opens:
  assumes "main_params h = Inr q"
  shows "temu_main h e =
    (if (\<exists>d \<in> set (tab_drive q). h_open h ''r+b'' (get_file_path (cfg_filename q) (drive_filename d)) = None) \<or>
        (\<exists>f \<in> set (tab_fs q). \<not> h_is_dir h (get_file_path (cfg_filename q) (fs_filename f))) then Inl (Exit 1)
     else if tab_drive q = [] then Inl BadPointer
     else temu_start (h_open h ''r+b'' (get_file_path (cfg_filename q) (drive_filename (hd (tab_drive q))))) e)"
  using open_drives_cases [of "tab_drive q" h q]
proof (elim disjE conjE exE)
  fix bs assume *: "open_drives h q (tab_drive q) = Inr bs"
    "\<forall>d \<in> set (tab_drive q). h_open h ''r+b'' (get_file_path (cfg_filename q) (drive_filename d)) \<noteq> None"
    "list_all2 (\<lambda>d b. block_device_init (h_open h ''r+b'' (get_file_path (cfg_filename q) (drive_filename d))) BF_MODE_RW = Inr b)
      (tab_drive q) bs"
  have "temu_main h e = andThen (open_directories h q (tab_fs q))
      (\<lambda>_. case bs of [] \<Rightarrow> Inl BadPointer | drive # _ \<Rightarrow> Inr (block_start e drive))"
    by (simp add: temu_main_def assms *(1))
  then show ?thesis
    using *(2,3) by (cases "tab_drive q"; cases bs) (auto simp: open_directories_eq temu_start_def)
qed (auto simp: temu_main_def assms)

section \<open>A demonstration: the file of the repository\<close>

text \<open>The text of \<^verbatim>\<open>temu/riscv64.cfg\<close>, and a host that has files.\<close>

definition riscv64_cfg :: string where
  \<open>riscv64_cfg =
     ''/* VM configuration file */'' @ newline # 
     ''{'' @ newline # 
     ''    version: 1,'' @ newline # 
     ''    machine: "riscv64",'' @ newline # 
     ''    memory_size: 256,'' @ newline # 
     ''    cmdline: "console=hvc0 root=/dev/vda rw",'' @ newline # 
     ''//    drive0: { file: "/home/vithurson/buildroot-2019.02/output/images/rootfs.ext2" },'' @ newline # 
     ''//    drive0: { file: "../utils/rootfs/rootfs.ext2" },'' @ newline # 
     CHR 0x09 # ''drive0: { file: "/home/dean/rootfs_dummy.ext2" },'' @ newline # 
     ''}'' @ newline # []\<close>

lemma bytes_text: "file_text (map (\<lambda>c. of_nat (of_char c)) text) = text"
proof -
  have "of_char c < (256 :: nat)" for c :: char by simp
  then have "char_of (unat (of_nat (of_char c) :: u8)) = c" for c :: char
    by (simp add: unat_of_nat take_bit_nat_eq_self)
  then show ?thesis by (simp add: comp_def)
qed

definition demo_host :: "(string \<times> string) list \<Rightarrow> host" where
  "demo_host fs = \<lparr>h_open = (\<lambda>mode path. map_option (map (\<lambda>c. of_nat (of_char c))) (map_of fs path)),
    h_wget = (\<lambda>_. None), h_is_dir = (\<lambda>_. False), h_gmtoff = 0\<rparr>"

lemma demo_open [simp]: "h_open (demo_host fs) mode path = map_option (map (\<lambda>c. of_nat (of_char c))) (map_of fs path)"
  "h_gmtoff (demo_host fs) = 0"
  by (simp_all add: demo_host_def)

definition riscv64_props :: "(string \<times> JSONValue) list" where
  "riscv64_props =
    [(''version'', JSON_INT 1), (''machine'', JSON_STR ''riscv64''), (''memory_size'', JSON_INT 256),
     (''cmdline'', JSON_STR ''console=hvc0 root=/dev/vda rw''),
     (''drive0'', JSON_OBJ [(''file'', JSON_STR ''/home/dean/rootfs_dummy.ext2'')])]"

lemma riscv64_parsed: "json_parse_value_len riscv64_cfg (length riscv64_cfg) = Some (JSON_OBJ riscv64_props)"
  by code_simp

lemma riscv64_machine:
  "vm_get_int (JSON_OBJ riscv64_props) ''version'' = Some 1" "vm_get_str (JSON_OBJ riscv64_props) ''machine'' = Some ''riscv64''"
  "virt_machine_find_class ''riscv64'' = Some riscv_machine_class" "vm_get_int (JSON_OBJ riscv64_props) ''memory_size'' = Some 256"
  by code_simp+

lemma riscv64_accepted:
  "\<exists>p. virt_machine_parse_config 0 main_defaults riscv64_cfg (length riscv64_cfg) = Some p \<and>
    cfg_filename p = Some ''./temu/riscv64.cfg'' \<and> list_all (\<lambda>f. file_filename f = None) (vm_files p) \<and>
    length (vm_files p) = 3 \<and> tab_drive p = [\<lparr>drive_device = None, drive_filename = ''/home/dean/rootfs_dummy.ext2''\<rparr>]"
proof -
  have n: "set (map fst riscv64_props) \<subseteq> plain_names" by (simp add: riscv64_props_def)
  have v: "vm_get_str_opt (JSON_OBJ riscv64_props) ''cmdline'' = Some (Some ''console=hvc0 root=/dev/vda rw'')"
    "vm_get_str (json_object_get (JSON_OBJ riscv64_props) ''drive0'') ''file'' = Some ''/home/dean/rootfs_dummy.ext2''"
    "vm_get_str_opt (json_object_get (JSON_OBJ riscv64_props) ''drive0'') ''device'' = Some None"
    by code_simp+
  note m = config_machine_plain [OF n riscv64_machine(4) v, where gmtoff = 0 and
    p = "class_set_defaults riscv_machine_class (main_defaults\<lparr>machine_name := Some ''riscv64'', vmc := Some riscv_machine_class\<rparr>)"]
  have e: "\<not> json_is_error (JSON_OBJ riscv64_props)" by (simp add: json_is_error_def)
  show ?thesis
    unfolding parse_config_Some riscv64_parsed using e riscv64_machine(1-3) m by simp
qed

lemma demo_path:
  "get_file_path (Some ''./temu/riscv64.cfg'') ''/home/dean/rootfs_dummy.ext2'' = ''/home/dean/rootfs_dummy.ext2''"
  by code_simp

section \<open>Properties\<close>

text \<open>
  C28: what is written is read back: for each text that the grammar derives for a value, with any blanks, line comments
  and block comments around it and between its parts, the parser returns exactly this value. Of the properties
  with the same name the last one counts.
\<close>

theorem json_reads_grammar:
  assumes "blank w1" "value_text v t" "blank w2"
  shows "json_parse_value (w1 @ t @ w2) = Some v"
  using assms by (rule json_reads)

theorem json_reads_grammar_witness:
  "json_parse_value (''//a'' @ newline # ''[null,{b:true}]'') = Some (JSON_ARRAY [JSON_NULL, JSON_OBJ [(''b'', JSON_BOOL True)]])"
proof -
  have b: "blank []" by (rule blank.intros)
  have c: "blank (''//'' @ ''a'' @ newline # [])" by (rule blank.line [OF _ b]) simp
  have "members_text [(''b'', JSON_BOOL True)] ([] @ ''b'' @ [] @ '':'' @ [] @ ''true'' @ [])"
    using key_text.ident [of "CHR ''b''" "[]"]
    by (intro last_member b value_text_members_text_elements_text.true) (simp add: is_ident_first_def)
  from object [OF this] have o: "value_text (JSON_OBJ [(''b'', JSON_BOOL True)]) ''{b:true}''" by (simp add: props_of_def)
  have "elements_text [JSON_NULL, JSON_OBJ [(''b'', JSON_BOOL True)]] ([] @ ''null'' @ [] @ '','' @ [] @ ''{b:true}'' @ [])"
    by (intro element last_element b null o)
  from json_reads_grammar [OF c array [OF this] b] show ?thesis by simp
qed

text \<open>
  C29: on every text the parser ends, with a value that is well-formed at every level: strings fit the buffer of the code and hold no
  zero byte, numbers are those of a C \<^verbatim>\<open>int\<close>, an object has no property twice and none without a name, and
  nothing is undefined.
\<close>

theorem json_values_ok: "\<exists>v. json_parse_value p = Some v \<and> json_ok v"
  by (rule json_total)



text \<open>
  C31: if the configuration file is an accepted one with a single drive and no other device or file,
  \<^verbatim>\<open>main\<close> starts the machine of \<open>temu_start\<close> on the contents of that drive, whose name is taken relative to
  the configuration file; the memory is 512 MB whatever \<^verbatim>\<open>memory_size\<close> says, and the command line is the one of the file, its
  variables replaced, with a blank behind it.
\<close>

theorem config_boot:
  assumes "h_open h ''rb'' ''./temu/riscv64.cfg'' = Some buf"
    and "json_parse_value_len (file_text buf) (length buf) = Some (JSON_OBJ props)" "set (map fst props) \<subseteq> plain_names"
    and "vm_get_int (JSON_OBJ props) ''version'' = Some 1"
    and "vm_get_str (JSON_OBJ props) ''machine'' = Some str" "virt_machine_find_class str = Some c"
    and "vm_get_int (JSON_OBJ props) ''memory_size'' = Some mb"
    and "vm_get_str_opt (JSON_OBJ props) ''cmdline'' = Some line"
    and "vm_get_str (json_object_get (JSON_OBJ props) ''drive0'') ''file'' = Some F"
    and "vm_get_str_opt (json_object_get (JSON_OBJ props) ''drive0'') ''device'' = Some dev"
  shows "temu_main h e = temu_start (h_open h ''r+b'' (get_file_path (Some ''./temu/riscv64.cfg'') F)) e \<and>
    (\<exists>p. main_params h = Inr p \<and> vmc p = Some c \<and> ram_size p = push_bit 20 512 \<and>
      cmdline p = Some ((case line of None \<Rightarrow> [] | Some l \<Rightarrow> cmdline_subst (h_gmtoff h) l) @ '' ''))"
proof -
  obtain p where p: "main_params h = Inr p" "vmc p = Some c" "ram_size p = push_bit 20 512"
      "cmdline p = Some ((case line of None \<Rightarrow> [] | Some l \<Rightarrow> cmdline_subst (h_gmtoff h) l) @ '' '')"
      "tab_drive p = [\<lparr>drive_device = dev, drive_filename = F\<rparr>]" "tab_fs p = []"
      "cfg_filename p = Some ''./temu/riscv64.cfg''"
    using main_plain [OF assms] by blast
  have "temu_main h e = temu_start (h_open h ''r+b'' (get_file_path (Some ''./temu/riscv64.cfg'') F)) e"
    by (simp add: temu_main_def p temu_start_def andThen_def split: sum.split)
  then show ?thesis using p(1-4) by blast
qed

theorem config_boot_witness:
  "temu_main (demo_host [(''./temu/riscv64.cfg'', riscv64_cfg), (''/home/dean/rootfs_dummy.ext2'', ''disk'')]) (emu_init (\<lambda>_. 0) 0) =
    temu_start (Some [100, 105, 115, 107]) (emu_init (\<lambda>_. 0) 0)"
proof -
  let ?h = "demo_host [(''./temu/riscv64.cfg'', riscv64_cfg), (''/home/dean/rootfs_dummy.ext2'', ''disk'')]"
  let ?buf = "map (\<lambda>c. of_nat (of_char c)) riscv64_cfg :: u8 list"
  let ?drive = "json_object_get (JSON_OBJ riscv64_props) ''drive0''"
  have o: "h_open ?h ''rb'' ''./temu/riscv64.cfg'' = Some ?buf" by simp
  have j: "json_parse_value_len (file_text ?buf) (length ?buf) = Some (JSON_OBJ riscv64_props)"
    by (simp add: bytes_text riscv64_parsed del: map_map)
  have n: "set (map fst riscv64_props) \<subseteq> plain_names" by (simp add: riscv64_props_def)
  have v: "vm_get_str_opt (JSON_OBJ riscv64_props) ''cmdline'' = Some (Some ''console=hvc0 root=/dev/vda rw'')"
    "vm_get_str ?drive ''file'' = Some ''/home/dean/rootfs_dummy.ext2''" "vm_get_str_opt ?drive ''device'' = Some None"
    by code_simp+
  have "h_open ?h ''r+b'' ''/home/dean/rootfs_dummy.ext2'' = Some [100, 105, 115, 107]" by (simp add: of_char_def)
  then show ?thesis using config_boot [OF o j n riscv64_machine v, of "emu_init (\<lambda>_. 0) 0"] demo_path by simp
qed

text \<open>
  C32: \<^verbatim>\<open>main\<close> exits with status 1 if the configuration file cannot be opened, if it is not accepted, and if a drive or a
  directory it names cannot be used; and a configuration that is accepted with no drive makes it use a null pointer.
\<close>

theorem config_failures:
  "(h_open h ''rb'' ''./temu/riscv64.cfg'' = None \<longrightarrow> temu_main h e = Inl (Exit 1)) \<and>
   (\<forall>buf. h_open h ''rb'' ''./temu/riscv64.cfg'' = Some buf \<longrightarrow>
     (case virt_machine_parse_config (h_gmtoff h) main_defaults (file_text buf) (length buf) of
        None \<Rightarrow> temu_main h e = Inl (Exit 1)
      | Some p \<Rightarrow>
         (case config_additional_file_load h 0 p of
            Inl err \<Rightarrow> temu_main h e = Inl err
          | Inr _ \<Rightarrow> temu_main h e =
              (if (\<exists>d \<in> set (tab_drive p). h_open h ''r+b'' (get_file_path (cfg_filename p) (drive_filename d)) = None) \<or>
                  (\<exists>f \<in> set (tab_fs p). \<not> h_is_dir h (get_file_path (cfg_filename p) (fs_filename f))) then Inl (Exit 1)
               else if tab_drive p = [] then Inl BadPointer
               else temu_start (h_open h ''r+b'' (get_file_path (cfg_filename p) (drive_filename (hd (tab_drive p))))) e))))"
proof (cases "h_open h ''rb'' ''./temu/riscv64.cfg''")
  case (Some buf)
  show ?thesis
  proof (cases "virt_machine_parse_config (h_gmtoff h) main_defaults (file_text buf) (length buf)")
    case p: (Some p)
    show ?thesis
    proof (cases "config_additional_file_load h 0 p")
      case (Inr q)
      have m: "main_params h = Inr (vm_add_cmdline [] (q\<lparr>ram_size := push_bit 20 512, rtc_real_time := True\<rparr>))"
        using Some p Inr by (simp add: main_params_eq load_config_eq)
      show ?thesis unfolding main_opens [OF m] using additional_frame [OF Inr] Some p Inr by (cases "tab_drive p = []") auto
    qed (use Some p in \<open>simp add: temu_main_def main_params_eq load_config_eq\<close>)
  qed (use Some in \<open>simp add: temu_main_def main_params_eq load_config_eq\<close>)
qed (simp add: temu_main_def main_params_eq load_config_eq)

theorem config_failures_witness:
  "temu_main (demo_host []) (emu_init (\<lambda>_. 0) 0) = Inl (Exit 1) \<and>
   temu_main (demo_host [(''./temu/riscv64.cfg'', ''{'')]) (emu_init (\<lambda>_. 0) 0) = Inl (Exit 1) \<and>
   temu_main (demo_host [(''./temu/riscv64.cfg'', riscv64_cfg)]) (emu_init (\<lambda>_. 0) 0) = Inl (Exit 1)"
proof (intro conjI)
  show "temu_main (demo_host []) (emu_init (\<lambda>_. 0) 0) = Inl (Exit 1)" using config_failures [of "demo_host []" "emu_init (\<lambda>_. 0) 0"] by simp
  let ?h = "demo_host [(''./temu/riscv64.cfg'', ''{'')]" and ?buf = "map (\<lambda>c. of_nat (of_char c)) ''{'' :: u8 list"
  have o: "h_open ?h ''rb'' ''./temu/riscv64.cfg'' = Some ?buf" by simp
  have j: "virt_machine_parse_config 0 main_defaults ''{'' (length ?buf) = None" by code_simp
  show "temu_main ?h (emu_init (\<lambda>_. 0) 0) = Inl (Exit 1)"
    using config_failures [of ?h "emu_init (\<lambda>_. 0) 0", THEN conjunct2, rule_format, OF o] unfolding bytes_text demo_open j by simp
next
  let ?h = "demo_host [(''./temu/riscv64.cfg'', riscv64_cfg)]" and ?buf = "map (\<lambda>c. of_nat (of_char c)) riscv64_cfg :: u8 list"
  have o: "h_open ?h ''rb'' ''./temu/riscv64.cfg'' = Some ?buf" by simp
  obtain p where p: "virt_machine_parse_config 0 main_defaults riscv64_cfg (length riscv64_cfg) = Some p"
      "cfg_filename p = Some ''./temu/riscv64.cfg''" "list_all (\<lambda>f. file_filename f = None) (vm_files p)" "length (vm_files p) = 3"
      "tab_drive p = [\<lparr>drive_device = None, drive_filename = ''/home/dean/rootfs_dummy.ext2''\<rparr>]"
    using riscv64_accepted by blast
  show "temu_main ?h (emu_init (\<lambda>_. 0) 0) = Inl (Exit 1)"
    using config_failures [of ?h "emu_init (\<lambda>_. 0) 0", THEN conjunct2, rule_format, OF o] no_additional_files [OF p(3,4), of ?h 0] demo_path
    unfolding bytes_text demo_open length_map p(1) by (simp add: p)
qed

end
