(* ===== verification/Spec2Isabelle.thy ===== *)
theory Spec2Isabelle
  imports Temu_Spec P9_Spec Config_Spec
begin

text \<open>
  Verification of the RISC-V emulator (\<^verbatim>\<open>src/emu.cpp\<close>, \<^verbatim>\<open>src/emu.h\<close>, \<^verbatim>\<open>src/csr_file.h\<close>), for the build
  without \<^verbatim>\<open>TEMU\<close> and for the one with it, which connects a VirtIO block device, and of the VirtIO
  devices of \<^verbatim>\<open>src/temu/virtio.c\<close> with the disk file of \<^verbatim>\<open>src/temu/temu.c\<close>, and of the configuration
  file that \<^verbatim>\<open>src/temu/machine.c\<close> reads with the parser of \<^verbatim>\<open>src/temu/json.c\<close>.

  \<^bold>\<open>The program.\<close> \<^verbatim>\<open>emu.cpp\<close> is one \<^verbatim>\<open>main\<close>: it loads a hex image into a vector of \<open>2 ^ 28\<close> 64-bit
  words and then runs a loop; an iteration updates the clock, translates \<^verbatim>\<open>PC\<close>, fetches, decodes and
  executes one RV64IMA instruction, and looks for interrupts and exceptions. \<^verbatim>\<open>emu.h\<close> holds the global
  state, the byte-lane helpers and the arithmetic helpers; \<^verbatim>\<open>csr_file.h\<close> the CSR structs, \<^verbatim>\<open>csr_read\<close>
  and \<^verbatim>\<open>csr_write\<close>, the devices, the trap entry and the Sv39 translation. C++ statements on the globals
  are modelled as functions on the record \<open>emu\<close>; whatever ends the process (\<^verbatim>\<open>exit(n)\<close>, leaving the
  loop, \<^verbatim>\<open>out_of_range\<close> of a vector, a function that ends without \<^verbatim>\<open>return\<close>) is an error value of type
  \<open>halt\<close>, and \<open>andThen\<close> sequences what may end the process. Machine integers are words of their width;
  promotions and truncations of the source are written out.

  \<^bold>\<open>The theories\<close>, in the order of their imports:
  \<^item> \<^verbatim>\<open>Prelude\<close>: word types, \<open>halt\<close>, \<open>result\<close> and \<open>andThen\<close>, the memory vector with its range check,
    bit-field lemmas, the collections \<open>result_simps\<close> and friends.
  \<^item> \<^verbatim>\<open>Byte_Lanes\<close>: \<^verbatim>\<open>store_byte\<close> to \<^verbatim>\<open>load_word\<close> of \<^verbatim>\<open>emu.h\<close> as bit-field updates, and their
    reading as bytes.
  \<^item> \<^verbatim>\<open>Arith\<close>: \<^verbatim>\<open>sign_extend\<close>, \<^verbatim>\<open>divi\<close>, \<^verbatim>\<open>divi32\<close> (with the comparison in doubles), \<^verbatim>\<open>signed_value\<close>.
  \<^item> \<^verbatim>\<open>CSR_File\<close>: the CSR structs; \<^verbatim>\<open>read_reg\<close> and \<^verbatim>\<open>write_reg\<close> are inverse on well-formed fields.
  \<^item> \<^verbatim>\<open>Machine\<close>: the record \<open>emu\<close> of the global state and of the locals of \<^verbatim>\<open>main\<close> that outlive an
    iteration, the memory map, the initial state, the invariant \<open>csr_ok\<close>.
  \<^item> \<^verbatim>\<open>CSR_Access\<close>: \<^verbatim>\<open>csr_read\<close> and \<^verbatim>\<open>csr_write\<close>.
  \<^item> \<^verbatim>\<open>Devices\<close>: CLINT, PLIC, and the RAM accessors \<^verbatim>\<open>mem_read8\<close> to \<^verbatim>\<open>mem_write32\<close>, which
    implement the locale \<open>ram_port\<close> of a byte memory.
  \<^item> \<^verbatim>\<open>Trap\<close>: delegation, exception and interrupt entry; the locale \<open>csr_invariant\<close>, a predicate every
    operation on the CSR file keeps.
  \<^item> \<^verbatim>\<open>MMU\<close>: \<^verbatim>\<open>translate\<close>, equal to a recursive walk \<open>sv39_walk\<close> followed by a permission test.
  \<^item> \<^verbatim>\<open>Decode\<close>, \<^verbatim>\<open>ALU\<close>, \<^verbatim>\<open>Load_Store\<close>, \<^verbatim>\<open>Atomics\<close>, \<^verbatim>\<open>System\<close>: the decoder and the cases of
    \<^verbatim>\<open>switch(opcode)\<close>, with reference semantics of the instructions (\<open>isa_rop\<close>, \<open>isa_iop\<close>, \<open>isa_amo\<close>)
    and the equivalence of the code with them.
  \<^item> \<^verbatim>\<open>Step\<close>: the loader, one iteration (\<open>step\<close>), runs (\<open>run\<close> and the inductive \<open>steps\<close>), and the
    locale \<open>loop_invariant\<close>: a \<open>csr_invariant\<close> that the clock keeps holds in every reachable state.
  \<^item> \<^verbatim>\<open>Virtio_Queue\<close>: the device record, access to guest RAM through \<^verbatim>\<open>mem_read8\<close> and friends,
    descriptor chains, \<^verbatim>\<open>memcpy_to_from_queue\<close>, the used ring, \<^verbatim>\<open>get_desc_rw_size\<close>, \<^verbatim>\<open>queue_notify\<close>; copying
    by pages is copying by bytes.
  \<^item> \<^verbatim>\<open>Virtio_Chain\<close>, \<^verbatim>\<open>Virtio_Copy\<close>: the inductive \<open>chain\<close> of descriptors, the sizes of a chain, the
    chains on which the loops do not end; a gather returns a slice of the concatenated buffers, a scatter
    replaces one (\<open>splice\<close>) and leaves every other byte of RAM alone.
  \<^item> \<^verbatim>\<open>Virtio_Ring\<close>: what \<^verbatim>\<open>virtio_consume_desc\<close> writes; the notification loop as a step relation
    \<open>serves\<close>; the locales \<open>queue_device\<close> (what the queue code relies on of a device) and \<open>eager_device\<close>
    (a device that takes every request), in which the loop is shown to end and to drain the queue.
  \<^item> \<^verbatim>\<open>Virtio_MMIO\<close>: the registers of the MMIO transport and their invariant \<open>device_ok\<close>, kept by every
    register write for every \<open>queue_device\<close>.
  \<^item> \<^verbatim>\<open>Block_File\<close>: the disk file of \<^verbatim>\<open>temu.c\<close> in its three modes; it implements the locale
    \<open>sector_store\<close>, an array of sectors.
  \<^item> \<^verbatim>\<open>Virtio_Serve\<close>: what the devices share: the answer to a chain, the next chain of a queue of
    their own, well-formed requests (\<open>request_ok\<close>) and their answers (\<open>answered\<close>); the locale \<open>bus_device\<close>,
    a \<open>queue_device\<close> that touches nothing of the hart but RAM and its line.
  \<^item> \<^verbatim>\<open>Virtio_Block\<close>: the block device, which is an \<open>eager_device\<close> and a \<open>bus_device\<close>; the states it
    reaches (\<open>device_reach\<close>), and what a well-formed read or write request does.
  \<^item> \<^verbatim>\<open>Virtio_Spec\<close>: the properties of the block device and a concrete guest memory to try them on.
  \<^item> \<^verbatim>\<open>Temu_Loop\<close>: the main loop of the \<^verbatim>\<open>TEMU\<close> build, with the device on the bus; it simulates the
    other loop, and the locale \<open>temu_invariant\<close> carries the invariants of the CSR file over to it.
  \<^item> \<^verbatim>\<open>Temu_Spec\<close>: a guest's store, the device's answer and the interrupt in one iteration.
  \<^item> \<^verbatim>\<open>Virtio_PCI\<close>: the PCI transport, register by register equal to the MMIO transport.
  \<^item> \<^verbatim>\<open>Virtio_Net\<close>, \<^verbatim>\<open>Virtio_Input\<close>: the network, console and input devices, each an
    \<open>eager_device\<close> and a \<open>bus_device\<close>; \<^verbatim>\<open>Virtio_Devices\<close>: the states they reach on either bus
    (\<open>io_reach\<close>) and their properties.
  \<^item> \<^verbatim>\<open>Virtio_Short\<close>: reads past the end of a request fail. \<^verbatim>\<open>P9_Message\<close>: \<^verbatim>\<open>marshall\<close> and
    \<^verbatim>\<open>unmarshall\<close> of the 9P messages; reading from a chain is parsing its bytes. \<^verbatim>\<open>P9_Device\<close>, \<^verbatim>\<open>Virtio_9P\<close>: the
    9P device over a file system that is a record of functions (\<open>FSDevice\<close>), one definition for each request.
    \<^verbatim>\<open>P9_Rules\<close>: a calculus of weakest preconditions for the requests, the table of files as a map, the
    locale \<open>opaque_device\<close> (a device that keeps a property of its own state), the contracts of the device.
    \<^verbatim>\<open>P9_Spec\<close>: every request is answered, malformed ones with an error; a read, on a concrete guest.
  \<^item> \<^verbatim>\<open>Json\<close>: the parser of \<^verbatim>\<open>json.c\<close>, over texts as strings. \<^verbatim>\<open>Json_Text\<close>: what every operation leaves
    of a text, from which follows that the fuel is enough and that more gives the same. \<^verbatim>\<open>Json_Grammar\<close>: the values it returns are
    well-formed (\<open>json_ok\<close>), and it reads every text of a grammar (\<open>value_text\<close>).
  \<^item> \<^verbatim>\<open>Machine_Config\<close>: the parameters of a machine, the reading of a configuration into them, the loading of
    its files, and \<^verbatim>\<open>main\<close> of the \<^verbatim>\<open>TEMU\<close> build up to its loop (\<open>temu_main\<close>), over a record of functions for the
    files of the host (\<open>host\<close>). \<^verbatim>\<open>Config_Spec\<close>: the bounds of its tables, how the emulator starts and
    fails to start, on the file \<^verbatim>\<open>temu/riscv64.cfg\<close> of the repository.
  \<^item> This theory: iterations end to end, against reference semantics of whole instructions, and the
    properties that need several components.

  \<^bold>\<open>Bounds.\<close> Only the JSON parser has fuel, since its loops call it: \<open>2 * length p + 1\<close> for a text \<open>p\<close>, which
  \<open>parse_total\<close> shows to be enough (every call takes a character, or ends the loop it is in). In the emulator the loops of the source are a shift loop with a
  bounded count (primitive recursion), the loader (recursion on its lines) and the main loop, of which
  \<open>step\<close> is one iteration and \<open>run\<close> is given one environment per iteration. In the device the loops over
  descriptors and over the available ring are \<^theory_text>\<open>partial_function (option)\<close>, so that \<open>None\<close> means that the
  loop does not end: that is shown to happen on a circle of descriptors, and to be the only way in which
  a notification does not return. What the program receives from outside (clock, \<^verbatim>\<open>getchar\<close>, the value of
  a call that ends without \<^verbatim>\<open>return\<close>) is the record \<open>env\<close>; the files, the
  directories and the time zone of the host are the record \<open>host\<close>; what \<^verbatim>\<open>malloc\<close> returns is an argument of the
  devices, and so are the back ends they serve (\<^verbatim>\<open>EthernetDevice\<close>, \<^verbatim>\<open>CharacterDevice\<close>, \<^verbatim>\<open>FSDevice\<close>).

  \<^bold>\<open>Not modelled.\<close> The conversion of the ELF image by an external tool and the opening of the hex
  file (I/O); the messages the emulator prints, apart from the guest's console output; the
  \<^verbatim>\<open>DEBUG\<close> output; in the \<^verbatim>\<open>TEMU\<close> build, the console that \<^verbatim>\<open>main\<close> opens and never
  uses, and the file systems behind the directories it opens; the transfer of a file named by a URL (what arrives is a
  field of \<open>host\<close>); the registration of devices on a PCI bus; the rest of TinyEMU, which it links and does not call; the experimental copy
  under \<^verbatim>\<open>src/ramtest\<close>.
\<close>

section \<open>A whole iteration\<close>

text \<open>Every instruction sees \<^verbatim>\<open>x0\<close> as zero.\<close>

abbreviation regs :: "emu \<Rightarrow> u64 \<Rightarrow> u64" where
  "regs s \<equiv> (reg_file s)(0 := 0)"



lemma imm11_0_take_bit: "take_bit 12 (f_imm11_0 (decode w)) = f_imm11_0 (decode w)"
  by (simp add: decode_slices)


lemma step_quiet:
  assumes "fetches e s ins" "exec e ins (issue (tick e s)) = Inr (Fall s1)"
    and "csrs s1 = csrs (tick e s)" "memory s1 = memory (tick e s)" "faults s1 = faults s"
    and "quiet (tick e s)"
  shows "step e s = (if PC s1 = PC s then Inl Break else Inr (refresh s1))"
proof -
  have "quiet s1" using assms(6) quiet_cong [of s1 "tick e s"] assms(3-5) by (simp add: tick_simps)
  then show ?thesis using assms(1,2) by (auto simp: step_fetches finish_quiet)
qed

section \<open>Control transfers\<close>

text \<open>
  The reference semantics of jumps and branches: the next instruction, and whether the return
  address goes to \<^verbatim>\<open>rd\<close>.
\<close>

definition isa_taken :: "u64 \<Rightarrow> u64 \<Rightarrow> u64 \<Rightarrow> bool option" where
  "isa_taken func3 a b =
     (if func3 = 0 then Some (a = b) else if func3 = 1 then Some (a \<noteq> b)
      else if func3 = 4 then Some (a <s b) else if func3 = 5 then Some (b \<le>s a)
      else if func3 = 6 then Some (a < b) else if func3 = 7 then Some (b \<le> a) else None)"

definition isa_transfer :: "u64 \<Rightarrow> u64 \<Rightarrow> (u64 \<Rightarrow> u64) \<Rightarrow> (u64 \<times> bool) option" where
  "isa_transfer ins pc r =
     (let f = decode ins; a = r (f_rs1 f); b = r (f_rs2 f) in
      case f_opcode f of
        Some jump \<Rightarrow> Some (pc + signed_take_bit 20 (f_imm_j f), True)
      | Some jumpr \<Rightarrow> Some ((a + signed_take_bit 11 (f_imm11_0 f)) AND NOT 1, True)
      | Some cjump \<Rightarrow> map_option (\<lambda>t. (pc + (if t then signed_take_bit 12 (f_imm_b f) else 4), False))
          (isa_taken (f_func3 f) a b)
      | _ \<Rightarrow> None)"

lemma branch_cond_isa: "isa_taken func3 a b = Some t \<Longrightarrow> branch_cond func3 a b old = t"
  by (simp add: isa_taken_def branch_cond_def signed_value_sint word_sless_alt word_sle_eq
      split: if_split_asm)

lemma fld_narrow: "pos + len \<le> n \<Longrightarrow> take_bit n (fld pos len v) = fld pos len v"
  by (rule bit_word_eqI) (auto simp: bit_simps)

lemma sign_extend_imms:
  "sign_extend (f_imm_j (decode w)) 21 = signed_take_bit 20 (f_imm_j (decode w))"
  "sign_extend (f_imm_b (decode w)) 13 = signed_take_bit 12 (f_imm_b (decode w))"
  "sign_extend (f_imm11_0 (decode w)) 12 = signed_take_bit 11 (f_imm11_0 (decode w))"
proof -
  have "take_bit 21 (f_imm_j (decode w)) = f_imm_j (decode w)"
    "take_bit 13 (f_imm_b (decode w)) = f_imm_b (decode w)"
    unfolding imm_j_or imm_b_or take_bit_or by (simp_all only: fld_narrow le_refl add_le_mono arith_simps)
  then show "sign_extend (f_imm_j (decode w)) 21 = signed_take_bit 20 (f_imm_j (decode w))"
    "sign_extend (f_imm_b (decode w)) 13 = signed_take_bit 12 (f_imm_b (decode w))"
    "sign_extend (f_imm11_0 (decode w)) 12 = signed_take_bit 11 (f_imm11_0 (decode w))"
    by (simp_all add: sign_extend_eq imm11_0_take_bit)
qed

lemma exec_transfer:
  assumes "isa_transfer ins (PC s - 4) (reg_file s) = Some (target, link)"
  shows "\<exists>b. exec e ins s = Inr (Fall (s\<lparr>PC := target, branch := b,
    reg_file := if link then (reg_file s)(f_rd (decode ins) := PC s) else reg_file s\<rparr>))"
proof -
  have m2: "(0xFFFFFFFFFFFFFFFE :: u64) = NOT 1" by simp
  consider (jump) "f_opcode (decode ins) = Some jump" | (jumpr) "f_opcode (decode ins) = Some jumpr"
    | (cjump) "f_opcode (decode ins) = Some cjump"
    using assms unfolding isa_transfer_def Let_def by (cases "f_opcode (decode ins)")
      (simp, rename_tac oc, case_tac oc, simp_all)
  then show ?thesis
  proof cases
    case jump
    then show ?thesis
      using assms by (intro exI [of _ "branch s"]) (simp add: exec_def isa_transfer_def Let_def sign_extend_imms)
  next
    case jumpr
    then show ?thesis
      using assms
      by (intro exI [of _ "branch s"]) (simp add: exec_def isa_transfer_def Let_def sign_extend_imms m2)
  next
    case cjump
    let ?f = "decode ins"
    from cjump assms obtain t
      where t: "isa_taken (f_func3 ?f) (reg_file s (f_rs1 ?f)) (reg_file s (f_rs2 ?f)) = Some t"
        and res: "target = PC s - 4 + (if t then signed_take_bit 12 (f_imm_b ?f) else 4)" "\<not> link"
      by (auto simp: isa_transfer_def Let_def)
    show ?thesis
      using cjump res
      by (intro exI [of _ t]) (simp add: exec_def Let_def branch_cond_isa [OF t] sign_extend_imms)
  qed
qed

section \<open>Exceptions and interrupts at the end of an iteration\<close>




section \<open>The loader and the fetch\<close>

lemma of_nat_half:
  assumes "n < 2 ^ 32"
  shows "(of_nat n :: u64) div 2 = of_nat (n div 2)" "(of_nat n :: u64) mod 2 = 0 \<longleftrightarrow> even n"
proof -
  have n: "unat (of_nat n :: u64) = n" "unat (of_nat (n div 2) :: u64) = n div 2"
    using assms by (simp_all add: unsigned_of_nat take_bit_nat_eq_self_iff)
  then show "(of_nat n :: u64) div 2 = of_nat (n div 2)" by (simp add: word_unat_eq_iff unat_div)
  have "(of_nat n :: u64) mod 2 = 0 \<longleftrightarrow> unat ((of_nat n :: u64) mod 2) = 0" by (simp add: unat_eq_0)
  also have "\<dots> \<longleftrightarrow> even n" by (simp add: unat_mod n(1) even_iff_mod_2_eq_zero)
  finally show "(of_nat n :: u64) mod 2 = 0 \<longleftrightarrow> even n" .
qed

lemma halves:
  assumes "take_bit 32 (w :: u64) = w" "take_bit 32 (v :: u64) = v"
  shows "take_bit 32 (w OR push_bit 32 v) = w" "drop_bit 32 (w OR push_bit 32 v) = v"
proof -
  have hi: "bit w n \<Longrightarrow> n < 32" "bit v n \<Longrightarrow> n < 32" for n
    using assms by (metis bit_take_bit_iff)+
  show "take_bit 32 (w OR push_bit 32 v) = w"
    by (rule bit_word_eqI) (auto simp: bit_simps dest: hi)
  show "drop_bit 32 (w OR push_bit 32 v) = v"
    by (rule bit_word_eqI) (auto simp: bit_simps dest: hi)
qed

lemma load_lines_fetch:
  assumes "n + length ws \<le> 2 ^ 29" "\<forall>w \<in> set ws. take_bit 32 w = w"
    and "odd n \<Longrightarrow> take_bit 32 (m (of_nat (n div 2))) = m (of_nat (n div 2))"
  shows "\<exists>m'. load_lines (of_nat n) ws m = Inr m' \<and>
    (\<forall>k < length ws. getINST (of_nat (n + k)) m' = Inr (ws ! k)) \<and>
    (\<forall>j < n div 2. m' (of_nat j) = m (of_nat j)) \<and>
    (odd n \<longrightarrow> take_bit 32 (m' (of_nat (n div 2))) = m (of_nat (n div 2)))"
  using assms
proof (induction ws arbitrary: n m)
  case Nil
  then show ?case by simp
next
  case (Cons w ws)
  define h where "h = (of_nat (n div 2) :: u64)"
  define m1 where "m1 = m(h := if even n then w else m h OR push_bit 32 w)"
  have n: "n < 2 ^ 32" "n div 2 < 2 ^ 28" using Cons.prems(1) by auto
  then have h: "h < MEM_WORDS"
    by (simp add: h_def MEM_WORDS_def word_less_nat_alt unsigned_of_nat take_bit_nat_eq_self)
  have w: "take_bit 32 w = w" using Cons.prems(2) by simp
  have first: "load_lines (of_nat n) (w # ws) m = load_lines (of_nat (Suc n)) ws m1"
    using h by (auto simp: of_nat_half [OF n(1)] h_def [symmetric] mem_put_def mem_at_def m1_def add.commute)
  have "\<exists>m'. load_lines (of_nat (Suc n)) ws m1 = Inr m' \<and>
    (\<forall>k < length ws. getINST (of_nat (Suc n + k)) m' = Inr (ws ! k)) \<and>
    (\<forall>j < Suc n div 2. m' (of_nat j) = m1 (of_nat j)) \<and>
    (odd (Suc n) \<longrightarrow> take_bit 32 (m' (of_nat (Suc n div 2))) = m1 (of_nat (Suc n div 2)))"
    by (rule Cons.IH) (use Cons.prems w in \<open>auto simp: m1_def h_def\<close>)
  then obtain m' where m': "load_lines (of_nat (Suc n)) ws m1 = Inr m'"
    "\<And>k. k < length ws \<Longrightarrow> getINST (of_nat (Suc n + k)) m' = Inr (ws ! k)"
    "\<And>j. j < Suc n div 2 \<Longrightarrow> m' (of_nat j) = m1 (of_nat j)"
    "even n \<Longrightarrow> take_bit 32 (m' h) = w"
    by (auto simp: m1_def h_def)
  have same: "m1 (of_nat j) = m (of_nat j)" if "j < n div 2" for j
  proof -
    have "unat (of_nat j :: u64) \<noteq> unat h"
      using that n by (simp add: h_def unsigned_of_nat take_bit_nat_eq_self)
    then show ?thesis by (auto simp: m1_def)
  qed
  have low: "take_bit 32 (m' h) = (if even n then w else m h)" "odd n \<Longrightarrow> drop_bit 32 (m' h) = w"
  proof -
    have "m' h = m h OR push_bit 32 w" if "odd n"
      using m'(3) [of "n div 2"] that by (simp add: h_def [symmetric] m1_def)
    then show "take_bit 32 (m' h) = (if even n then w else m h)" "odd n \<Longrightarrow> drop_bit 32 (m' h) = w"
      using m'(4) halves [OF _ w] Cons.prems(3) by (auto simp: h_def)
  qed
  have get: "getINST (of_nat n) m' = Inr w"
    using h low by (simp add: getINST_def of_nat_half [OF n(1)] h_def [symmetric] mem_at_def MASK32_and)
  show ?case
  proof (intro exI [of _ m'] conjI allI impI)
    show "load_lines (of_nat n) (w # ws) m = Inr m'" using first m'(1) by simp
    show "getINST (of_nat (n + k)) m' = Inr ((w # ws) ! k)" if "k < length (w # ws)" for k
      using that get m'(2) by (cases k) simp_all
    show "m' (of_nat j) = m (of_nat j)" if "j < n div 2" for j
      using m'(3) [of j] same [OF that] that by simp
    show "take_bit 32 (m' (of_nat (n div 2))) = m (of_nat (n div 2))" if "odd n"
      using low(1) that by (simp add: h_def)
  qed
qed

section \<open>Machines to try an iteration on\<close>

text \<open>No instruction of the zero program is known, so an iteration only advances \<^verbatim>\<open>PC\<close>.\<close>

lemma zero_program_step: "\<exists>s. step (env_demo 0) (emu_init (\<lambda>_. 0) 0) = Inr s"
proof -
  let ?s = "emu_init (\<lambda>_. 0) 0"
  have s: "PC ?s = DRAM_BASE" "cp ?s = MMODE" "sa_MODE (satp (csrs ?s)) = 0"
    by (simp_all add: emu_init_def csr_init_def satp_init_def)
  have "ram_value (memory (tick (env_demo 0) ?s)) DRAM_BASE 4 = 0"
    by (simp add: tick_simps ram_value_def ram_index_def get_field_def) (simp add: emu_init_def)
  then have f: "fetches (env_demo 0) ?s 0"
    using fetches_bare [of ?s "env_demo 0"] s by (simp add: lane_def)
  have ex: "exec (env_demo 0) 0 (issue (tick (env_demo 0) ?s)) = Inr (Fall (issue (tick (env_demo 0) ?s)))"
    by (simp add: exec_def Let_def decode_slices opcode_of_def)
  have q: "quiet (tick (env_demo 0) ?s)"
    by (simp add: quiet_def pending_interrupt_def refresh_def tick_def Let_def)
      (simp add: emu_init_def csr_init_def mie_init_def)
  show ?thesis using step_quiet [OF f ex _ _ _ q] by (simp add: issue_simps tick_simps)
qed







text \<open>\<^verbatim>\<open>jal x0, 0\<close> and a floating-point load at the reset address.\<close>

definition jal_demo :: emu where
  "jal_demo = bare_demo\<lparr>memory := (\<lambda>_. 0)(0 := 0x6F)\<rparr>"


text \<open>A machine in supervisor mode whose timer has expired, and the same with interrupts masked.\<close>

definition timer_demo :: emu where
  "timer_demo = bare_demo\<lparr>memory := (\<lambda>_. 0), cp := SMODE,
     csrs := (csrs bare_demo)\<lparr>mideleg := 0x20, mie := mie_init\<lparr>ie_STIE := 1\<rparr>\<rparr>\<rparr>"

definition masked_demo :: emu where
  "masked_demo = upd_mstatus (ms_sie_update (\<lambda>_. 0)) (upd_mip (ip_STIP_update (\<lambda>_. 1)) timer_demo)"

section \<open>Further facts\<close>

text \<open>
  For a file of at most \<open>2 ^ 29\<close> lines, each a 32-bit value, the loader completes on any initial
  memory, and \<^verbatim>\<open>getINST\<close> then finds line \<open>i\<close> as the \<open>i\<close>-th 32-bit instruction.
\<close>

theorem loader_then_fetch:
  assumes "length ws \<le> 2 ^ 29" "\<forall>w \<in> set ws. take_bit 32 w = w"
  shows "\<exists>m'. load_lines 0 ws m = Inr m' \<and> (\<forall>i < length ws. getINST (of_nat i) m' = Inr (ws ! i))"
  using load_lines_fetch [of 0 ws m] assms by auto

theorem loader_then_fetch_witness:
  "\<exists>m'. load_lines 0 [0x13, 0x93, 0x113] (\<lambda>_. 0) = Inr m' \<and>
    (\<forall>i < length [0x13, 0x93, 0x113 :: u64]. getINST (of_nat i) m' = Inr ([0x13, 0x93, 0x113] ! i))"
  by (rule loader_then_fetch) (simp_all add: take_bit_eq_mod)

text \<open>
  In supervisor or user mode, when \<^verbatim>\<open>mtime\<close> has reached \<^verbatim>\<open>mtimecmp\<close>, the supervisor timer
  interrupt is enabled and delegated and no interrupt of higher priority is enabled, the end of the
  iteration enters the supervisor handler with the timer cause and the next instruction as return
  address, and masks further interrupts. (The handler must not start where the iteration did.)
\<close>

theorem timer_interrupt_taken:
  assumes "mtimecmp s \<le> mtime s" "cp s = SMODE \<or> cp s = UMODE" "\<not> LD_ACC_FAULT (faults s)"
    and "ie_MEIE (mie (csrs s)) = 0" "ie_MTIE (mie (csrs s)) = 0" "ie_MSIE (mie (csrs s)) = 0"
    and "ie_SEIE (mie (csrs s)) = 0" "ie_STIE (mie (csrs s)) = 1" "bit (mideleg (csrs s)) 5"
    and "sideleg (csrs s) = 0" "ms_sie (mstatus (csrs s)) = 1" "tv_mode (stvec (csrs s)) = 0"
    and "tv_base (stvec (csrs s)) \<noteq> lPC"
  shows "\<exists>s'. finish lPC s = Inr s' \<and> cp s' = SMODE \<and> PC s' = tv_base (stvec (csrs s)) \<and>
    sepc (csrs s') = PC s \<and> scause (csrs s') = \<lparr>ca_interrupt = 1, ca_ecode = 5\<rparr> \<and>
    ms_sie (mstatus (csrs s')) = 0 \<and> ms_spie (mstatus (csrs s')) = 1 \<and>
    reg_file s' = reg_file s \<and> memory s' = memory s"
proof -
  let ?t = "refresh s"
  have pend: "pending_interrupt (csrs ?t) = Some 5"
    using assms by (simp add: pending_interrupt_def refresh_def Let_def mtime_def mtimecmp_def)
  have t: "LD_ACC_FAULT (faults ?t) = False" "cp ?t = cp s" "PC ?t = PC s" "mideleg (csrs ?t) = mideleg (csrs s)"
    "sideleg (csrs ?t) = 0" "stvec (csrs ?t) = stvec (csrs s)" "ms_sie (mstatus (csrs ?t)) = 1"
    using assms by (simp_all add: refresh_def Let_def)
  have "interrupt_function (PC ?t) 5 (cp ?t) ?t =
      Inr (tv_base (stvec (csrs s)), trap_enter SMODE 1 5 (PC s) ?t)"
    using assms(2,9,12) t
    by (auto simp: interrupt_function_eq trap_mode_select_eq interrupt_entry_def handler_tvec_def
        int_enabled_def Let_def)
  then have "take_traps ?t = Inr ((trap_enter SMODE 1 5 (PC s) ?t)\<lparr>PC := tv_base (stvec (csrs s))\<rparr>)"
    using t(1) pend by (simp add: take_traps_def Let_def)
  then show ?thesis
    using assms(13) t(7) by (simp add: finish_def trap_enter_def Let_def refresh_simps)
qed

theorem timer_interrupt_taken_witness:
  "\<exists>s'. finish 0x80000000 timer_demo = Inr s' \<and> cp s' = SMODE \<and> PC s' = 0 \<and>
    scause (csrs s') = \<lparr>ca_interrupt = 1, ca_ecode = 5\<rparr>"
  using timer_interrupt_taken [of timer_demo "0x80000000"]
  by (simp add: timer_demo_def bare_demo_def emu_init_def csr_init_def mie_init_def mstatus_init_def
      tvec_init_def no_faults_def mtime_def mtimecmp_def bit_numeral_word_iff) blast

text \<open>
  While an interrupt is pending and enabled in \<^verbatim>\<open>mie\<close> but masked at its handling level, the end
  of the iteration delivers no synchronous exception: whatever flags are raised stay raised and
  execution continues with the next instruction.
\<close>

theorem masked_interrupt_defers_exceptions:
  assumes "pending_interrupt (csrs s) = Some c" "\<not> LD_ACC_FAULT (faults s)"
    and "trap_mode_select c True (cp s) (csrs s) = Inr h" "\<not> int_enabled h (csrs s)"
  shows "take_traps s = Inr s"
  using assms by (simp add: take_traps_def Let_def interrupt_function_eq interrupt_entry_def)

theorem masked_interrupt_defers_exceptions_witness:
  "take_traps (masked_demo\<lparr>faults := no_faults\<lparr>ILL_INS := True\<rparr>\<rparr>) =
     Inr (masked_demo\<lparr>faults := no_faults\<lparr>ILL_INS := True\<rparr>\<rparr>)"
proof (rule masked_interrupt_defers_exceptions)
  let ?s = "masked_demo\<lparr>faults := no_faults\<lparr>ILL_INS := True\<rparr>\<rparr>"
  show "pending_interrupt (csrs ?s) = Some 5"
    by (simp add: masked_demo_def timer_demo_def bare_demo_def emu_init_def csr_init_def mie_init_def
        pending_interrupt_def)
  show "\<not> LD_ACC_FAULT (faults ?s)" by (simp add: no_faults_def)
  show "trap_mode_select 5 True (cp ?s) (csrs ?s) = Inr SMODE"
    by (simp add: masked_demo_def timer_demo_def bare_demo_def emu_init_def csr_init_def
        trap_mode_select_eq bit_numeral_word_iff)
  show "\<not> int_enabled SMODE (csrs ?s)" by (simp add: int_enabled_def masked_demo_def)
qed

section \<open>Properties\<close>

text \<open>
  C1: whatever the program in memory and the environment are, in every state that \<open>n\<close> iterations
  of the main loop reach from the initial state, every field of every CSR struct is within its
  width (so that \<^verbatim>\<open>read_reg\<close> and \<^verbatim>\<open>write_reg\<close> are inverse) and the \<^verbatim>\<open>cycle\<close> CSR is \<open>n\<close>, as a 64-bit
  number; no instruction and no trap can change either.
\<close>

theorem reachable_states:
  assumes "steps (emu_init m t) n s"
  shows "csr_ok (csrs s) \<and> cycle (csrs s) = of_nat n \<and> cycle_count s = of_nat n"
proof -
  have "cycle_count (emu_init m t) = 0" by (simp add: emu_init_def)
  then have "cycle_count s = of_nat n" using steps_cycle_count [OF assms] by simp
  then show ?thesis
    using wf_loop.steps [OF assms emu_init_wf] cycle_loop.steps [OF assms emu_init_cycle] by simp
qed

theorem reachable_states_witness:
  "\<exists>s. steps (emu_init (\<lambda>_. 0) 0) 1 s \<and> csr_ok (csrs s) \<and> cycle (csrs s) = 1"
proof -
  obtain s where s: "steps (emu_init (\<lambda>_. 0) 0) 1 s"
    using zero_program_step steps.intros by (metis One_nat_def)
  with reachable_states [OF s] show ?thesis by auto
qed





text \<open>
  C6: an iteration that fetches \<^verbatim>\<open>JAL\<close>, \<^verbatim>\<open>JALR\<close> or one of the six branches from RAM, with no fault flag
  raised and no interrupt pending, continues at the target the reference semantics gives, with the
  return address in \<^verbatim>\<open>rd\<close> for the two jumps and all other registers, memory and privilege level
  kept; when the target is the instruction itself, the emulator stops (its infinite-loop test).
\<close>

theorem control_step:
  assumes "fetches e s ins" "quiet (tick e s)" "isa_transfer ins (PC s) (regs s) = Some (target, link)"
  shows "if target = PC s then step e s = Inl Break
    else \<exists>s'. step e s = Inr s' \<and> PC s' = target \<and>
      reg_file s' = (if link then (regs s)(f_rd (decode ins) := PC s + 4) else regs s) \<and>
      cp s' = cp s \<and> memory s' = (memory s)(MTIME_WORD := now e * 10)"
proof -
  let ?i = "issue (tick e s)"
  have i: "PC ?i - 4 = PC s" "reg_file ?i = regs s" "PC ?i = PC s + 4"
    by (simp_all add: issue_simps tick_simps)
  then obtain b where "exec e ins ?i = Inr (Fall (?i\<lparr>PC := target, branch := b,
      reg_file := if link then (reg_file ?i)(f_rd (decode ins) := PC ?i) else reg_file ?i\<rparr>))"
    using exec_transfer [of ins ?i target link e] assms(3) by auto
  from step_quiet [OF assms(1) this] assms(2) show ?thesis
    by (simp add: issue_simps tick_simps refresh_simps)
qed

theorem control_step_witness: "step (env_demo 0) jal_demo = Inl Break"
proof -
  have j: "PC jal_demo = 0x80000000" "cp jal_demo = MMODE" "sa_MODE (satp (csrs jal_demo)) = 0"
    "faults jal_demo = no_faults" "mie (csrs jal_demo) = mie_init"
    by (simp_all add: jal_demo_def bare_demo_def emu_init_def csr_init_def satp_init_def)
  have "ram_value (memory (tick (env_demo 0) jal_demo)) DRAM_BASE 4 = 0x6F"
    by (simp add: tick_simps jal_demo_def ram_value_def ram_index_def lane_def get_field_def take_bit_eq_mod)
  then have "fetches (env_demo 0) jal_demo 0x6F"
    using fetches_bare [of jal_demo "env_demo 0"] by (simp add: j lane_def)
  moreover have "quiet (tick (env_demo 0) jal_demo)"
    by (simp add: quiet_def pending_interrupt_def refresh_def tick_def Let_def j mie_init_def)
  moreover have "isa_transfer 0x6F (PC jal_demo) (regs jal_demo) = Some (0x80000000, True)"
  proof -
    have "opcode_of 0x6F = Some jump" using opcode_of_bits [of jump] by simp
    then show ?thesis by (simp add: isa_transfer_def Let_def decode_def j)
  qed
  ultimately have "if 0x80000000 = PC jal_demo then step (env_demo 0) jal_demo = Inl Break else
      \<exists>s'. step (env_demo 0) jal_demo = Inr s' \<and> PC s' = 0x80000000 \<and>
      reg_file s' = (if True then (regs jal_demo)(f_rd (decode 0x6F) := PC jal_demo + 4) else regs jal_demo) \<and>
      cp s' = cp jal_demo \<and> memory s' = (memory jal_demo)(MTIME_WORD := now (env_demo 0) * 10)"
    by (rule control_step)
  then show ?thesis by (simp add: j)
qed

text \<open>
  C15: every run of the loop of the other build is, step by step, a run of the loop of the \<^verbatim>\<open>TEMU\<close> build on
  the same hart, whatever the state of the device; the device is as it was. (The other build ends where
  a load or store reaches the registers of the device.)
\<close>

theorem temu_extends_loop:
  assumes "steps (vm_emu s) n h"
  shows "temu_steps s n (s\<lparr>vm_emu := h\<rparr>)"
  using assms
proof (induction "vm_emu s" n h rule: steps.induct)
  case (more n h e h')
  have "step_temu (virtio_block_recv_request (\<lambda>_. 0)) None e (s\<lparr>vm_emu := h\<rparr>) = Some (Inr (s\<lparr>vm_emu := h'\<rparr>))"
    using step_temu_hart [of e "s\<lparr>vm_emu := h\<rparr>" h'] more.hyps(3) by simp
  then show ?case by (rule temu_steps.more [OF more.hyps(2)])
qed (simp add: temu_steps.start)

theorem temu_extends_loop_witness:
  "\<exists>h. temu_steps (demo_vm\<lparr>vm_emu := emu_init (\<lambda>_. 0) 0\<rparr>) 1 (demo_vm\<lparr>vm_emu := h\<rparr>)"
proof -
  obtain h where "steps (emu_init (\<lambda>_. 0) 0) 1 h"
    using zero_program_step steps.intros by (metis One_nat_def)
  then show ?thesis using temu_extends_loop [of "demo_vm\<lparr>vm_emu := emu_init (\<lambda>_. 0) 0\<rparr>" 1 h] by auto
qed



end
